(* ===== verification/Eci_Prelude.thy ===== *)
theory Eci_Prelude
  imports Main "HOL-Library.Word"
begin

text \<open>
  Shared vocabulary of the development: the C and POSIX constants the sources use, the
  undefined behaviours a C++ operation can run into, 32-bit truncation, and the list
  operations behind the sources' \<open>std::list\<close> loops (first match, erase the first match),
  with the lemmas about them that the component theories rely on.

  The constants have the values of GNU/Linux on x86-64, the platform for which the build
  (\<^verbatim>\<open>CMakeLists.txt\<close>) selects the \<open>Poll\<close> event driver.
\<close>

unbundle bit_operations_syntax

section \<open>Collections of simplification rules\<close>

named_theorems list_ops \<open>first-match search and removal on lists\<close>
named_theorems ev_defs \<open>operations of the event loop\<close>
named_theorems rpc_defs \<open>operations of the RPC transport\<close>
named_theorems gen_defs \<open>operations of the stub generator\<close>

section \<open>Constants of the platform\<close>

abbreviation (input) EPERM :: int where "EPERM \<equiv> 1"
abbreviation (input) ENOENT :: int where "ENOENT \<equiv> 2"
abbreviation (input) EINTR :: int where "EINTR \<equiv> 4"
abbreviation (input) E2BIG :: int where "E2BIG \<equiv> 7"
abbreviation (input) EBADF :: int where "EBADF \<equiv> 9"
abbreviation (input) ENOMEM :: int where "ENOMEM \<equiv> 12"
abbreviation (input) ENOTDIR :: int where "ENOTDIR \<equiv> 20"
abbreviation (input) EINVAL :: int where "EINVAL \<equiv> 22"
abbreviation (input) ERANGE :: int where "ERANGE \<equiv> 34"
abbreviation (input) EPFNOSUPPORT :: int where "EPFNOSUPPORT \<equiv> 96"
abbreviation (input) EAFNOSUPPORT :: int where "EAFNOSUPPORT \<equiv> 97"
abbreviation (input) ENOBUFS :: int where "ENOBUFS \<equiv> 105"
abbreviation (input) ETIMEDOUT :: int where "ETIMEDOUT \<equiv> 110"

abbreviation (input) POLLIN :: int where "POLLIN \<equiv> 1"
abbreviation (input) POLLOUT :: int where "POLLOUT \<equiv> 4"
abbreviation (input) POLLHUP :: int where "POLLHUP \<equiv> 16"

abbreviation (input) SIGINT :: int where "SIGINT \<equiv> 2"
abbreviation (input) SIGUSR1 :: int where "SIGUSR1 \<equiv> 10"
abbreviation (input) SIGALRM :: int where "SIGALRM \<equiv> 14"
abbreviation (input) NSIG :: nat where "NSIG \<equiv> 65"

text \<open>
  What can go wrong in a C++ operation without the operation noticing. The models keep a
  log of these and go on with the values the memory has, so that both the fault and what
  the operation does otherwise can be stated.
\<close>

datatype fault =
    OutOfBounds string int   \<comment> \<open>access to this index outside the named array\<close>
  | Dangling string          \<comment> \<open>use or keeping of a pointer to freed memory\<close>
  | NullCall                 \<comment> \<open>virtual call through a null handler pointer\<close>
  | NullString string        \<comment> \<open>a C string or \<open>std::string\<close> read from a null pointer\<close>

type_synonym timespec = "int \<times> int"   \<comment> \<open>\<open>tv_sec\<close>, \<open>tv_nsec\<close>\<close>

definition int32 :: "int \<Rightarrow> int" where
  "int32 x = signed_take_bit 31 x"

section \<open>Lists: the first match\<close>

fun remove_first :: "('a \<Rightarrow> bool) \<Rightarrow> 'a list \<Rightarrow> 'a list" where
  "remove_first P [] = []"
| "remove_first P (x # xs) = (if P x then xs else x # remove_first P xs)"

fun find_index :: "('a \<Rightarrow> bool) \<Rightarrow> 'a list \<Rightarrow> nat option" where
  "find_index P [] = None"
| "find_index P (x # xs) = (if P x then Some 0 else map_option Suc (find_index P xs))"

section \<open>Decimal numerals\<close>

text \<open>What \<^verbatim>\<open>%d\<close> and \<open>toStr\<close> print for an integer.\<close>

definition digit_char :: "nat \<Rightarrow> char" where
  "digit_char n = ''0123456789'' ! n"

fun show_nat :: "nat \<Rightarrow> string" where
  "show_nat n = (if n < 10 then [digit_char n] else show_nat (n div 10) @ [digit_char (n mod 10)])"

declare show_nat.simps [simp del]

definition show_int :: "int \<Rightarrow> string" where
  "show_int i = (if i < 0 then CHR ''-'' # show_nat (nat (- i)) else show_nat (nat i))"

text \<open>The text that \<open>printf\<close> makes of a format with \<^verbatim>\<open>%d\<close> and \<^verbatim>\<open>%s\<close>.\<close>

datatype fmt_arg = ArgD int | ArgS string

fun fmt_text :: "string \<Rightarrow> fmt_arg list \<Rightarrow> string" where
  "fmt_text [] args = []"
| "fmt_text [c] args = [c]"
| "fmt_text (c # d # cs) args =
     (if c = CHR ''%'' \<and> d \<in> {CHR ''d'', CHR ''s''} then
        (case args of
           [] \<Rightarrow> fmt_text cs []
         | ArgD i # as \<Rightarrow> show_int i @ fmt_text cs as
         | ArgS s # as \<Rightarrow> s @ fmt_text cs as)
      else c # fmt_text (d # cs) args)"

definition digit_val :: "char \<Rightarrow> nat" where
  "digit_val c = of_char c - 48"

definition digits_value :: "string \<Rightarrow> nat" where
  "digits_value = foldl (\<lambda>a c. 10 * a + digit_val c) 0"

section \<open>Lemmas\<close>

lemma show_nat_digits: "set (show_nat n) \<subseteq> set ''0123456789''"
proof (induction n rule: show_nat.induct)
  case (1 n)
  have digit: "digit_char k \<in> set ''0123456789''" if "k < 10" for k
    unfolding digit_char_def by (rule nth_mem) (use that in simp)
  show ?case using 1 digit [of n] digit [of "n mod 10"] by (subst show_nat.simps) auto
qed

lemma digit_val: "n < 10 \<Longrightarrow> digit_val (digit_char n) = n"
proof -
  assume "n < 10"
  then have "n \<in> set [0..<10]" by simp
  then show ?thesis unfolding digit_val_def digit_char_def by (simp add: upt_rec) auto
qed

lemma show_nat_value: "foldl (\<lambda>a c. 10 * a + digit_val c) 0 (show_nat n) = n"
proof (induction n rule: show_nat.induct)
  case (1 n)
  then show ?case by (subst show_nat.simps) (simp add: digit_val)
qed

lemma show_nat_inj: "show_nat a = show_nat b \<longleftrightarrow> a = b"
  by (metis show_nat_value)

lemma remove_first_id [list_ops]: "(\<And>x. x \<in> set xs \<Longrightarrow> \<not> P x) \<Longrightarrow> remove_first P xs = xs"
  by (induction xs) auto

lemma remove_first_append [list_ops]:
  "remove_first P (xs @ ys) =
     (if \<exists>x \<in> set xs. P x then remove_first P xs @ ys else xs @ remove_first P ys)"
  by (induction xs) auto

lemma set_remove_first: "set (remove_first P xs) \<subseteq> set xs"
  by (induction xs) auto

lemma length_remove_first [list_ops]:
  "length (remove_first P xs) = (if \<exists>x \<in> set xs. P x then length xs - 1 else length xs)"
proof (induction xs)
  case (Cons x xs)
  then show ?case by (cases xs) auto
qed simp

lemma map_remove_first [list_ops]:
  "map f (remove_first (\<lambda>x. P (f x)) xs) = remove_first P (map f xs)"
  by (induction xs) auto

lemma map_remove_first_eq:
  "map f (remove_first (\<lambda>x. f x = k) xs) = remove_first (\<lambda>y. y = k) (map f xs)"
  by (rule map_remove_first)

lemma distinct_remove_first: "distinct xs \<Longrightarrow> distinct (remove_first P xs)"
  by (induction xs) (auto dest: subsetD [OF set_remove_first])

lemma remove_first_distinct:
  assumes "distinct (map f xs)"
  shows "remove_first (\<lambda>x. f x = k) xs = filter (\<lambda>x. f x \<noteq> k) xs"
  using assms
proof (induction xs)
  case (Cons x xs)
  show ?case
  proof (cases "f x = k")
    case True
    with Cons.prems have "\<forall>y \<in> set xs. f y \<noteq> k" by (auto simp: image_iff)
    with True show ?thesis by (simp add: filter_True)
  next
    case False
    with Cons show ?thesis by simp
  qed
qed simp

lemma find_index_None [list_ops]: "find_index P xs = None \<longleftrightarrow> (\<forall>x \<in> set xs. \<not> P x)"
  by (induction xs) auto

lemma find_index_Some:
  "find_index P xs = Some i \<Longrightarrow> i < length xs \<and> P (xs ! i) \<and> (\<forall>j < i. \<not> P (xs ! j))"
proof (induction xs arbitrary: i)
  case (Cons x xs)
  show ?case
  proof (cases "P x")
    case True
    with Cons.prems show ?thesis by simp
  next
    case False
    with Cons.prems obtain i' where i: "find_index P xs = Some i'" "i = Suc i'" by auto
    with Cons.IH [of i'] False show ?thesis by (auto simp: less_Suc_eq_0_disj)
  qed
qed simp

lemma find_index_append [list_ops]:
  "find_index P (xs @ ys) =
     (case find_index P xs of Some i \<Rightarrow> Some i
      | None \<Rightarrow> map_option (\<lambda>i. length xs + i) (find_index P ys))"
proof (induction xs)
  case Nil
  show ?case by (cases "find_index P ys") auto
next
  case (Cons x xs)
  then show ?case by (cases "find_index P ys") (auto split: option.splits)
qed

lemma remove_first_find_index:
  "find_index P xs = Some i \<Longrightarrow> remove_first P xs = take i xs @ drop (Suc i) xs"
proof (induction xs arbitrary: i)
  case (Cons x xs)
  show ?case
  proof (cases "P x")
    case True
    with Cons.prems show ?thesis by simp
  next
    case False
    with Cons.prems obtain i' where i: "find_index P xs = Some i'" "i = Suc i'" by auto
    with Cons.IH [of i'] False show ?thesis by simp
  qed
qed simp

lemma find_Some_append [list_ops]:
  "find P (xs @ ys) = (case find P xs of Some x \<Rightarrow> Some x | None \<Rightarrow> find P ys)"
  by (induction xs) auto

lemma find_SomeD: "find P xs = Some x \<Longrightarrow> x \<in> set xs \<and> P x"
  by (induction xs) (auto split: if_splits)

lemma find_NoneD: "find P xs = None \<longleftrightarrow> (\<forall>x \<in> set xs. \<not> P x)"
  by (induction xs) auto

lemma find_append: "find P (xs @ ys) = (case find P xs of Some x \<Rightarrow> Some x | None \<Rightarrow> find P ys)"
  by (induction xs) auto

lemma find_distinct:
  "distinct (map f xs) \<Longrightarrow> x \<in> set xs \<Longrightarrow> find (\<lambda>y. f y = f x) xs = Some x"
  by (induction xs) auto

lemma set_map_filter_notin: "set (map f (filter (\<lambda>x. f x \<notin> A) xs)) = set (map f xs) - A"
  by auto

lemma map_of_filter_neq [list_ops]:
  "map_of (filter (\<lambda>x. fst x \<noteq> k) xs) = (map_of xs)(k := None)"
  by (induction xs) (auto simp: fun_eq_iff)

section \<open>Lemmas: 32-bit truncation\<close>

lemma int32_range: "- (2 ^ 31) \<le> int32 x \<and> int32 x < 2 ^ 31"
  using signed_take_bit_int_greater_eq_minus_exp [of 31 x] signed_take_bit_int_less_exp [of 31 x]
  by (simp add: int32_def)

lemma int32_id: "- (2 ^ 31) \<le> x \<Longrightarrow> x < 2 ^ 31 \<Longrightarrow> int32 x = x"
  by (simp add: int32_def signed_take_bit_int_eq_self)

end
