(* ===== verification/Eci_Core.thy ===== *)
theory Eci_Core
  imports Eci_Prelude
begin

text \<open>
  The C utilities of \<^verbatim>\<open>lib/eci/Core.c\<close>: the timeout conversion used by the event loops,
  the classification of a child's wait status, and the splitting of a command line into an
  argument vector before \<open>execvp\<close>. The theory \<^verbatim>\<open>Process\<close> models the rest of the file.
\<close>

section \<open>Timeouts\<close>

text \<open>
  \<open>timeSpecToMSecs\<close>: a null pointer is \<open>None\<close>. \<open>tv_nsec / 1000000\<close> is computed in \<open>long\<close>
  (C division truncates towards zero) and narrowed to \<open>int\<close>; the sum with \<open>tv_sec * 1000\<close> is
  computed in \<open>long\<close> and narrowed to \<open>int\<close> by the return.
\<close>

definition trunc_div :: "int \<Rightarrow> int \<Rightarrow> int" where
  "trunc_div a b = sgn a * sgn b * (\<bar>a\<bar> div \<bar>b\<bar>)"

definition timeSpecToMSecs :: "timespec option \<Rightarrow> int" where
  "timeSpecToMSecs ts =
     (case ts of
        None \<Rightarrow> -1
      | Some (sec, nsec) \<Rightarrow>
          (let msecs = int32 (trunc_div nsec 1000000)
           in int32 (msecs + sec * 1000)))"

section \<open>Wait status\<close>

text \<open>The macros of \<^verbatim>\<open>sys/wait.h\<close> on the platform.\<close>

definition WIFEXITED :: "int \<Rightarrow> bool" where
  "WIFEXITED w \<longleftrightarrow> w AND 127 = 0"

definition WEXITSTATUS :: "int \<Rightarrow> int" where
  "WEXITSTATUS w = drop_bit 8 (w AND 65280)"

definition WTERMSIG :: "int \<Rightarrow> int" where
  "WTERMSIG w = w AND 127"

definition WIFSIGNALED :: "int \<Rightarrow> bool" where
  "WIFSIGNALED w \<longleftrightarrow> signed_take_bit 7 ((w AND 127) + 1) div 2 > 0"

abbreviation (input) SIGHUP :: int where "SIGHUP \<equiv> 1"
abbreviation (input) SIGPIPE :: int where "SIGPIPE \<equiv> 13"
abbreviation (input) SIGTERM :: int where "SIGTERM \<equiv> 15"

definition eciExitWasAbnormal :: "int \<Rightarrow> int" where
  "eciExitWasAbnormal wstat =
     (if WIFEXITED wstat then WEXITSTATUS wstat
      else if WIFSIGNALED wstat then
        (let sig = WTERMSIG wstat
         in if sig = SIGPIPE \<or> sig = SIGTERM \<or> sig = SIGHUP \<or> sig = SIGINT then 0 else sig)
      else 1)"

section \<open>Argument vectors\<close>

text \<open>
  \<open>strtok_r\<close> with the delimiter \<open>'' ''\<close> skips delimiters, returns the token up to the next
  delimiter and keeps the rest. \<open>eciProcessForkAndWait\<close> discards the pointer its first call
  returns and takes the start of the buffer as \<open>argv[0]\<close>: that string runs from the start of
  the buffer to the NUL that the first call has written behind the first token, leading
  delimiters included.
\<close>

definition is_space :: "char \<Rightarrow> bool" where
  "is_space c \<longleftrightarrow> c = CHR '' ''"

definition strtok_r :: "string \<Rightarrow> (string \<times> string) option" where
  "strtok_r s =
     (let t = dropWhile is_space s
      in if t = [] then None
         else Some (takeWhile (\<lambda>c. \<not> is_space c) t, drop 1 (dropWhile (\<lambda>c. \<not> is_space c) t)))"

lemma strtok_r_shorter: "strtok_r s = Some (tok, rest) \<Longrightarrow> length rest < length s"
proof -
  assume a: "strtok_r s = Some (tok, rest)"
  let ?t = "dropWhile is_space s"
  from a have ne: "?t \<noteq> []" and rest: "rest = drop 1 (dropWhile (\<lambda>c. \<not> is_space c) ?t)"
    by (auto simp: strtok_r_def Let_def split: if_splits)
  have "length (dropWhile (\<lambda>c. \<not> is_space c) ?t) \<le> length ?t"
    by (rule length_dropWhile_le)
  moreover have "length ?t \<le> length s" by (rule length_dropWhile_le)
  ultimately show ?thesis using ne rest
    by (cases "dropWhile (\<lambda>c. \<not> is_space c) ?t"; cases ?t) auto
qed

function strtok_rest :: "string \<Rightarrow> string list" where
  "strtok_rest s =
     (case strtok_r s of None \<Rightarrow> [] | Some (tok, rest) \<Rightarrow> tok # strtok_rest rest)"
  by pat_completeness auto
termination
  by (relation "measure length") (auto dest: strtok_r_shorter)

declare strtok_rest.simps [simp del]

definition fork_argv :: "string \<Rightarrow> string list" where
  "fork_argv cmd =
     (case strtok_r cmd of
        None \<Rightarrow> [cmd]
      | Some (tok, rest) \<Rightarrow> (takeWhile is_space cmd @ tok) # strtok_rest rest)"

section \<open>Properties\<close>

lemma trunc_div_nonneg: "0 \<le> a \<Longrightarrow> 0 < b \<Longrightarrow> trunc_div a b = a div b"
  by (cases "a = 0") (auto simp: trunc_div_def)

lemma timeSpecToMSecs_exact:
  assumes "0 \<le> sec" "sec \<le> 2147482" "0 \<le> nsec" "nsec < 1000000000"
  shows "timeSpecToMSecs (Some (sec, nsec)) = sec * 1000 + nsec div 1000000"
proof -
  have n: "0 \<le> nsec div 1000000" "nsec div 1000000 < 1000" using assms(3,4) by auto
  then have "int32 (nsec div 1000000) = nsec div 1000000" by (intro int32_id) auto
  moreover have "int32 (nsec div 1000000 + sec * 1000) = nsec div 1000000 + sec * 1000"
    using n assms by (intro int32_id) auto
  ultimately show ?thesis using assms(3)
    by (simp add: timeSpecToMSecs_def trunc_div_nonneg Let_def)
qed

lemma and_127: "(w::int) AND 127 = w mod 128"
  using take_bit_eq_mask [of 7 w] by (simp add: take_bit_eq_mod mask_eq_exp_minus_1)

lemma and_255: "(w::int) AND 255 = w mod 256"
  using take_bit_eq_mask [of 8 w] by (simp add: take_bit_eq_mod mask_eq_exp_minus_1)

lemma WIFSIGNALED_mod: "WIFSIGNALED w \<longleftrightarrow> w mod 128 \<noteq> 0 \<and> w mod 128 \<noteq> 127"
proof -
  have b: "0 \<le> w mod 128" "w mod 128 < 128" by simp_all
  show ?thesis
  proof (cases "w mod 128 = 127")
    case True
    then show ?thesis by (simp add: WIFSIGNALED_def and_127)
  next
    case False
    with b have "signed_take_bit 7 (w mod 128 + 1) = w mod 128 + 1"
      by (intro signed_take_bit_int_eq_self) auto
    with b False show ?thesis by (auto simp: WIFSIGNALED_def and_127)
  qed
qed

lemma strtok_rest_words:
  assumes "\<forall>w \<in> set ws. w \<noteq> [] \<and> (\<forall>c \<in> set w. \<not> is_space c)"
  shows "strtok_rest (concat (map (\<lambda>w. w @ '' '') ws)) = ws"
  using assms
proof (induction ws)
  case Nil
  show ?case by (simp add: strtok_rest.simps strtok_r_def)
next
  case (Cons w ws)
  then obtain c cs where w: "w = c # cs" and c: "\<not> is_space c" by (cases w) auto
  have sp: "is_space CHR '' ''" by (simp add: is_space_def)
  have "strtok_r (concat (map (\<lambda>w. w @ '' '') (w # ws))) = Some (w, concat (map (\<lambda>w. w @ '' '') ws))"
    using Cons.prems w c sp by (simp add: strtok_r_def Let_def takeWhile_append2 dropWhile_append2)
  with Cons show ?case by (subst strtok_rest.simps) simp
qed

text \<open>C36: \<open>timeSpecToMSecs\<close> gives the number of whole milliseconds for every normalised timeout
  of at most 2147482 seconds (beyond that the \<open>int\<close> wraps around), and -1, "wait for ever", exactly
  for the null pointer among these.\<close>

theorem timeout_conversion:
  assumes "0 \<le> sec" "sec \<le> 2147482" "0 \<le> nsec" "nsec < 1000000000"
  shows "timeSpecToMSecs (Some (sec, nsec)) = sec * 1000 + nsec div 1000000 \<and>
    0 \<le> timeSpecToMSecs (Some (sec, nsec)) \<and> timeSpecToMSecs None = -1"
proof -
  have "0 \<le> nsec div 1000000" using assms(3) by simp
  then show ?thesis
    using timeSpecToMSecs_exact [OF assms] assms(1) by (simp add: timeSpecToMSecs_def)
qed

theorem timeout_conversion_witness:
  "timeSpecToMSecs (Some (2, 5999999)) = 2005"
  using timeout_conversion [of 2 5999999] by simp

text \<open>\<open>eciExitWasAbnormal\<close> returns 0 exactly for a process that exited with status 0 or was
  ended by one of the four signals \<open>SIGHUP\<close>, \<open>SIGINT\<close>, \<open>SIGPIPE\<close> and \<open>SIGTERM\<close>; for another signal
  it returns its number, for another exit its status.\<close>

theorem exit_classification:
  "(eciExitWasAbnormal w = 0 \<longleftrightarrow>
      (if w mod 128 = 0 then w div 256 mod 256 = 0 else w mod 128 \<in> {SIGHUP, SIGINT, SIGPIPE, SIGTERM})) \<and>
   (if w mod 128 = 0 then eciExitWasAbnormal w = w div 256 mod 256
    else eciExitWasAbnormal w \<in> {0, 1, w mod 128})"
proof -
  have "w AND 65280 = (w div 256 mod 256) * 256"
  proof -
    have "(65280::int) = push_bit 8 255" by (simp add: push_bit_eq_mult)
    moreover have "w AND push_bit 8 m = push_bit 8 (drop_bit 8 w AND m)" for m
      by (auto simp: bit_eq_iff bit_simps)
    ultimately have "w AND 65280 = push_bit 8 (drop_bit 8 w AND 255)" by metis
    then show ?thesis by (simp add: and_255 push_bit_eq_mult drop_bit_eq_div)
  qed
  then have "WEXITSTATUS w = w div 256 mod 256"
    by (simp add: WEXITSTATUS_def drop_bit_eq_div)
  then show ?thesis
    by (auto simp: eciExitWasAbnormal_def WIFEXITED_def WTERMSIG_def and_127 WIFSIGNALED_mod Let_def)
qed

text \<open>The argument vector that \<open>eciProcessForkAndWait\<close> builds from words separated by blanks
  is the list of the words, except that blanks in front of the command become part of \<open>argv[0]\<close>.\<close>

theorem argument_vector:
  assumes "\<forall>v \<in> set (w # ws). v \<noteq> [] \<and> (\<forall>c \<in> set v. \<not> is_space c)"
  shows "fork_argv (replicate k CHR '' '' @ concat (map (\<lambda>v. v @ '' '') (w # ws))) =
    (replicate k CHR '' '' @ w) # ws"
proof -
  have sp: "is_space CHR '' ''" by (simp add: is_space_def)
  obtain c cs where w: "w = c # cs" and c: "\<not> is_space c" using assms by (cases w) auto
  let ?rest = "concat (map (\<lambda>v. v @ '' '') ws)"
  let ?cmd = "replicate k CHR '' '' @ w @ '' '' @ ?rest"
  have lead: "dropWhile is_space ?cmd = w @ '' '' @ ?rest" "takeWhile is_space ?cmd = replicate k CHR '' ''"
    using w c sp by (induction k) auto
  have tok: "takeWhile (\<lambda>c. \<not> is_space c) (w @ '' '' @ ?rest) = w"
    "dropWhile (\<lambda>c. \<not> is_space c) (w @ '' '' @ ?rest) = '' '' @ ?rest"
    using assms sp by (simp_all add: takeWhile_append2 dropWhile_append2)
  have "strtok_r ?cmd = Some (w, ?rest)"
    unfolding strtok_r_def lead Let_def tok using w by simp
  moreover have "strtok_rest ?rest = ws" using assms by (intro strtok_rest_words) simp
  ultimately show ?thesis using lead(2) by (simp add: fork_argv_def)
qed

theorem argument_vector_witness:
  "fork_argv ''  svc -d '' = [''  svc'', ''-d'']"
  using argument_vector [of "''svc''" "[''-d'']" 2] by (simp add: is_space_def numeral_2_eq_2)

end
