(* ===== verification/Process.thy ===== *)
theory Process
  imports Eci_Core
begin

text \<open>
  Starting a process and holding it back, the rest of \<^verbatim>\<open>lib/eci/Core.c\<close>: \<open>eciProcessForkAndWait\<close> forks a child
  that waits on a pipe, \<open>eciPendingProcessContinue\<close> lets it go on to run the command, \<open>eciCloseOnExec\<close>.

  The state is a \<open>system\<close> of one parent and its children with the pipes between them: for every pipe the number
  of bytes in it, for every process the ends it holds. A forked child starts with the ends of its parent. The
  code of the child is a sequence of steps (\<open>child_step\<close>, \<open>None\<close> for a blocked \<open>read\<close>), which \<open>proc_step\<close>
  interleaves with the calls of the parent, with signals that kill a child, and with the end of the parent. The
  two calls of the parent are single steps: of what they do, a child can observe only that a byte is in its pipe
  and that no writer is left.

  If \<open>pipe\<close> fails, the two numbers in the structure are what \<open>malloc\<close> left there; they are taken not to be
  descriptors of the process.
\<close>

section \<open>State\<close>

datatype child_pc =
    Forked     \<comment> \<open>before \<open>close(pwait->fd[1])\<close>\<close>
  | Waiting    \<comment> \<open>before or in \<open>read\<close>\<close>
  | Released   \<comment> \<open>before \<open>close(pwait->fd[0])\<close>\<close>
  | Cleaning   \<comment> \<open>before \<open>cleanup_cb\<close>\<close>
  | Execing    \<comment> \<open>before \<open>execvp\<close>\<close>
  | Replaced   \<comment> \<open>running the command\<close>
  | Gone int   \<comment> \<open>ended, with the status that \<open>wait\<close> gives\<close>

record child =
  c_pipe :: "nat option"
  c_argv :: "string list"
  c_pc :: child_pc
  c_cleaned :: bool
  c_rd :: "nat set"
  c_wr :: "nat set"

record system =
  pipes :: "nat list"
  parent_alive :: bool
  p_rd :: "nat set"
  p_wr :: "nat set"
  children :: "child list"

text \<open>\<open>pw_pid\<close> is 0 if the fork failed, else the number of the child, counted from 1.\<close>

record ECIPendingProcess =
  pw_pipe :: "nat option"
  pw_pid :: nat

definition has_writer :: "nat \<Rightarrow> system \<Rightarrow> bool" where
  "has_writer i s \<longleftrightarrow> i \<in> p_wr s \<or> (\<exists>c \<in> set (children s). i \<in> c_wr c)"

definition has_reader :: "nat \<Rightarrow> system \<Rightarrow> bool" where
  "has_reader i s \<longleftrightarrow> i \<in> p_rd s \<or> (\<exists>c \<in> set (children s). i \<in> c_rd c)"

section \<open>The parent\<close>

definition eciProcessForkAndWait :: "bool \<Rightarrow> bool \<Rightarrow> string \<Rightarrow> system \<Rightarrow> ECIPendingProcess \<times> system" where
  "eciProcessForkAndWait pipe_ok fork_ok cmd s =
     (let k = length (pipes s);
          p = (if pipe_ok then Some k else None);
          s1 = (if pipe_ok then s\<lparr>pipes := pipes s @ [0], p_rd := insert k (p_rd s), p_wr := insert k (p_wr s)\<rparr> else s)
      in if \<not> fork_ok then (\<lparr>pw_pipe = p, pw_pid = 0\<rparr>, s1)
         else (\<lparr>pw_pipe = p, pw_pid = Suc (length (children s))\<rparr>,
               s1\<lparr>children := children s @
                    [\<lparr>c_pipe = p, c_argv = fork_argv cmd, c_pc = Forked, c_cleaned = False, c_rd = p_rd s1, c_wr = p_wr s1\<rparr>],
                  p_rd := p_rd s1 - set_option p\<rparr>))"

text \<open>The end of a process closes all its descriptors.\<close>

definition parent_ends :: "system \<Rightarrow> system" where
  "parent_ends s = s\<lparr>parent_alive := False, p_rd := {}, p_wr := {}\<rparr>"

text \<open>A \<open>write\<close> to a pipe without a reader raises \<open>SIGPIPE\<close>.\<close>

definition eciPendingProcessContinue :: "ECIPendingProcess \<Rightarrow> system \<Rightarrow> system" where
  "eciPendingProcessContinue pwait s =
     (case pw_pipe pwait of
        None \<Rightarrow> s
      | Some i \<Rightarrow>
          if \<not> has_reader i s then parent_ends s
          else s\<lparr>pipes := (pipes s)[i := pipes s ! i + 1], p_wr := p_wr s - {i}\<rparr>)"

text \<open>The flags of the open descriptors; for any other descriptor only a message is printed.\<close>

definition eciCloseOnExec :: "int \<Rightarrow> (int \<Rightarrow> int option) \<Rightarrow> int \<Rightarrow> int option" where
  "eciCloseOnExec fd flags =
     (case flags fd of Some f \<Rightarrow> flags(fd := Some (f OR 1)) | None \<Rightarrow> flags)"

section \<open>The child\<close>

definition put_child :: "nat \<Rightarrow> child \<Rightarrow> system \<Rightarrow> system" where
  "put_child j c s = s\<lparr>children := (children s)[j := c]\<rparr>"

definition child_ends :: "int \<Rightarrow> child \<Rightarrow> child" where
  "child_ends status c = c\<lparr>c_pc := Gone status, c_rd := {}, c_wr := {}\<rparr>"

text \<open>\<open>read\<close> of one byte: the pipe afterwards, or \<open>None\<close> while there is no byte but a writer. At the end of
  the stream, and if there is no pipe, it returns without a byte, which is not looked at.\<close>

definition read_pipe :: "nat option \<Rightarrow> system \<Rightarrow> system option" where
  "read_pipe p s =
     (case p of
        None \<Rightarrow> Some s
      | Some i \<Rightarrow>
          if pipes s ! i > 0 then Some (s\<lparr>pipes := (pipes s)[i := pipes s ! i - 1]\<rparr>)
          else if has_writer i s then None
          else Some s)"

text \<open>\<open>exec_ok\<close> tells whether \<open>execvp\<close> finds the command. \<open>exit(999)\<close> keeps the low eight bits.\<close>

definition exit_status :: "int \<Rightarrow> int" where
  "exit_status code = push_bit 8 (code AND 255)"

definition child_step :: "nat \<Rightarrow> bool \<Rightarrow> system \<Rightarrow> system option" where
  "child_step j exec_ok s =
     (if j \<ge> length (children s) then None
      else let c = children s ! j in
        case c_pc c of
          Forked \<Rightarrow> Some (put_child j (c\<lparr>c_pc := Waiting, c_wr := c_wr c - set_option (c_pipe c)\<rparr>) s)
        | Waiting \<Rightarrow> map_option (put_child j (c\<lparr>c_pc := Released\<rparr>)) (read_pipe (c_pipe c) s)
        | Released \<Rightarrow> Some (put_child j (c\<lparr>c_pc := Cleaning, c_rd := c_rd c - set_option (c_pipe c)\<rparr>) s)
        | Cleaning \<Rightarrow> Some (put_child j (c\<lparr>c_pc := Execing, c_cleaned := True\<rparr>) s)
        | Execing \<Rightarrow> Some (put_child j (if exec_ok then c\<lparr>c_pc := Replaced\<rparr> else child_ends (exit_status 999) c) s)
        | Replaced \<Rightarrow> None
        | Gone _ \<Rightarrow> None)"

section \<open>Interleaving\<close>

text \<open>The handles the parent has got and not yet given to \<open>eciPendingProcessContinue\<close>, beside the system.\<close>

inductive proc_step :: "ECIPendingProcess list \<times> system \<Rightarrow> ECIPendingProcess list \<times> system \<Rightarrow> bool" where
  Fork: "parent_alive s \<Longrightarrow> eciProcessForkAndWait pipe_ok fork_ok cmd s = (pw, s') \<Longrightarrow> proc_step (pws, s) (pws @ [pw], s')"
| Continue: "parent_alive s \<Longrightarrow> proc_step (pws1 @ pw # pws2, s) (pws1 @ pws2, eciPendingProcessContinue pw s)"
| Child: "child_step j exec_ok s = Some s' \<Longrightarrow> proc_step (pws, s) (pws, s')"
| ChildEnds: "j < length (children s) \<Longrightarrow> proc_step (pws, s) (pws, put_child j (child_ends status (children s ! j)) s)"
| ParentEnds: "proc_step (pws, s) (pws, parent_ends s)"

definition no_processes :: system where
  "no_processes = \<lparr>pipes = [], parent_alive = True, p_rd = {}, p_wr = {}, children = []\<rparr>"

abbreviation proc_reachable :: "ECIPendingProcess list \<Rightarrow> system \<Rightarrow> bool" where
  "proc_reachable pws s \<equiv> proc_step\<^sup>*\<^sup>* ([], no_processes) (pws, s)"

section \<open>The invariant\<close>

lemma map_filter_append: "List.map_filter f (xs @ ys) = List.map_filter f xs @ List.map_filter f ys"
  by (simp add: List.map_filter_def)

lemma in_map_filter: "y \<in> set (List.map_filter f xs) \<longleftrightarrow> (\<exists>x \<in> set xs. f x = Some y)"
  by (induction xs) (auto simp: map_filter_simps split: option.split)

text \<open>A child that has not gone past its \<open>read\<close>, running or ended there.\<close>

definition held_back :: "child \<Rightarrow> bool" where
  "held_back c \<longleftrightarrow> \<not> c_cleaned c \<and> c_pc c \<notin> {Released, Cleaning, Execing, Replaced}"

definition waits :: "child \<Rightarrow> bool" where
  "waits c \<longleftrightarrow> c_pc c \<in> {Forked, Waiting}"

definition held :: "ECIPendingProcess list \<Rightarrow> nat list" where
  "held pws = List.map_filter pw_pipe pws"

lemma held_simps [simp]:
  "held [] = []" "held (pw # pws) = (case pw_pipe pw of None \<Rightarrow> held pws | Some i \<Rightarrow> i # held pws)"
  "held (pws1 @ pws2) = held pws1 @ held pws2"
  by (simp_all add: held_def map_filter_simps map_filter_append split: option.split)

definition handle_ok :: "system \<Rightarrow> nat \<Rightarrow> bool" where
  "handle_ok s i \<longleftrightarrow> i < length (pipes s) \<and> pipes s ! i = 0 \<and> (parent_alive s \<longrightarrow> i \<in> p_wr s)"

definition child_ok :: "nat set \<Rightarrow> system \<Rightarrow> child \<Rightarrow> bool" where
  "child_ok hs s c \<longleftrightarrow>
     (\<forall>i. c_pipe c = Some i \<longrightarrow>
        i < length (pipes s) \<and> (waits c \<longrightarrow> i \<in> c_rd c) \<and>
        (parent_alive s \<longrightarrow> (i \<in> hs \<longrightarrow> held_back c) \<and> (waits c \<longrightarrow> i \<in> hs \<or> pipes s ! i > 0)))"

definition own_pipes :: "child list \<Rightarrow> bool" where
  "own_pipes cs \<longleftrightarrow> distinct (List.map_filter c_pipe cs)"

definition proc_inv :: "ECIPendingProcess list \<Rightarrow> system \<Rightarrow> bool" where
  "proc_inv pws s \<longleftrightarrow>
     distinct (held pws) \<and> (\<forall>i \<in> set (held pws). handle_ok s i) \<and>
     own_pipes (children s) \<and> (\<forall>c \<in> set (children s). child_ok (set (held pws)) s c)"

lemma own_pipes_update: "c_pipe c' = c_pipe c \<Longrightarrow> own_pipes (xs @ c' # ys) = own_pipes (xs @ c # ys)"
  by (simp add: own_pipes_def map_filter_append map_filter_simps)

lemma own_pipesD:
  "own_pipes (xs @ c # ys) \<Longrightarrow> c_pipe c = Some i \<Longrightarrow> d \<in> set xs \<union> set ys \<Longrightarrow> c_pipe d \<noteq> Some i"
  by (auto simp: own_pipes_def map_filter_append map_filter_simps in_map_filter)

lemma own_pipes_snoc:
  "own_pipes cs \<Longrightarrow> (\<forall>d \<in> set cs. c_pipe d = None \<or> c_pipe d \<noteq> c_pipe c) \<Longrightarrow> own_pipes (cs @ [c])"
  by (auto simp: own_pipes_def map_filter_append map_filter_simps in_map_filter split: option.split)

lemma child_ok_frame:
  assumes "child_ok hs s c" "parent_alive s' \<Longrightarrow> parent_alive s" "length (pipes s) \<le> length (pipes s')"
    and "\<And>i. c_pipe c = Some i \<Longrightarrow> i < length (pipes s) \<Longrightarrow> (i \<in> hs' \<longleftrightarrow> i \<in> hs) \<and> pipes s' ! i = pipes s ! i"
  shows "child_ok hs' s' c"
  unfolding child_ok_def
proof (intro allI impI)
  fix i
  assume i: "c_pipe c = Some i"
  with assms(1) have "i < length (pipes s)" by (simp add: child_ok_def)
  with assms i show "i < length (pipes s') \<and> (waits c \<longrightarrow> i \<in> c_rd c) \<and>
      (parent_alive s' \<longrightarrow> (i \<in> hs' \<longrightarrow> held_back c) \<and> (waits c \<longrightarrow> i \<in> hs' \<or> pipes s' ! i > 0))"
    by (auto simp: child_ok_def)
qed

lemma inv_start: "proc_inv [] no_processes"
  by (simp add: proc_inv_def no_processes_def own_pipes_def map_filter_simps)

lemma fork_parts:
  assumes "eciProcessForkAndWait po fo cmd s = (pw, s')"
  shows "pw_pipe pw = (if po then Some (length (pipes s)) else None)"
    and "pipes s' = pipes s @ (if po then [0] else [])" "parent_alive s' = parent_alive s"
    and "p_wr s' = p_wr s \<union> set_option (pw_pipe pw)"
    and "children s' = children s @ (if fo then [\<lparr>c_pipe = pw_pipe pw, c_argv = fork_argv cmd, c_pc = Forked,
           c_cleaned = False, c_rd = p_rd s \<union> set_option (pw_pipe pw), c_wr = p_wr s'\<rparr>] else [])"
  using assms by (auto simp: eciProcessForkAndWait_def Let_def split: if_splits)

lemma inv_fork:
  assumes inv: "proc_inv pws s" and alive: "parent_alive s" and fork: "eciProcessForkAndWait po fo cmd s = (pw, s')"
  shows "proc_inv (pws @ [pw]) s'"
proof -
  let ?k = "length (pipes s)" and ?hs = "set (held (pws @ [pw]))"
  note parts = fork_parts [OF fork]
  have old: "i < ?k" if "i \<in> set (held pws) \<or> (\<exists>d \<in> set (children s). c_pipe d = Some i)" for i
    using inv that by (auto simp: proc_inv_def handle_ok_def child_ok_def)
  have hs: "i \<in> ?hs \<longleftrightarrow> i \<in> set (held pws) \<or> po \<and> i = ?k" for i by (simp add: parts(1))
  have "distinct (held (pws @ [pw]))" using inv old [of ?k] by (auto simp: proc_inv_def parts(1))
  moreover have "handle_ok s' i" if "i \<in> ?hs" for i
    using that inv old [of i] alive unfolding hs
    by (auto simp: proc_inv_def handle_ok_def parts nth_append)
  moreover have "own_pipes (children s')"
  proof (cases fo)
    case True
    have "\<forall>d \<in> set (children s). c_pipe d = None \<or> c_pipe d \<noteq> pw_pipe pw"
      using old [of ?k] by (auto simp: parts(1))
    with inv True show ?thesis by (simp add: proc_inv_def parts(5) own_pipes_snoc)
  qed (use inv in \<open>simp add: proc_inv_def parts(5)\<close>)
  moreover have "child_ok ?hs s' c" if "c \<in> set (children s)" for c
  proof (rule child_ok_frame [of "set (held pws)" s])
    show "child_ok (set (held pws)) s c" using inv that by (simp add: proc_inv_def)
    show "(i \<in> ?hs \<longleftrightarrow> i \<in> set (held pws)) \<and> pipes s' ! i = pipes s ! i" if "i < ?k" for i
      unfolding hs using that by (simp add: parts(2) nth_append)
  qed (simp_all add: parts)
  moreover have "child_ok ?hs s' c" if "c \<in> set (children s')" "c \<notin> set (children s)" for c
    using that by (auto simp: parts child_ok_def held_back_def split: if_splits)
  ultimately show ?thesis by (auto simp: proc_inv_def)
qed

lemma inv_parent_ends: "proc_inv pws s \<Longrightarrow> proc_inv pws (parent_ends s)"
  by (auto simp: proc_inv_def parent_ends_def handle_ok_def child_ok_def)

lemma inv_sub: "proc_inv (pws1 @ pw # pws2) (parent_ends s) \<Longrightarrow> proc_inv (pws1 @ pws2) (parent_ends s)"
  by (auto simp: proc_inv_def parent_ends_def handle_ok_def child_ok_def split: option.splits)

lemma inv_continue:
  assumes "proc_inv (pws1 @ pw # pws2) s" "parent_alive s"
  shows "proc_inv (pws1 @ pws2) (eciPendingProcessContinue pw s)"
proof (cases "pw_pipe pw")
  case None
  with assms show ?thesis by (simp add: eciPendingProcessContinue_def proc_inv_def)
next
  case (Some i)
  show ?thesis
  proof (cases "has_reader i s")
    case False
    with Some inv_sub [OF inv_parent_ends [OF assms(1)]] show ?thesis by (simp add: eciPendingProcessContinue_def)
  next
    case True
    let ?s = "s\<lparr>pipes := (pipes s)[i := pipes s ! i + 1], p_wr := p_wr s - {i}\<rparr>"
    have i: "i \<notin> set (held pws1) \<union> set (held pws2)" "i < length (pipes s)"
      using assms(1) Some by (auto simp: proc_inv_def handle_ok_def)
    have "\<forall>k \<in> set (held (pws1 @ pws2)). handle_ok ?s k"
      using assms(1) Some i by (auto simp: proc_inv_def handle_ok_def nth_list_update)
    moreover have "\<forall>c \<in> set (children s). child_ok (set (held (pws1 @ pws2))) ?s c"
      using assms(1) Some i by (auto simp: proc_inv_def child_ok_def nth_list_update)
    ultimately show ?thesis using assms(1) Some True
      by (auto simp: proc_inv_def eciPendingProcessContinue_def)
  qed
qed


lemma ok_put_child [simp]:
  "handle_ok (put_child j c s) i = handle_ok s i" "child_ok hs (put_child j c s) d = child_ok hs s d"
  "has_writer i (s\<lparr>pipes := ps\<rparr>) = has_writer i s"
  by (simp_all add: handle_ok_def child_ok_def put_child_def has_writer_def)

text \<open>One child changes, and perhaps the pipes.\<close>

lemma inv_put_pipes:
  assumes "proc_inv pws s" "j < length (children s)" "c_pipe c' = c_pipe (children s ! j)" "children s1 = children s"
    and "\<And>i. i \<in> set (held pws) \<Longrightarrow> handle_ok s1 i" "child_ok (set (held pws)) s1 c'"
    and "\<And>d. d \<in> set (take j (children s)) \<union> set (drop (Suc j) (children s)) \<Longrightarrow> child_ok (set (held pws)) s1 d"
  shows "proc_inv pws (put_child j c' s1)"
proof -
  have split: "children s = take j (children s) @ children s ! j # drop (Suc j) (children s)"
    using assms(2) by (rule id_take_nth_drop)
  have upd: "(children s)[j := c'] = take j (children s) @ c' # drop (Suc j) (children s)"
    using assms(2) by (rule upd_conv_take_nth_drop)
  have "own_pipes (children (put_child j c' s1))"
    using assms(1,4) own_pipes_update [OF assms(3), of "take j (children s)" "drop (Suc j) (children s)"] split upd
    by (simp add: proc_inv_def put_child_def)
  moreover have "\<forall>d \<in> set (children (put_child j c' s1)). child_ok (set (held pws)) s1 d"
    using assms(4,6,7) upd by (auto simp: put_child_def)
  ultimately show ?thesis using assms(1,5) by (simp add: proc_inv_def)
qed

lemma inv_put:
  assumes "proc_inv pws s" "j < length (children s)" "c_pipe c' = c_pipe (children s ! j)"
    and "child_ok (set (held pws)) s c'"
  shows "proc_inv pws (put_child j c' s)"
  using assms by (intro inv_put_pipes [of pws s]) (auto simp: proc_inv_def dest: in_set_takeD in_set_dropD)

lemma inv_child_ends:
  assumes "proc_inv pws s" "j < length (children s)"
  shows "proc_inv pws (put_child j (child_ends status (children s ! j)) s)"
proof -
  have "child_ok (set (held pws)) s (children s ! j)" using assms by (simp add: proc_inv_def)
  then have "child_ok (set (held pws)) s (child_ends status (children s ! j))"
    by (auto simp: child_ok_def child_ends_def waits_def held_back_def)
  with assms show ?thesis by (intro inv_put) (simp_all add: child_ends_def)
qed

lemma inv_read:
  assumes inv: "proc_inv pws s" and j: "j < length (children s)"
    and rd: "read_pipe (c_pipe (children s ! j)) s = Some s1"
  shows "proc_inv pws (put_child j ((children s ! j)\<lparr>c_pc := Released\<rparr>) s1)"
proof -
  let ?c = "children s ! j" and ?c' = "(children s ! j)\<lparr>c_pc := Released\<rparr>"
  have ok: "child_ok (set (held pws)) s ?c" using inv j by (simp add: proc_inv_def)
  consider (none) "c_pipe ?c = None" "s1 = s"
    | (byte) i where "c_pipe ?c = Some i" "pipes s ! i > 0" "s1 = s\<lparr>pipes := (pipes s)[i := pipes s ! i - 1]\<rparr>"
    | (eof) i where "c_pipe ?c = Some i" "\<not> has_writer i s" "s1 = s"
    using rd by (auto simp: read_pipe_def split: option.splits if_splits)
  then show ?thesis
  proof cases
    case none
    with inv j show ?thesis by (auto intro!: inv_put simp: child_ok_def)
  next
    case (byte i)
    then have i: "i \<notin> set (held pws)" using inv by (auto simp: proc_inv_def handle_ok_def)
    show ?thesis
    proof (rule inv_put_pipes [OF inv j])
      show "handle_ok s1 k" if "k \<in> set (held pws)" for k
        using that inv i by (cases "k = i") (auto simp: proc_inv_def handle_ok_def byte(3))
      show "child_ok (set (held pws)) s1 ?c'"
        using ok byte(1) i by (auto simp: child_ok_def byte(3) waits_def)
      fix d
      assume d: "d \<in> set (take j (children s)) \<union> set (drop (Suc j) (children s))"
      have "own_pipes (take j (children s) @ ?c # drop (Suc j) (children s))"
        using inv id_take_nth_drop [OF j] by (simp add: proc_inv_def)
      from own_pipesD [OF this byte(1) d] have ne: "c_pipe d \<noteq> Some i" .
      have "d \<in> set (children s)" using d by (auto dest: in_set_takeD in_set_dropD)
      then have "child_ok (set (held pws)) s d" using inv by (simp add: proc_inv_def)
      then show "child_ok (set (held pws)) s1 d"
        by (rule child_ok_frame) (use ne in \<open>auto simp: byte(3) nth_list_update\<close>)
    qed (simp_all add: byte(3))
  next
    case (eof i)
    then have "parent_alive s \<longrightarrow> i \<notin> set (held pws)"
      using inv by (auto simp: proc_inv_def handle_ok_def has_writer_def)
    with inv j eof ok show ?thesis by (auto intro!: inv_put simp: child_ok_def waits_def)
  qed
qed

lemma inv_child:
  assumes inv: "proc_inv pws s" and step: "child_step j exec_ok s = Some s'"
  shows "proc_inv pws s'"
proof -
  let ?c = "children s ! j"
  from step have j: "j < length (children s)" by (simp add: child_step_def split: if_splits)
  have ok: "child_ok (set (held pws)) s ?c" using inv j by (simp add: proc_inv_def)
  show ?thesis
  proof (cases "c_pc ?c")
    case Forked
    have "child_ok (set (held pws)) s (?c\<lparr>c_pc := Waiting, c_wr := c_wr ?c - set_option (c_pipe ?c)\<rparr>)"
      using ok Forked by (auto simp: child_ok_def waits_def held_back_def)
    with step j inv Forked show ?thesis by (auto simp: child_step_def Let_def intro!: inv_put)
  next
    case Waiting
    with step j inv_read [OF inv j] show ?thesis by (auto simp: child_step_def Let_def)
  next
    case Execing
    have "child_ok (set (held pws)) s (if exec_ok then ?c\<lparr>c_pc := Replaced\<rparr> else child_ends (exit_status 999) ?c)"
      using ok Execing by (auto simp: child_ok_def waits_def held_back_def child_ends_def)
    with step j inv Execing show ?thesis by (auto simp: child_step_def Let_def child_ends_def intro!: inv_put)
  qed (use step j inv ok in \<open>auto simp: child_step_def Let_def child_ok_def waits_def held_back_def intro!: inv_put\<close>)
qed


lemma inv_step: "proc_step x y \<Longrightarrow> proc_inv (fst x) (snd x) \<Longrightarrow> proc_inv (fst y) (snd y)"
  by (cases rule: proc_step.cases)
    (auto intro: inv_fork inv_continue inv_child inv_child_ends inv_parent_ends)

lemma reachable_inv: "proc_reachable pws s \<Longrightarrow> proc_inv pws s"
  by (induction "(pws, s)" arbitrary: pws s rule: rtranclp_induct) (auto simp: inv_start dest!: inv_step)

text \<open>Handles name their children, and the command is run only after the clean-up.\<close>

definition handle_matches :: "system \<Rightarrow> ECIPendingProcess \<Rightarrow> bool" where
  "handle_matches s pw \<longleftrightarrow>
     (\<forall>j. pw_pid pw = Suc j \<longrightarrow> j < length (children s) \<and> c_pipe (children s ! j) = pw_pipe pw)"

definition cleaned_first :: "child \<Rightarrow> bool" where
  "cleaned_first c \<longleftrightarrow> (c_pc c \<in> {Execing, Replaced} \<longrightarrow> c_cleaned c)"

definition proc_names :: "ECIPendingProcess list \<Rightarrow> system \<Rightarrow> bool" where
  "proc_names pws s \<longleftrightarrow> (\<forall>pw \<in> set pws. handle_matches s pw) \<and> (\<forall>c \<in> set (children s). cleaned_first c)"

lemma names_put:
  assumes "proc_names pws s" "c_pipe c' = c_pipe (children s ! j)" "cleaned_first c'" "children s1 = children s"
  shows "proc_names pws (put_child j c' s1)"
proof -
  have "c_pipe ((children s)[j := c'] ! k) = c_pipe (children s ! k)" for k
    using assms(2) by (cases "k = j"; cases "j < length (children s)") (simp_all add: list_update_beyond)
  then show ?thesis
    using assms(1,3,4) set_update_subset_insert [of "children s" j c']
    by (auto simp: proc_names_def handle_matches_def put_child_def)
qed

lemma read_pipe_children: "read_pipe p s = Some s1 \<Longrightarrow> children s1 = children s"
  by (auto simp: read_pipe_def split: option.splits if_splits)

lemma names_child:
  assumes "proc_names pws s" "child_step j exec_ok s = Some s'"
  shows "proc_names pws s'"
proof -
  have j: "j < length (children s)" using assms(2) by (simp add: child_step_def split: if_splits)
  then have "cleaned_first (children s ! j)" using assms(1) by (simp add: proc_names_def)
  with assms j show ?thesis
    by (cases "c_pc (children s ! j)")
      (auto simp: child_step_def Let_def child_ends_def cleaned_first_def read_pipe_children intro!: names_put [of pws s])
qed

lemma names_fork:
  assumes "proc_names pws s" "eciProcessForkAndWait po fo cmd s = (pw, s')"
  shows "proc_names (pws @ [pw]) s'"
proof -
  have "pw_pid pw = (if fo then Suc (length (children s)) else 0)"
    using assms(2) by (auto simp: eciProcessForkAndWait_def Let_def split: if_splits)
  then show ?thesis
    using assms(1) fork_parts(5) [OF assms(2)]
    by (auto simp: proc_names_def handle_matches_def nth_append cleaned_first_def split: if_splits)
qed

lemma names_continue:
  assumes "proc_names (pws1 @ pw # pws2) s"
  shows "proc_names (pws1 @ pws2) (eciPendingProcessContinue pw s)"
proof -
  have "children (eciPendingProcessContinue pw s) = children s"
    by (simp add: eciPendingProcessContinue_def parent_ends_def split: option.split)
  with assms show ?thesis by (auto simp: proc_names_def handle_matches_def)
qed

lemma names_ends: "proc_names pws s \<Longrightarrow> proc_names pws (put_child j (child_ends status (children s ! j)) s)"
  "proc_names pws s \<Longrightarrow> proc_names pws (parent_ends s)"
  by (auto intro!: names_put [of pws s] simp: child_ends_def cleaned_first_def)
    (simp add: proc_names_def handle_matches_def parent_ends_def)

lemma names_step: "proc_step x y \<Longrightarrow> proc_names (fst x) (snd x) \<Longrightarrow> proc_names (fst y) (snd y)"
  by (cases rule: proc_step.cases) (auto intro: names_fork names_continue names_child names_ends)

lemma reachable_names: "proc_reachable pws s \<Longrightarrow> proc_names pws s"
  by (induction "(pws, s)" arbitrary: pws s rule: rtranclp_induct)
    (auto simp: proc_names_def no_processes_def dest!: names_step)

section \<open>Properties\<close>

text \<open>C14: a child waits until it is told to go on. In every interleaving of forks, continuations, child steps, and ends of
  processes, as long as the parent runs and has not passed a handle to \<open>eciPendingProcessContinue\<close>, the child
  of this handle has not gone past its \<open>read\<close>: it has neither cleaned up nor run its command, unless \<open>pipe\<close> had failed.\<close>

theorem child_waits_for_continue:
  assumes "proc_reachable pws s" "parent_alive s" "pw \<in> set pws" "pw_pipe pw = Some i" "pw_pid pw = Suc j"
  shows "j < length (children s) \<and> \<not> c_cleaned (children s ! j) \<and>
    c_pc (children s ! j) \<notin> {Released, Cleaning, Execing, Replaced}"
proof -
  have m: "j < length (children s)" "c_pipe (children s ! j) = Some i"
    using reachable_names [OF assms(1)] assms(3-5) by (auto simp: proc_names_def handle_matches_def)
  have "i \<in> set (held pws)" using assms(3,4) by (auto simp: held_def in_map_filter)
  then have "held_back (children s ! j)"
    using reachable_inv [OF assms(1)] assms(2) m by (auto simp: proc_inv_def child_ok_def)
  with m(1) show ?thesis by (simp add: held_back_def)
qed

fun child_rank :: "child_pc \<Rightarrow> nat" where
  "child_rank Forked = 5"
| "child_rank Waiting = 4"
| "child_rank Released = 3"
| "child_rank Cleaning = 2"
| "child_rank Execing = 1"
| "child_rank Replaced = 0"
| "child_rank (Gone _) = 0"

fun child_run :: "nat \<Rightarrow> nat \<Rightarrow> bool \<Rightarrow> system \<Rightarrow> system option" where
  "child_run 0 j exec_ok s = Some s"
| "child_run (Suc n) j exec_ok s =
     (case child_step j exec_ok s of None \<Rightarrow> None | Some s1 \<Rightarrow> child_run n j exec_ok s1)"

text \<open>A child whose handle has been given back is not blocked.\<close>

lemma child_not_blocked:
  assumes "proc_reachable pws s" "parent_alive s" "j < length (children s)" "c_pipe (children s ! j) = Some i"
    and "i \<notin> set (held pws)" "child_rank (c_pc (children s ! j)) = Suc n"
  shows "\<exists>s1. child_step j exec_ok s = Some s1 \<and> parent_alive s1 \<and> length (children s1) = length (children s) \<and>
    c_pipe (children s1 ! j) = Some i \<and> child_rank (c_pc (children s1 ! j)) = n \<and>
    (n = 0 \<longrightarrow> c_cleaned (children s1 ! j) \<and>
      c_pc (children s1 ! j) = (if exec_ok then Replaced else Gone (exit_status 999)))"
proof -
  let ?c = "children s ! j"
  have c: "?c \<in> set (children s)" using assms(3) by simp
  then have "child_ok (set (held pws)) s ?c" "cleaned_first ?c"
    using reachable_inv [OF assms(1)] reachable_names [OF assms(1)] by (simp_all add: proc_inv_def proc_names_def)
  with assms(2-6) show ?thesis
    by (cases "c_pc ?c")
      (auto simp: child_step_def Let_def put_child_def read_pipe_def child_ok_def waits_def cleaned_first_def child_ends_def)
qed

text \<open>C15: a child that has been told to go on does so. In every reachable state in which the parent runs and no longer
  holds the handle of a child that has not ended, nothing blocks this child: its own steps, at most five, take it through
  the clean-up to its command or, if there is no such command, to its exit.\<close>

theorem continued_child_runs:
  assumes "proc_reachable pws s" "parent_alive s" "j < length (children s)" "c_pipe (children s ! j) = Some i"
    and "i \<notin> set (held pws)" "child_rank (c_pc (children s ! j)) > 0"
  shows "\<exists>s'. child_run (child_rank (c_pc (children s ! j))) j exec_ok s = Some s' \<and> c_cleaned (children s' ! j) \<and>
    c_pc (children s' ! j) = (if exec_ok then Replaced else Gone (exit_status 999))"
proof -
  have "\<exists>s'. child_run (Suc n) j exec_ok s = Some s' \<and> c_cleaned (children s' ! j) \<and>
      c_pc (children s' ! j) = (if exec_ok then Replaced else Gone (exit_status 999))"
    if "proc_reachable pws s" "parent_alive s" "j < length (children s)" "c_pipe (children s ! j) = Some i"
      "child_rank (c_pc (children s ! j)) = Suc n" for n s
    using that
  proof (induction n arbitrary: s)
    case 0
    from child_not_blocked [OF 0(1-4) assms(5) 0(5), of exec_ok] show ?case by auto
  next
    case (Suc n)
    from child_not_blocked [OF Suc.prems(1-4) assms(5) Suc.prems(5), of exec_ok]
    obtain s1 where s1: "child_step j exec_ok s = Some s1" "parent_alive s1" "j < length (children s1)"
      "c_pipe (children s1 ! j) = Some i" "child_rank (c_pc (children s1 ! j)) = Suc n" using Suc.prems(3) by auto
    have "proc_reachable pws s1" using Suc.prems(1) proc_step.Child [OF s1(1)] by (rule rtranclp.rtrancl_into_rtrancl)
    from Suc.IH [OF this s1(2-5)] s1(1) show ?case by simp
  qed
  from this [OF assms(1-4)] assms(6) show ?thesis by (cases "child_rank (c_pc (children s ! j))") auto
qed


section \<open>Where the waiting fails\<close>

definition one_child :: "string \<Rightarrow> ECIPendingProcess \<times> system" where
  "one_child cmd = eciProcessForkAndWait True True cmd no_processes"

lemma one_child_reachable: "proc_reachable [fst (one_child cmd)] (snd (one_child cmd))"
proof -
  have "proc_step ([], no_processes) ([] @ [fst (one_child cmd)], snd (one_child cmd))"
    by (rule proc_step.Fork [of no_processes True True cmd]) (simp_all add: one_child_def no_processes_def)
  then show ?thesis by auto
qed

lemmas one_child_simps =
  one_child_def eciProcessForkAndWait_def no_processes_def eciPendingProcessContinue_def has_reader_def has_writer_def
  child_step_def put_child_def read_pipe_def parent_ends_def child_ends_def Let_def

text \<open>The header says that the process waits until \<open>eciPendingProcessContinue\<close> is called. The end of the parent
  releases it as well, because the end of the stream is not told from a byte.\<close>

lemma parent_end_releases:
  "\<exists>s'. child_run 5 0 True (parent_ends (snd (one_child cmd))) = Some s' \<and> c_pc (children s' ! 0) = Replaced"
  by (simp add: one_child_simps eval_nat_numeral)

text \<open>Continuing a process that has been killed in the meantime raises \<open>SIGPIPE\<close> in the parent.\<close>

lemma continue_of_dead_child:
  "\<not> parent_alive (eciPendingProcessContinue (fst (one_child cmd))
     (put_child 0 (child_ends 9 (children (snd (one_child cmd)) ! 0)) (snd (one_child cmd))))"
  by (simp add: one_child_simps)

text \<open>\<open>exit(999)\<close> arrives as 231, which \<open>eciExitWasAbnormal\<close> reports.\<close>

lemma failed_exec_is_abnormal: "eciExitWasAbnormal (exit_status 999) = 231"
  by (simp add: eciExitWasAbnormal_def exit_status_def WIFEXITED_def WEXITSTATUS_def)

section \<open>Witnesses\<close>

theorem child_waits_for_continue_witness:
  "proc_reachable [fst (one_child ''sleep 1'')] (snd (one_child ''sleep 1'')) \<and>
   \<not> c_cleaned (children (snd (one_child ''sleep 1'')) ! 0)"
  using child_waits_for_continue [OF one_child_reachable, of "''sleep 1''" "fst (one_child ''sleep 1'')" 0 0] one_child_reachable
  by (simp add: one_child_simps)

theorem continued_child_runs_witness:
  "\<exists>s'. child_run 5 0 True (eciPendingProcessContinue (fst (one_child ''sleep 1'')) (snd (one_child ''sleep 1''))) = Some s' \<and>
     c_cleaned (children s' ! 0) \<and> c_pc (children s' ! 0) = Replaced"
proof -
  let ?s = "eciPendingProcessContinue (fst (one_child ''sleep 1'')) (snd (one_child ''sleep 1''))"
  have "proc_step ([] @ fst (one_child ''sleep 1'') # [], snd (one_child ''sleep 1'')) ([] @ [], ?s)"
    by (rule proc_step.Continue) (simp add: one_child_simps)
  then have "proc_reachable [] ?s" using one_child_reachable [of "''sleep 1''"] by simp
  from continued_child_runs [OF this, of 0 0 True] show ?thesis by (simp add: one_child_simps)
qed

end
