(* ===== verification/Ucl_Api.thy ===== *)
theory Ucl_Api
  imports Eci_Prelude
begin

text \<open>
  The interface of libucl, the library of configuration objects that the RPC layer and the
  importer call. Its source is not part of the repository, so every definition that uses it
  takes the record \<open>ucl_api\<close> of its functions as an argument. The locale \<open>ucl_laws\<close> states what
  is relied on: the documented behaviour of constructors, accessors, lookup and insertion. The
  last section gives an instance, a tree of objects with a JSON printer and reader, on which the
  witnesses compute.
\<close>

section \<open>The functions\<close>

datatype ucl_type = UCL_OBJECT | UCL_ARRAY | UCL_INT | UCL_FLOAT | UCL_STRING | UCL_BOOLEAN | UCL_NULL

text \<open>
  A pointer that may be null is an option. \<open>ucl_keyed k o\<close> is the object \<open>o\<close> after it has been
  stored under key \<open>k\<close>, which libucl records in the object itself. \<open>ucl_parse\<close> is the
  combination of \<open>ucl_parser_add_string\<close>, \<open>ucl_parser_get_error\<close> and
  \<open>ucl_parser_get_object\<close>; \<open>None\<close> is an error.
\<close>

record 'o ucl_api =
  ucl_object_type :: "'o \<Rightarrow> ucl_type"
  ucl_object_key :: "'o \<Rightarrow> string option"
  ucl_object_lookup :: "'o \<Rightarrow> string \<Rightarrow> 'o option"
  ucl_object_toint :: "'o \<Rightarrow> int"
  ucl_object_tostring :: "'o \<Rightarrow> string option"
  ucl_object_toboolean :: "'o \<Rightarrow> bool"
  ucl_object_typed_new :: "ucl_type \<Rightarrow> 'o"
  ucl_object_fromint :: "int \<Rightarrow> 'o"
  ucl_object_fromstring :: "string \<Rightarrow> 'o"
  ucl_object_frombool :: "bool \<Rightarrow> 'o"
  ucl_object_insert_key :: "'o \<Rightarrow> 'o \<Rightarrow> string \<Rightarrow> 'o"
  ucl_keyed :: "string \<Rightarrow> 'o \<Rightarrow> 'o"
  ucl_iterate_object :: "'o \<Rightarrow> 'o list"
  ucl_object_emit :: "'o \<Rightarrow> string"
  ucl_parse :: "string \<Rightarrow> 'o option"

text \<open>The accessors on a pointer: a null pointer has no members and the integer value 0.\<close>

definition lookup_ptr :: "'o ucl_api \<Rightarrow> 'o option \<Rightarrow> string \<Rightarrow> 'o option" where
  "lookup_ptr u o' k = (case o' of None \<Rightarrow> None | Some x \<Rightarrow> ucl_object_lookup u x k)"

definition toint_ptr :: "'o ucl_api \<Rightarrow> 'o option \<Rightarrow> int" where
  "toint_ptr u o' = (case o' of None \<Rightarrow> 0 | Some x \<Rightarrow> ucl_object_toint u x)"

lemma ptr_simps [simp]:
  "lookup_ptr u None k = None" "lookup_ptr u (Some x) k = ucl_object_lookup u x k"
  "toint_ptr u None = 0" "toint_ptr u (Some x) = ucl_object_toint u x"
  by (simp_all add: lookup_ptr_def toint_ptr_def)

section \<open>What the callers rely on\<close>

locale ucl_laws =
  fixes u :: "'o ucl_api"
  assumes type_new: "ucl_object_type u (ucl_object_typed_new u t) = t"
    and type_int: "ucl_object_type u (ucl_object_fromint u i) = UCL_INT"
    and type_string: "ucl_object_type u (ucl_object_fromstring u s) = UCL_STRING"
    and type_bool: "ucl_object_type u (ucl_object_frombool u b) = UCL_BOOLEAN"
    and toint_fromint: "- (2 ^ 63) \<le> i \<Longrightarrow> i < 2 ^ 63 \<Longrightarrow> ucl_object_toint u (ucl_object_fromint u i) = i"
    and tostring_fromstring: "CHR 0x00 \<notin> set s \<Longrightarrow> ucl_object_tostring u (ucl_object_fromstring u s) = Some s"
    and tostring_string: "ucl_object_type u x = UCL_STRING \<Longrightarrow> ucl_object_tostring u x \<noteq> None"
    and toboolean_frombool: "ucl_object_toboolean u (ucl_object_frombool u b) = b"
    and lookup_new: "ucl_object_lookup u (ucl_object_typed_new u t) k = None"
    and lookup_not_object: "ucl_object_type u x \<noteq> UCL_OBJECT \<Longrightarrow> ucl_object_lookup u x k = None"
    and type_insert: "ucl_object_type u x = UCL_OBJECT \<Longrightarrow>
        ucl_object_type u (ucl_object_insert_key u x y k) = UCL_OBJECT"
    and lookup_insert: "ucl_object_type u x = UCL_OBJECT \<Longrightarrow> ucl_object_lookup u x k = None \<Longrightarrow>
        ucl_object_lookup u (ucl_object_insert_key u x y k) k' =
          (if k' = k then Some (ucl_keyed u k y) else ucl_object_lookup u x k')"
    and keyed_type: "ucl_object_type u (ucl_keyed u k x) = ucl_object_type u x"
    and keyed_lookup: "ucl_object_lookup u (ucl_keyed u k x) k' = ucl_object_lookup u x k'"
    and keyed_toint: "ucl_object_toint u (ucl_keyed u k x) = ucl_object_toint u x"
    and keyed_tostring: "ucl_object_tostring u (ucl_keyed u k x) = ucl_object_tostring u x"
    and keyed_toboolean: "ucl_object_toboolean u (ucl_keyed u k x) = ucl_object_toboolean u x"
begin

lemmas type_laws = type_new type_int type_string type_bool type_insert keyed_type
lemmas lookup_laws = lookup_new lookup_insert keyed_lookup
lemmas value_laws = toint_fromint tostring_fromstring toboolean_frombool keyed_toint keyed_tostring keyed_toboolean

end

section \<open>An instance\<close>

datatype utree = UNode (ut_key: "string option") (ut_val: uval)
  and uval = UObj "utree list" | UArr "utree list" | UInt int | UStr string | UBool bool | UFloat string | UNull

definition ut_type :: "utree \<Rightarrow> ucl_type" where
  "ut_type t = (case ut_val t of
     UObj _ \<Rightarrow> UCL_OBJECT | UArr _ \<Rightarrow> UCL_ARRAY | UInt _ \<Rightarrow> UCL_INT | UStr _ \<Rightarrow> UCL_STRING
   | UBool _ \<Rightarrow> UCL_BOOLEAN | UFloat _ \<Rightarrow> UCL_FLOAT | UNull \<Rightarrow> UCL_NULL)"

definition ut_lookup :: "utree \<Rightarrow> string \<Rightarrow> utree option" where
  "ut_lookup t k = (case ut_val t of UObj ts \<Rightarrow> find (\<lambda>c. ut_key c = Some k) ts | _ \<Rightarrow> None)"

definition ut_keyed :: "string \<Rightarrow> utree \<Rightarrow> utree" where
  "ut_keyed k t = UNode (Some k) (ut_val t)"

definition ut_insert :: "utree \<Rightarrow> utree \<Rightarrow> string \<Rightarrow> utree" where
  "ut_insert t x k = (case ut_val t of UObj ts \<Rightarrow> UNode (ut_key t) (UObj (ts @ [ut_keyed k x])) | _ \<Rightarrow> t)"

definition ut_new :: "ucl_type \<Rightarrow> utree" where
  "ut_new ty = UNode None (case ty of
     UCL_OBJECT \<Rightarrow> UObj [] | UCL_ARRAY \<Rightarrow> UArr [] | UCL_INT \<Rightarrow> UInt 0 | UCL_FLOAT \<Rightarrow> UFloat ''0'' | UCL_STRING \<Rightarrow> UStr []
   | UCL_BOOLEAN \<Rightarrow> UBool False | UCL_NULL \<Rightarrow> UNull)"

text \<open>Printing and reading compact JSON.\<close>

definition quote_json :: "string \<Rightarrow> string" where
  "quote_json s = [CHR 0x22] @ concat (map (\<lambda>c. if c \<in> {CHR 0x22, CHR 0x5C} then [CHR 0x5C, c] else [c]) s) @ [CHR 0x22]"

fun commas :: "string list \<Rightarrow> string" where
  "commas [] = []"
| "commas [x] = x"
| "commas (x # y # xs) = x @ '','' @ commas (y # xs)"

fun json_val :: "uval \<Rightarrow> string" and json_node :: "utree \<Rightarrow> string" where
  "json_val (UObj ts) = ''{'' @ commas (map json_node ts) @ ''}''"
| "json_val (UArr ts) = ''['' @ commas (map json_node ts) @ '']''"
| "json_val (UInt i) = show_int i"
| "json_val (UStr s) = quote_json s"
| "json_val (UBool b) = (if b then ''true'' else ''false'')"
| "json_val (UFloat s) = s"
| "json_val UNull = ''null''"
| "json_node (UNode k v) = (case k of Some s \<Rightarrow> quote_json s @ '':'' @ json_val v | None \<Rightarrow> json_val v)"

text \<open>The reader takes fuel; the length of the text is enough.\<close>

fun read_str :: "string \<Rightarrow> string \<Rightarrow> (string \<times> string) option" where
  "read_str acc [] = None"
| "read_str acc (c # cs) =
     (if c = CHR 0x22 then Some (rev acc, cs)
      else if c = CHR 0x5C then (case cs of [] \<Rightarrow> None | d # ds \<Rightarrow> read_str (d # acc) ds)
      else read_str (c # acc) cs)"

fun read_digits :: "nat \<Rightarrow> string \<Rightarrow> nat \<times> string" where
  "read_digits acc [] = (acc, [])"
| "read_digits acc (c # cs) =
     (case find_index (\<lambda>d. d = c) ''0123456789'' of
        Some d \<Rightarrow> read_digits (10 * acc + d) cs
      | None \<Rightarrow> (acc, c # cs))"

fun read_val :: "nat \<Rightarrow> string \<Rightarrow> (uval \<times> string) option"
and read_members :: "nat \<Rightarrow> utree list \<Rightarrow> string \<Rightarrow> (uval \<times> string) option" where
  "read_val 0 s = None"
| "read_val (Suc n) [] = None"
| "read_val (Suc n) (c # cs) =
     (if c = CHR ''{'' then
        (case cs of [] \<Rightarrow> None | d # ds \<Rightarrow> if d = CHR ''}'' then Some (UObj [], ds) else read_members n [] cs)
      else if c = CHR 0x22 then map_option (\<lambda>(s, r). (UStr s, r)) (read_str [] cs)
      else if c = CHR ''-'' then (let (m, r) = read_digits 0 cs in Some (UInt (- int m), r))
      else if take 4 (c # cs) = ''true'' then Some (UBool True, drop 4 (c # cs))
      else if take 5 (c # cs) = ''false'' then Some (UBool False, drop 5 (c # cs))
      else if take 4 (c # cs) = ''null'' then Some (UNull, drop 4 (c # cs))
      else if c \<in> set ''0123456789'' then (let (m, r) = read_digits 0 (c # cs) in Some (UInt (int m), r))
      else None)"
| "read_members 0 ts s = None"
| "read_members (Suc n) ts s =
     (case s of
        [] \<Rightarrow> None
      | q # s1 \<Rightarrow>
          (if q \<noteq> CHR 0x22 then None else
           case read_str [] s1 of
             None \<Rightarrow> None
           | Some (k, s2) \<Rightarrow>
               (if take 1 s2 \<noteq> '':'' then None else
                case read_val n (drop 1 s2) of
                  None \<Rightarrow> None
                | Some (v, s3) \<Rightarrow>
                    (case s3 of
                       [] \<Rightarrow> None
                     | d # s4 \<Rightarrow>
                         (if d = CHR ''}'' then Some (UObj (ts @ [UNode (Some k) v]), s4)
                          else if d = CHR '','' then read_members n (ts @ [UNode (Some k) v]) s4
                          else None)))))"

definition ut_parse :: "string \<Rightarrow> utree option" where
  "ut_parse s = (case read_val (length s + 1) s of Some (v, []) \<Rightarrow> Some (UNode None v) | _ \<Rightarrow> None)"

definition tree_ucl :: "utree ucl_api" where
  "tree_ucl =
     \<lparr>ucl_object_type = ut_type,
      ucl_object_key = ut_key,
      ucl_object_lookup = ut_lookup,
      ucl_object_toint = (\<lambda>t. case ut_val t of UInt i \<Rightarrow> i | _ \<Rightarrow> 0),
      ucl_object_tostring = (\<lambda>t. case ut_val t of UStr s \<Rightarrow> Some s | _ \<Rightarrow> None),
      ucl_object_toboolean = (\<lambda>t. case ut_val t of UBool b \<Rightarrow> b | _ \<Rightarrow> False),
      ucl_object_typed_new = ut_new,
      ucl_object_fromint = (\<lambda>i. UNode None (UInt i)),
      ucl_object_fromstring = (\<lambda>s. UNode None (UStr s)),
      ucl_object_frombool = (\<lambda>b. UNode None (UBool b)),
      ucl_object_insert_key = ut_insert,
      ucl_keyed = ut_keyed,
      ucl_iterate_object = (\<lambda>t. case ut_val t of UObj ts \<Rightarrow> ts | UArr ts \<Rightarrow> ts | _ \<Rightarrow> [t]),
      ucl_object_emit = (\<lambda>t. json_val (ut_val t)),
      ucl_parse = ut_parse\<rparr>"

interpretation tree: ucl_laws tree_ucl
proof unfold_locales
  fix x y :: utree and k k' :: string
  show "ucl_object_lookup tree_ucl (ucl_object_insert_key tree_ucl x y k) k' =
      (if k' = k then Some (ucl_keyed tree_ucl k y) else ucl_object_lookup tree_ucl x k')"
    if "ucl_object_type tree_ucl x = UCL_OBJECT" "ucl_object_lookup tree_ucl x k = None"
    using that
    by (auto simp: tree_ucl_def ut_type_def ut_lookup_def ut_insert_def ut_keyed_def find_append split: uval.splits option.splits)
qed (auto simp: tree_ucl_def ut_type_def ut_new_def ut_lookup_def ut_insert_def ut_keyed_def split: uval.splits ucl_type.splits)

end
