(* ===== verification/Wsrpc.thy ===== *)
theory Wsrpc
  imports Ucl_Api
begin

text \<open>
  The RPC layer of \<^verbatim>\<open>lib/eci/WSRPC.cc\<close> and \<^verbatim>\<open>hdr/eci/WSRPC.hh\<close>: classification of messages,
  framing, the transport with its completions, dispatch of requests to services, synchronous
  waiting, and the listener.

  \<^item> Objects are values of the parameter \<open>u\<close>, the libucl interface. Reference counts are
    the subject of a theory of their own.
  \<^item> Sockets, \<open>poll\<close>, \<open>rand\<close>, the request handlers of services and the delegates of completions
    are functions of the environment record \<open>rpc_env\<close>, over an arbitrary world.
  \<^item> Completions live in a store, \<open>comps\<close>; a pointer to one is its index.
  \<^item> A run ends normally (\<open>Done\<close>), in a failed assertion (\<open>Aborted\<close>), or has used up its fuel
    (\<open>Unfinished\<close>): handlers may add services while a request is dispatched, and
    \<open>awaitReply\<close> retries.
  \<^item> Undefined behaviour is logged in \<open>x_faults\<close>. Console output is not modelled.
\<close>

section \<open>Data\<close>

datatype 'a rpc_run = Done 'a | Aborted string | Unfinished

record WSRPCError =
  errcode :: int
  errmsg :: string

abbreviation (input) kSuccess :: int where "kSuccess \<equiv> 0"
abbreviation (input) kError :: int where "kError \<equiv> 1"
abbreviation (input) kWSREMethodNotFound :: int where "kWSREMethodNotFound \<equiv> -32601"
abbreviation (input) kInvalidParameters :: int where "kInvalidParameters \<equiv> -32602"
abbreviation (input) kReplyTimeout :: int where "kReplyTimeout \<equiv> -32500"

definition no_error :: WSRPCError where
  "no_error = \<lparr>errcode = kSuccess, errmsg = []\<rparr>"

definition invalidParams :: WSRPCError where
  "invalidParams = \<lparr>errcode = kInvalidParameters, errmsg = ''Invalid method parameter(s).''\<rparr>"

record 'o WSRPCReq =
  rq_id :: int
  method_name :: string
  params :: "'o option"
  rq_result :: "'o option"
  rq_err :: WSRPCError

record ('o, 'd) WSRPCCompletion =
  c_id :: int
  c_delegate :: "'d option"
  c_err :: WSRPCError
  c_result :: "'o option"

record ('o, 'v, 'd) WSRPCTransport =
  svcs :: "'v list option"
  completions :: "nat list"
  ownSvcs :: bool
  curMsgLen :: int
  curMsgOff :: int
  curMsgBuf :: "string option"
  received :: "'o list"
  x_fd :: int
  comps :: "('o, 'd) WSRPCCompletion list"
  x_faults :: "fault list"

record ('o, 'v, 'd, 'w) rpc_env =
  fnReqHandler :: "'v \<Rightarrow> 'o WSRPCReq \<Rightarrow> ('o, 'v, 'd) WSRPCTransport \<times> 'w
      \<Rightarrow> int \<times> 'o WSRPCReq \<times> ('o, 'v, 'd) WSRPCTransport \<times> 'w"
  fnDelegateInvoker :: "'d \<Rightarrow> nat \<Rightarrow> ('o, 'v, 'd) WSRPCTransport \<times> 'w \<Rightarrow> ('o, 'v, 'd) WSRPCTransport \<times> 'w"
  sys_write :: "int \<Rightarrow> string \<Rightarrow> 'w \<Rightarrow> int \<times> 'w"
  sys_recv :: "int \<Rightarrow> nat \<Rightarrow> 'w \<Rightarrow> (int \<times> string) \<times> 'w"
  sys_poll :: "int \<Rightarrow> int \<Rightarrow> 'w \<Rightarrow> (int \<times> int) \<times> 'w"
  sys_rand :: "'w \<Rightarrow> int \<times> 'w"
  heap_byte :: char

definition x_fault :: "fault \<Rightarrow> ('o, 'v, 'd) WSRPCTransport \<Rightarrow> ('o, 'v, 'd) WSRPCTransport" where
  "x_fault f x = x\<lparr>x_faults := x_faults x @ [f]\<rparr>"

section \<open>Messages\<close>

text \<open>
  \<open>parseMessage\<close> reads the buffer up to the first NUL, beyond its end if there is none.
\<close>

definition c_string :: "string \<Rightarrow> string" where
  "c_string b = takeWhile (\<lambda>c. c \<noteq> CHR 0x00) b"

definition parseMessage ::
  "'o ucl_api \<Rightarrow> ('o, 'v, 'd) WSRPCTransport \<Rightarrow> 'o option \<times> ('o, 'v, 'd) WSRPCTransport" where
  "parseMessage u x =
     (case curMsgBuf x of
        None \<Rightarrow> (None, x_fault (NullString ''parseMessage'') x)
      | Some message \<Rightarrow>
          (ucl_parse u (c_string message),
           if CHR 0x00 \<in> set message then x
           else x_fault (OutOfBounds ''curMsgBuf'' (int (length message))) x))"

definition uclObjIsRequest :: "'o ucl_api \<Rightarrow> 'o \<Rightarrow> bool" where
  "uclObjIsRequest u obj =
     (if ucl_object_type u obj \<noteq> UCL_OBJECT then False
      else case ucl_object_lookup u obj ''method'' of
             None \<Rightarrow> False
           | Some method_o \<Rightarrow>
               if ucl_object_type u method_o \<noteq> UCL_STRING then False
               else case ucl_object_lookup u obj ''params'' of
                      None \<Rightarrow> True
                    | Some params_o \<Rightarrow> ucl_object_type u params_o = UCL_OBJECT)"

definition uclObjIsResponseForId :: "'o ucl_api \<Rightarrow> 'o \<Rightarrow> int" where
  "uclObjIsResponseForId u obj =
     (let id_o = ucl_object_lookup u obj ''id'';
          error_o = ucl_object_lookup u obj ''error'';
          result_o = ucl_object_lookup u obj ''result''
      in if ucl_object_type u obj \<noteq> UCL_OBJECT then 0
         else case id_o of
                None \<Rightarrow> 0
              | Some i \<Rightarrow>
                  if ucl_object_type u i \<noteq> UCL_INT then 0
                  else if result_o \<noteq> None \<and> error_o \<noteq> None then 0
                  else if result_o \<noteq> None \<or> error_o \<noteq> None then int32 (ucl_object_toint u i)
                  else 0)"

definition makeError :: "'o ucl_api \<Rightarrow> int \<Rightarrow> string \<Rightarrow> 'o" where
  "makeError u code message =
     (let uerr = ucl_object_typed_new u UCL_OBJECT;
          uerr = ucl_object_insert_key u uerr (ucl_object_fromint u code) ''code'';
          uerr = ucl_object_insert_key u uerr (ucl_object_fromstring u message) ''message''
      in uerr)"

text \<open>
  \<open>uclToError\<close>: a message that is not a string makes \<open>ucl_object_tostring\<close> return a null pointer,
  from which no \<open>std::string\<close> can be made.
\<close>

definition uclToError :: "'o ucl_api \<Rightarrow> 'o option \<Rightarrow> WSRPCError \<times> fault list" where
  "uclToError u error =
     (let code = lookup_ptr u error ''code'';
          message = lookup_ptr u error ''message''
      in case message of
           None \<Rightarrow> (\<lparr>errcode = int32 (toint_ptr u code), errmsg = []\<rparr>, [])
         | Some m \<Rightarrow>
             (case ucl_object_tostring u m of
                Some s \<Rightarrow> (\<lparr>errcode = int32 (toint_ptr u code), errmsg = s\<rparr>, [])
              | None \<Rightarrow> (\<lparr>errcode = int32 (toint_ptr u code), errmsg = []\<rparr>, [NullString ''uclToError''])))"

section \<open>Framing\<close>

text \<open>An \<open>int32_t\<close> in the byte order of the host, which is little-endian.\<close>

definition le32 :: "int \<Rightarrow> string" where
  "le32 n = map (\<lambda>i. char_of (nat (n div 256 ^ i mod 256))) [0, 1, 2, 3]"

definition of_le32 :: "string \<Rightarrow> int" where
  "of_le32 s = int32 (\<Sum>i\<leftarrow>[0, 1, 2, 3]. int (of_char (s ! i)) * 256 ^ i)"

text \<open>\<open>writeObj\<close> returns true also when a write failed.\<close>

definition writeObj ::
  "'o ucl_api \<Rightarrow> ('o, 'v, 'd, 'w) rpc_env \<Rightarrow> 'o \<Rightarrow> ('o, 'v, 'd) WSRPCTransport \<times> 'w
     \<Rightarrow> bool \<times> ('o, 'v, 'd) WSRPCTransport \<times> 'w" where
  "writeObj u e obj s =
     (let (x, w) = s;
          txt = ucl_object_emit u obj;
          len = int32 (int (length txt) + 1);
          (r1, w1) = sys_write e (x_fd x) (le32 len) w
      in if r1 = -1 then (True, x, w1)
         else (let (r2, w2) = sys_write e (x_fd x) (txt @ [CHR 0x00]) w1
               in (True, x, w2)))"

text \<open>
  \<open>recv\<close> into the message buffer. The destination is the start of the buffer, whatever has been
  received before.
\<close>

definition recv_into ::
  "('o, 'v, 'd, 'w) rpc_env \<Rightarrow> nat \<Rightarrow> ('o, 'v, 'd) WSRPCTransport \<times> 'w
     \<Rightarrow> int \<times> ('o, 'v, 'd) WSRPCTransport \<times> 'w" where
  "recv_into e n s =
     (let (x, w) = s
      in case curMsgBuf x of
           None \<Rightarrow> (-1, x, w)
         | Some b \<Rightarrow>
             (let ((r, bs), w1) = sys_recv e (x_fd x) n w
              in if length bs \<le> length b
                 then (r, x\<lparr>curMsgBuf := Some (bs @ drop (length bs) b)\<rparr>, w1)
                 else (r, x_fault (OutOfBounds ''curMsgBuf'' (int (length bs)))
                            (x\<lparr>curMsgBuf := Some (take (length b) bs)\<rparr>), w1)))"

text \<open>
  \<open>doRecv\<close>. The number of bytes asked for is converted to \<open>size_t\<close>; a negative length cannot be
  allocated.
\<close>

definition doRecv ::
  "('o, 'v, 'd, 'w) rpc_env \<Rightarrow> ('o, 'v, 'd) WSRPCTransport \<times> 'w
     \<Rightarrow> (bool \<times> ('o, 'v, 'd) WSRPCTransport \<times> 'w) rpc_run" where
  "doRecv e s =
     (let body = (\<lambda>(x, w).
            let len_to_recv = nat ((curMsgLen x - curMsgOff x) mod 2 ^ 64);
                (r, x1, w1) = recv_into e len_to_recv (x, w);
                x2 = x1\<lparr>curMsgOff := int32 (curMsgOff x1 + r)\<rparr>
            in if curMsgLen x2 \<noteq> 0 \<and> curMsgOff x2 = curMsgLen x2
               then Done (True, x2\<lparr>curMsgLen := 0\<rparr>, w1)
               else Done (False, x2, w1))
      in if curMsgLen (fst s) = 0 then
           (let ((r, bs), w1) = sys_recv e (x_fd (fst s)) 4 (snd s)
            in if r \<noteq> 4 then Aborted ''len == 4''
               else (let len = of_le32 bs
                     in body ((fst s)\<lparr>curMsgLen := len,
                          curMsgBuf := (if len < 0 then None else Some (replicate (nat len) (heap_byte e))),
                          curMsgOff := 0\<rparr>, w1)))
         else body s)"

section \<open>Serialisation of the basic types\<close>

definition wsRPCSerialisevoid :: "'o ucl_api \<Rightarrow> 'o" where
  "wsRPCSerialisevoid u = ucl_object_typed_new u UCL_NULL"

definition wsRPCSerialisebool :: "'o ucl_api \<Rightarrow> bool \<Rightarrow> 'o" where
  "wsRPCSerialisebool u b = ucl_object_frombool u b"

definition wsRPCSerialiseint :: "'o ucl_api \<Rightarrow> int \<Rightarrow> 'o" where
  "wsRPCSerialiseint u i = ucl_object_fromint u i"

definition wsRPCSerialisestring :: "'o ucl_api \<Rightarrow> string \<Rightarrow> 'o" where
  "wsRPCSerialisestring u s = ucl_object_fromstring u (c_string s)"

text \<open>The result is \<open>None\<close> where the code returns false, else the value stored in \<open>*out\<close>.\<close>

definition wsRPCDeserialisevoid :: "'o ucl_api \<Rightarrow> 'o \<Rightarrow> unit option" where
  "wsRPCDeserialisevoid u obj = (if ucl_object_type u obj \<noteq> UCL_NULL then None else Some ())"

definition wsRPCDeserialisebool :: "'o ucl_api \<Rightarrow> 'o \<Rightarrow> bool option" where
  "wsRPCDeserialisebool u obj =
     (if ucl_object_type u obj \<noteq> UCL_BOOLEAN then None else Some (ucl_object_toboolean u obj))"

definition wsRPCDeserialiseint :: "'o ucl_api \<Rightarrow> 'o \<Rightarrow> int option" where
  "wsRPCDeserialiseint u obj =
     (if ucl_object_type u obj \<noteq> UCL_INT then None else Some (int32 (ucl_object_toint u obj)))"

definition wsRPCDeserialisestring :: "'o ucl_api \<Rightarrow> 'o \<Rightarrow> string option" where
  "wsRPCDeserialisestring u obj =
     (if ucl_object_type u obj \<noteq> UCL_STRING then None else ucl_object_tostring u obj)"

section \<open>Sending\<close>

definition error_obj :: "'o ucl_api \<Rightarrow> int \<Rightarrow> WSRPCError \<Rightarrow> 'o" where
  "error_obj u ident err =
     (let response = ucl_object_typed_new u UCL_OBJECT;
          response = ucl_object_insert_key u response (ucl_object_fromstring u ''2.0'') ''jsonrpc'';
          response = ucl_object_insert_key u response (makeError u (errcode err) (c_string (errmsg err))) ''error'';
          response = ucl_object_insert_key u response (ucl_object_fromint u ident) ''id''
      in response)"

definition sendError ::
  "'o ucl_api \<Rightarrow> ('o, 'v, 'd, 'w) rpc_env \<Rightarrow> int \<Rightarrow> WSRPCError \<Rightarrow> ('o, 'v, 'd) WSRPCTransport \<times> 'w
     \<Rightarrow> ('o, 'v, 'd) WSRPCTransport \<times> 'w" where
  "sendError u e ident err s = (if ident = 0 then s else snd (writeObj u e (error_obj u ident err) s))"

definition reply_obj :: "'o ucl_api \<Rightarrow> int \<Rightarrow> 'o option \<Rightarrow> 'o" where
  "reply_obj u ident obj =
     (let response = ucl_object_typed_new u UCL_OBJECT;
          response = ucl_object_insert_key u response (ucl_object_fromstring u ''2.0'') ''jsonrpc'';
          response = ucl_object_insert_key u response
            (case obj of Some r \<Rightarrow> r | None \<Rightarrow> ucl_object_typed_new u UCL_NULL) ''result'';
          response = ucl_object_insert_key u response (ucl_object_fromint u ident) ''id''
      in response)"

definition sendReply ::
  "'o ucl_api \<Rightarrow> ('o, 'v, 'd, 'w) rpc_env \<Rightarrow> int \<Rightarrow> 'o option \<Rightarrow> ('o, 'v, 'd) WSRPCTransport \<times> 'w
     \<Rightarrow> ('o, 'v, 'd) WSRPCTransport \<times> 'w" where
  "sendReply u e ident obj s = snd (writeObj u e (reply_obj u ident obj) s)"

definition request_obj :: "'o ucl_api \<Rightarrow> string \<Rightarrow> 'o \<Rightarrow> int \<Rightarrow> 'o" where
  "request_obj u method prms ident =
     (let msg = ucl_object_typed_new u UCL_OBJECT;
          msg = ucl_object_insert_key u msg (ucl_object_fromstring u ''2.0'') ''jsonrpc'';
          msg = ucl_object_insert_key u msg (ucl_object_fromstring u (c_string method)) ''method'';
          msg = ucl_object_insert_key u msg prms ''params'';
          msg = ucl_object_insert_key u msg (ucl_object_fromint u ident) ''id''
      in msg)"

text \<open>
  \<open>sendMessage\<close> returns the reference of the new completion. A delegate comes with its invoker,
  as the assertion demands; the completion is registered only if there is one.
\<close>

definition sendMessage ::
  "'o ucl_api \<Rightarrow> ('o, 'v, 'd, 'w) rpc_env \<Rightarrow> string \<Rightarrow> 'o \<Rightarrow> 'd option \<Rightarrow> ('o, 'v, 'd) WSRPCTransport \<times> 'w
     \<Rightarrow> nat \<times> ('o, 'v, 'd) WSRPCTransport \<times> 'w" where
  "sendMessage u e method prms delegate s =
     (let (x, w) = s;
          (ident, w1) = sys_rand e w;
          cref = length (comps x);
          x1 = x\<lparr>comps := comps x @ [\<lparr>c_id = ident, c_delegate = None, c_err = no_error, c_result = None\<rparr>]\<rparr>;
          (ok, x2, w2) = writeObj u e (request_obj u method prms ident) (x1, w1);
          x3 = x2\<lparr>comps := (comps x2)[cref := (comps x2 ! cref)\<lparr>c_delegate := delegate\<rparr>]\<rparr>;
          x4 = (if delegate \<noteq> None then x3\<lparr>completions := completions x3 @ [cref]\<rparr> else x3)
      in (cref, x4, w2))"

section \<open>Receiving\<close>

definition update_comp ::
  "nat \<Rightarrow> (('o, 'd) WSRPCCompletion \<Rightarrow> ('o, 'd) WSRPCCompletion) \<Rightarrow> ('o, 'v, 'd) WSRPCTransport
     \<Rightarrow> ('o, 'v, 'd) WSRPCTransport" where
  "update_comp c f x = x\<lparr>comps := (comps x)[c := f (comps x ! c)]\<rparr>"

definition completeWith ::
  "'o ucl_api \<Rightarrow> ('o, 'v, 'd, 'w) rpc_env \<Rightarrow> nat \<Rightarrow> 'o \<Rightarrow> ('o, 'v, 'd) WSRPCTransport \<times> 'w
     \<Rightarrow> ('o, 'v, 'd) WSRPCTransport \<times> 'w" where
  "completeWith u e cref obj s =
     (let (x, w) = s;
          x1 = (case ucl_object_lookup u obj ''result'' of
                  Some result_o \<Rightarrow> update_comp cref (\<lambda>c. c\<lparr>c_err := no_error, c_result := Some result_o\<rparr>) x
                | None \<Rightarrow>
                    (let (err, fs) = uclToError u (ucl_object_lookup u obj ''error'')
                     in (update_comp cref (\<lambda>c. c\<lparr>c_err := err\<rparr>) x)\<lparr>x_faults := x_faults x @ fs\<rparr>))
      in case c_delegate (comps x1 ! cref) of
           None \<Rightarrow> (x1, w)
         | Some d \<Rightarrow> fnDelegateInvoker e d cref (x1, w))"

text \<open>The loop over the services, from position \<open>k\<close> on; \<open>None\<close> if no service has taken the request.\<close>

fun run_services ::
  "('o, 'v, 'd, 'w) rpc_env \<Rightarrow> nat \<Rightarrow> nat \<Rightarrow> 'o WSRPCReq \<Rightarrow> ('o, 'v, 'd) WSRPCTransport \<times> 'w
     \<Rightarrow> (int option \<times> 'o WSRPCReq \<times> ('o, 'v, 'd) WSRPCTransport \<times> 'w) rpc_run" where
  "run_services e 0 k req s = Unfinished"
| "run_services e (Suc n) k req s =
     (case svcs (fst s) of
        None \<Rightarrow> Done (None, req, s)
      | Some l \<Rightarrow>
          if k < length l then
            (let (res, req1, s1) = fnReqHandler e (l ! k) req s
             in if res = -1 then run_services e n (Suc k) req1 s1
                else Done (Some res, req1, s1))
          else Done (None, req, s))"

definition method_not_found :: WSRPCError where
  "method_not_found = \<lparr>errcode = kWSREMethodNotFound, errmsg = ''The method does not exist / is not available.''\<rparr>"

definition processMessage ::
  "'o ucl_api \<Rightarrow> ('o, 'v, 'd, 'w) rpc_env \<Rightarrow> nat \<Rightarrow> 'o \<Rightarrow> ('o, 'v, 'd) WSRPCTransport \<times> 'w
     \<Rightarrow> (('o, 'v, 'd) WSRPCTransport \<times> 'w) rpc_run" where
  "processMessage u e n obj s =
     (let resp = uclObjIsResponseForId u obj
      in if resp \<noteq> 0 then
           (case find (\<lambda>c. resp = c_id (comps (fst s) ! c)) (completions (fst s)) of
              Some cref \<Rightarrow> Done (completeWith u e cref obj s)
            | None \<Rightarrow> Done ((fst s)\<lparr>received := received (fst s) @ [obj]\<rparr>, snd s))
         else if uclObjIsRequest u obj then
           (let ident = ucl_object_lookup u obj ''id''
            in if (case ident of None \<Rightarrow> False | Some i \<Rightarrow> ucl_object_type u i \<noteq> UCL_INT) then Done s
               else
                 (let method = (case ucl_object_lookup u obj ''method'' of None \<Rightarrow> None | Some m \<Rightarrow> ucl_object_tostring u m);
                      s1 = (if method = None then (x_fault (NullString ''processMessage'') (fst s), snd s) else s);
                      req = \<lparr>rq_id = int32 (toint_ptr u ident),
                             method_name = (case method of Some m \<Rightarrow> m | None \<Rightarrow> []),
                             params = ucl_object_lookup u obj ''params'',
                             rq_result = None, rq_err = no_error\<rparr>
                  in case run_services e n 0 req s1 of
                       Done (None, req1, s2) \<Rightarrow> Done (sendError u e (rq_id req1) method_not_found s2)
                     | Done (Some res, req1, s2) \<Rightarrow>
                         (if res = 1 then Done (sendError u e (rq_id req1) (rq_err req1) s2)
                          else if rq_id req1 \<noteq> 0 then Done (sendReply u e (rq_id req1) (rq_result req1) s2)
                          else Done s2)
                     | Aborted a \<Rightarrow> Aborted a
                     | Unfinished \<Rightarrow> Unfinished))
         else Done s)"

definition readyForRead ::
  "'o ucl_api \<Rightarrow> ('o, 'v, 'd, 'w) rpc_env \<Rightarrow> nat \<Rightarrow> ('o, 'v, 'd) WSRPCTransport \<times> 'w
     \<Rightarrow> (('o, 'v, 'd) WSRPCTransport \<times> 'w) rpc_run" where
  "readyForRead u e n s =
     (case doRecv e s of
        Aborted a \<Rightarrow> Aborted a
      | Unfinished \<Rightarrow> Unfinished
      | Done (False, s1) \<Rightarrow> Done s1
      | Done (True, s1) \<Rightarrow>
          (let (obj, x1) = parseMessage u (fst s1);
               s2 = (x1\<lparr>curMsgBuf := None\<rparr>, snd s1)
           in case obj of
                None \<Rightarrow> Done s2
              | Some ob \<Rightarrow> processMessage u e n ob s2))"

section \<open>Waiting for a reply\<close>

text \<open>
  The scan of the queued responses for one to this completion. The node of the match is removed
  while the loop stands on it; the scan is followed no further than that.
\<close>

definition scan_received ::
  "'o ucl_api \<Rightarrow> ('o, 'v, 'd, 'w) rpc_env \<Rightarrow> nat \<Rightarrow> ('o, 'v, 'd) WSRPCTransport \<times> 'w
     \<Rightarrow> ('o, 'v, 'd) WSRPCTransport \<times> 'w" where
  "scan_received u e cref s =
     (let (x, w) = s;
          wanted = (\<lambda>ob. uclObjIsResponseForId u ob = c_id (comps x ! cref))
      in case find wanted (received x) of
           None \<Rightarrow> s
         | Some ob \<Rightarrow>
             completeWith u e cref ob
               (x_fault (Dangling ''received'') (x\<lparr>received := remove_first wanted (received x)\<rparr>), w))"

definition timeout_error :: WSRPCError where
  "timeout_error = \<lparr>errcode = kReplyTimeout, errmsg = ''Timeout waiting for server to reply.''\<rparr>"

text \<open>The result \<open>-1\<close> for a malformed message is converted to true.\<close>

fun awaitReply ::
  "'o ucl_api \<Rightarrow> ('o, 'v, 'd, 'w) rpc_env \<Rightarrow> nat \<Rightarrow> nat \<Rightarrow> int \<Rightarrow> ('o, 'v, 'd) WSRPCTransport \<times> 'w
     \<Rightarrow> (bool \<times> ('o, 'v, 'd) WSRPCTransport \<times> 'w) rpc_run" where
  "awaitReply u e 0 cref timeoutMsecs s = Unfinished"
| "awaitReply u e (Suc n) cref timeoutMsecs s =
     (let ((pres, revents), w1) = sys_poll e (x_fd (fst s)) timeoutMsecs (snd s);
          s1 = (update_comp cref (\<lambda>c. c\<lparr>c_err := timeout_error\<rparr>) (fst s), w1)
      in if pres = -1 then Done (False, s1)
         else if pres = 0 then Done (False, s1)
         else if revents AND POLLIN \<noteq> 0 then
           (case doRecv e s1 of
              Aborted a \<Rightarrow> Aborted a
            | Unfinished \<Rightarrow> Unfinished
            | Done (False, s2) \<Rightarrow> awaitReply u e n cref 0 s2
            | Done (True, s2) \<Rightarrow>
                (let (obj, x3) = parseMessage u (fst s2);
                     s3 = (x3\<lparr>curMsgBuf := None\<rparr>, snd s2)
                 in case obj of
                      None \<Rightarrow> Done (True, s3)
                    | Some ob \<Rightarrow>
                        if uclObjIsResponseForId u ob = c_id (comps (fst s3) ! cref)
                        then Done (True, completeWith u e cref ob s3)
                        else (case processMessage u e n ob s3 of
                                Aborted a \<Rightarrow> Aborted a
                              | Unfinished \<Rightarrow> Unfinished
                              | Done s4 \<Rightarrow> awaitReply u e n cref timeoutMsecs (scan_received u e cref s4))))
         else if revents AND POLLHUP \<noteq> 0 then Done (False, s1)
         else Aborted ''unreached'')"

definition wait_comp ::
  "'o ucl_api \<Rightarrow> ('o, 'v, 'd, 'w) rpc_env \<Rightarrow> nat \<Rightarrow> nat \<Rightarrow> ('o, 'v, 'd) WSRPCTransport \<times> 'w
     \<Rightarrow> (bool \<times> ('o, 'v, 'd) WSRPCTransport \<times> 'w) rpc_run" where
  "wait_comp u e n cref s = awaitReply u e n cref 2000 s"

section \<open>Transports and listeners\<close>

text \<open>The two constructors of a transport, and its other operations.\<close>

definition client_transport :: "('o, 'v, 'd) WSRPCTransport" where
  "client_transport =
     \<lparr>svcs = Some [], completions = [], ownSvcs = True, curMsgLen = 0, curMsgOff = 0, curMsgBuf = None,
      received = [], x_fd = -1, comps = [], x_faults = []\<rparr>"

definition server_transport :: "int \<Rightarrow> 'v list option \<Rightarrow> ('o, 'v, 'd) WSRPCTransport" where
  "server_transport fd sv =
     \<lparr>svcs = sv, completions = [], ownSvcs = False, curMsgLen = 0, curMsgOff = 0, curMsgBuf = None,
      received = [], x_fd = fd, comps = [], x_faults = []\<rparr>"

definition attach :: "int \<Rightarrow> ('o, 'v, 'd) WSRPCTransport \<Rightarrow> ('o, 'v, 'd) WSRPCTransport" where
  "attach aFd x = x\<lparr>x_fd := aFd\<rparr>"

definition addService :: "'v \<Rightarrow> ('o, 'v, 'd) WSRPCTransport \<Rightarrow> ('o, 'v, 'd) WSRPCTransport" where
  "addService svc x = x\<lparr>svcs := (case svcs x of Some l \<Rightarrow> Some (l @ [svc]) | None \<Rightarrow> None)\<rparr>"

text \<open>
  The listener. Its clients point to its list of services, so a service added later is seen by
  all of them. The delegate is a pair of functions over its own state.
\<close>

record ('o, 'v, 'd) WSRPCListener =
  l_fd :: int
  l_svcs :: "'v list"
  clientXprts :: "('o, 'v, 'd) WSRPCTransport list"

record ('o, 'v, 'd, 'g, 'w) listener_env =
  clientConnected :: "('o, 'v, 'd) WSRPCTransport \<Rightarrow> 'g \<Rightarrow> 'g"
  clientDisconnected :: "('o, 'v, 'd) WSRPCTransport \<Rightarrow> 'g \<Rightarrow> 'g"
  sys_accept :: "int \<Rightarrow> 'w \<Rightarrow> int \<times> 'w"
  sys_close :: "int \<Rightarrow> 'w \<Rightarrow> 'w"

definition listener_attach :: "int \<Rightarrow> ('o, 'v, 'd) WSRPCListener \<Rightarrow> ('o, 'v, 'd) WSRPCListener" where
  "listener_attach anFd l = l\<lparr>l_fd := anFd\<rparr>"

definition listener_addService :: "'v \<Rightarrow> ('o, 'v, 'd) WSRPCListener \<Rightarrow> ('o, 'v, 'd) WSRPCListener" where
  "listener_addService svc l =
     (let new = l_svcs l @ [svc]
      in l\<lparr>l_svcs := new, clientXprts := map (\<lambda>x. x\<lparr>svcs := Some new\<rparr>) (clientXprts l)\<rparr>)"

text \<open>Every client with the descriptor reads.\<close>

fun read_clients ::
  "'o ucl_api \<Rightarrow> ('o, 'v, 'd, 'w) rpc_env \<Rightarrow> nat \<Rightarrow> int \<Rightarrow> ('o, 'v, 'd) WSRPCTransport list \<Rightarrow> 'w
     \<Rightarrow> (('o, 'v, 'd) WSRPCTransport list \<times> 'w) rpc_run" where
  "read_clients u e n aFD [] w = Done ([], w)"
| "read_clients u e n aFD (x # xs) w =
     (case (if x_fd x = aFD then readyForRead u e n (x, w) else Done (x, w)) of
        Aborted a \<Rightarrow> Aborted a
      | Unfinished \<Rightarrow> Unfinished
      | Done (x1, w1) \<Rightarrow>
          (case read_clients u e n aFD xs w1 of
             Aborted a \<Rightarrow> Aborted a
           | Unfinished \<Rightarrow> Unfinished
           | Done (xs1, w2) \<Rightarrow> Done (x1 # xs1, w2)))"

definition listener_fdEvent ::
  "'o ucl_api \<Rightarrow> ('o, 'v, 'd, 'w) rpc_env \<Rightarrow> ('o, 'v, 'd, 'g, 'w) listener_env \<Rightarrow> nat \<Rightarrow> int \<Rightarrow> int
     \<Rightarrow> ('o, 'v, 'd) WSRPCListener \<times> 'g \<times> 'w \<Rightarrow> (('o, 'v, 'd) WSRPCListener \<times> 'g \<times> 'w) rpc_run" where
  "listener_fdEvent u e le n aFD revents s =
     (let (l, g, w) = s
      in if revents AND POLLHUP \<noteq> 0 then
           (case find (\<lambda>x. x_fd x = aFD) (clientXprts l) of
              None \<Rightarrow> Done s
            | Some x \<Rightarrow>
                (let g1 = clientDisconnected le x g;
                     l1 = l\<lparr>clientXprts := remove_first (\<lambda>x. x_fd x = aFD) (clientXprts l)\<rparr>
                 in Done (l1, g1, sys_close le aFD w)))
         else if aFD = l_fd l then
           (let (clFd, w1) = sys_accept le aFD w
            in if clFd = -1 then Done (l, g, w1)
               else (let x = server_transport clFd (Some (l_svcs l))
                     in Done (l\<lparr>clientXprts := clientXprts l @ [x]\<rparr>, clientConnected le x g, w1)))
         else if revents AND POLLIN \<noteq> 0 then
           (case read_clients u e n aFD (clientXprts l) w of
              Aborted a \<Rightarrow> Aborted a
            | Unfinished \<Rightarrow> Unfinished
            | Done (xs, w1) \<Rightarrow> Done (l\<lparr>clientXprts := xs\<rparr>, g, w1))
         else Done s)"

end
