(* ===== verification/Wsrpc_Props.thy ===== *)
theory Wsrpc_Props
  imports Wsrpc
begin

text \<open>
  The properties of the RPC layer: values and messages survive the journey through libucl, every
  request is answered once by the service that takes it, responses reach the completion they
  belong to, and a frame is received as it was sent when it arrives in one piece.
\<close>

section \<open>What the messages look like to the receiver\<close>

lemma c_string_no_nul: "CHR 0x00 \<notin> set (c_string s)"
  by (auto simp: c_string_def dest: set_takeWhileD)

lemma c_string_id: "CHR 0x00 \<notin> set s \<Longrightarrow> c_string s = s"
  by (induction s) (auto simp: c_string_def)

lemma c_string_append: "CHR 0x00 \<notin> set s \<Longrightarrow> c_string (s @ CHR 0x00 # t) = s"
  by (induction s) (auto simp: c_string_def)

context ucl_laws
begin

lemma makeError_lookup:
  "ucl_object_type u (makeError u c m) = UCL_OBJECT"
  "ucl_object_lookup u (makeError u c m) ''code'' = Some (ucl_keyed u ''code'' (ucl_object_fromint u c))"
  "ucl_object_lookup u (makeError u c m) ''message'' = Some (ucl_keyed u ''message'' (ucl_object_fromstring u m))"
  by (simp_all add: makeError_def Let_def type_laws lookup_laws)

lemma error_obj_lookup:
  "ucl_object_type u (error_obj u i err) = UCL_OBJECT"
  "ucl_object_lookup u (error_obj u i err) ''id'' = Some (ucl_keyed u ''id'' (ucl_object_fromint u i))"
  "ucl_object_lookup u (error_obj u i err) ''error'' =
     Some (ucl_keyed u ''error'' (makeError u (errcode err) (c_string (errmsg err))))"
  "ucl_object_lookup u (error_obj u i err) ''result'' = None"
  "ucl_object_lookup u (error_obj u i err) ''method'' = None"
  by (simp_all add: error_obj_def Let_def type_laws lookup_laws)

lemma reply_obj_lookup:
  "ucl_object_type u (reply_obj u i r) = UCL_OBJECT"
  "ucl_object_lookup u (reply_obj u i r) ''id'' = Some (ucl_keyed u ''id'' (ucl_object_fromint u i))"
  "ucl_object_lookup u (reply_obj u i r) ''result'' =
     Some (ucl_keyed u ''result'' (case r of Some x \<Rightarrow> x | None \<Rightarrow> ucl_object_typed_new u UCL_NULL))"
  "ucl_object_lookup u (reply_obj u i r) ''error'' = None"
  "ucl_object_lookup u (reply_obj u i r) ''method'' = None"
  by (simp_all add: reply_obj_def Let_def type_laws lookup_laws)

lemma request_obj_lookup:
  "ucl_object_type u (request_obj u m p i) = UCL_OBJECT"
  "ucl_object_lookup u (request_obj u m p i) ''id'' = Some (ucl_keyed u ''id'' (ucl_object_fromint u i))"
  "ucl_object_lookup u (request_obj u m p i) ''method'' =
     Some (ucl_keyed u ''method'' (ucl_object_fromstring u (c_string m)))"
  "ucl_object_lookup u (request_obj u m p i) ''params'' = Some (ucl_keyed u ''params'' p)"
  "ucl_object_lookup u (request_obj u m p i) ''result'' = None"
  "ucl_object_lookup u (request_obj u m p i) ''error'' = None"
  by (simp_all add: request_obj_def Let_def type_laws lookup_laws)

lemma toint_small: "- (2 ^ 31) \<le> i \<Longrightarrow> i < 2 ^ 31 \<Longrightarrow> ucl_object_toint u (ucl_object_fromint u i) = i"
  by (rule toint_fromint) auto

lemma classify:
  assumes "- (2 ^ 31) \<le> i" "i < 2 ^ 31"
  shows "uclObjIsResponseForId u (reply_obj u i r) = i"
    and "uclObjIsResponseForId u (error_obj u i err) = i"
    and "uclObjIsResponseForId u (request_obj u m p i) = 0"
    and "uclObjIsRequest u (request_obj u m p i) \<longleftrightarrow> ucl_object_type u p = UCL_OBJECT"
    and "\<not> uclObjIsRequest u (reply_obj u i r)" "\<not> uclObjIsRequest u (error_obj u i err)"
  using assms
  by (simp_all add: uclObjIsResponseForId_def uclObjIsRequest_def Let_def reply_obj_lookup error_obj_lookup
      request_obj_lookup type_laws value_laws toint_small int32_id)

lemma error_roundtrip:
  assumes "- (2 ^ 31) \<le> errcode err" "errcode err < 2 ^ 31" "CHR 0x00 \<notin> set (errmsg err)"
  shows "uclToError u (ucl_object_lookup u (error_obj u i err) ''error'') = (err, [])"
proof -
  have "c_string (errmsg err) = errmsg err" using assms(3) by (rule c_string_id)
  then show ?thesis using assms
    by (simp add: uclToError_def Let_def error_obj_lookup makeError_lookup type_laws lookup_laws
        value_laws toint_small int32_id)
qed

end

section \<open>Basic types\<close>

text \<open>Values of the basic types survive serialisation: void, booleans, 32-bit integers and strings
  without NUL are read back as they were written, and each reader rejects what the other writers wrote.\<close>

theorem basic_types_roundtrip:
  assumes "ucl_laws u" "- (2 ^ 31) \<le> i" "i < 2 ^ 31" "CHR 0x00 \<notin> set s"
  shows "wsRPCDeserialisevoid u (wsRPCSerialisevoid u) = Some () \<and>
    wsRPCDeserialisebool u (wsRPCSerialisebool u b) = Some b \<and>
    wsRPCDeserialiseint u (wsRPCSerialiseint u i) = Some i \<and>
    wsRPCDeserialisestring u (wsRPCSerialisestring u s) = Some s \<and>
    wsRPCDeserialiseint u (wsRPCSerialisestring u s) = None \<and>
    wsRPCDeserialisestring u (wsRPCSerialiseint u i) = None \<and>
    wsRPCDeserialisebool u (wsRPCSerialisevoid u) = None \<and>
    wsRPCDeserialisevoid u (wsRPCSerialisebool u b) = None"
proof -
  have "c_string s = s" using assms(4) by (rule c_string_id)
  then show ?thesis using assms(2-4)
    by (simp add: wsRPCDeserialisevoid_def wsRPCSerialisevoid_def wsRPCDeserialisebool_def wsRPCSerialisebool_def
        wsRPCDeserialiseint_def wsRPCSerialiseint_def wsRPCDeserialisestring_def wsRPCSerialisestring_def
        ucl_laws.type_laws [OF assms(1)] ucl_laws.value_laws [OF assms(1)] ucl_laws.toint_small [OF assms(1)] int32_id)
qed

theorem basic_types_roundtrip_witness:
  "wsRPCDeserialiseint tree_ucl (wsRPCSerialiseint tree_ucl (-7)) = Some (-7) \<and>
   wsRPCDeserialisestring tree_ucl (wsRPCSerialisestring tree_ucl ''abc'') = Some ''abc''"
  using basic_types_roundtrip [OF tree.ucl_laws_axioms, of "-7" "''abc''" True] by simp

section \<open>Framing\<close>

lemma int32_mod: "int32 (n mod 2 ^ 32) = int32 n"
  by (simp add: int32_def signed_take_bit_eq_iff_take_bit_eq take_bit_eq_mod)

lemma le32_digits:
  "n mod 256 + n div 256 mod 256 * 256 + n div 256 ^ 2 mod 256 * 256 ^ 2 + n div 256 ^ 3 mod 256 * 256 ^ 3 =
     n mod (2 ^ 32 :: int)"
proof -
  have split: "n mod (256 * m) = n mod 256 + (n div 256 mod m) * 256" if "0 < m" for n m :: int
    using that zmod_zmult2_eq [of m n 256] by simp
  have e: "n mod (256 * (256 * (256 * 256))) = n mod 256 + (n div 256 mod (256 * (256 * 256))) * 256"
    "n div 256 mod (256 * (256 * 256)) = n div 256 mod 256 + (n div 256 div 256 mod (256 * 256)) * 256"
    "n div 256 div 256 mod (256 * 256) = n div 256 div 256 mod 256 + (n div 256 div 256 div 256 mod 256) * 256"
    by (rule split, simp)+
  have d: "n div 256 ^ 2 = n div 256 div 256" "n div 256 ^ 3 = n div 256 div 256 div 256"
    by (simp_all add: zdiv_zmult2_eq [symmetric])
  have horner: "a + (b + (c + d * 256) * 256) * 256 = a + b * 256 + c * 256 ^ 2 + d * 256 ^ 3" for a b c d :: int
    by simp
  have "n mod 2 ^ 32 = n mod (256 * (256 * (256 * 256)))" by simp
  then show ?thesis by (simp only: e d horner)
qed

lemma le32_length [simp]: "length (le32 n) = 4"
  by (simp add: le32_def)

lemma of_le32_le32:
  assumes "- (2 ^ 31) \<le> n" "n < 2 ^ 31"
  shows "of_le32 (le32 n) = n"
proof -
  have byte: "int (of_char (char_of (nat (k mod 256)) :: char)) = k mod 256" for k :: int
    by (simp add: nat_mod_distrib [symmetric] mod_simps flip: nat_less_iff)
  have "of_le32 (le32 n) = int32 (n mod 2 ^ 32)"
    unfolding le32_digits [symmetric] by (simp add: of_le32_def le32_def byte add.assoc)
  then show ?thesis using assms by (simp only: int32_mod int32_id)
qed

text \<open>A stream socket whose bytes have arrived: what is written is appended, and \<open>recv\<close> takes as much
  as is there, up to the number of bytes asked for.\<close>

definition wire_write :: "int \<Rightarrow> string \<Rightarrow> string \<Rightarrow> int \<times> string" where
  "wire_write fd bs w = (int (length bs), w @ bs)"

definition wire_recv :: "int \<Rightarrow> nat \<Rightarrow> string \<Rightarrow> (int \<times> string) \<times> string" where
  "wire_recv fd n w = ((int (length (take n w)), take n w), drop n w)"

text \<open>The bytes of a message, and what it takes for it to get through: libucl reads back what it has
  written, the text has no NUL, and its length fits the header.\<close>

definition frame :: "'o ucl_api \<Rightarrow> 'o \<Rightarrow> string" where
  "frame u obj = le32 (int (length (ucl_object_emit u obj)) + 1) @ ucl_object_emit u obj @ [CHR 0x00]"

definition wire_safe :: "'o ucl_api \<Rightarrow> 'o \<Rightarrow> bool" where
  "wire_safe u obj \<longleftrightarrow> ucl_parse u (ucl_object_emit u obj) = Some obj \<and>
     CHR 0x00 \<notin> set (ucl_object_emit u obj) \<and> int (length (ucl_object_emit u obj)) + 1 < 2 ^ 31"

lemma writeObj_wire:
  assumes "sys_write e = wire_write" "wire_safe u obj"
  shows "writeObj u e obj (x, w) = (True, x, w @ frame u obj)"
proof -
  have "int32 (int (length (ucl_object_emit u obj)) + 1) = int (length (ucl_object_emit u obj)) + 1"
    using assms(2) by (intro int32_id) (auto simp: wire_safe_def)
  then show ?thesis using assms(1) by (simp add: writeObj_def Let_def wire_write_def frame_def)
qed

lemma doRecv_frame:
  assumes "curMsgLen x = 0" "sys_recv e (x_fd x) 4 w = ((4, le32 n), w1)"
    and "sys_recv e (x_fd x) (nat n) w1 = ((n, body), w2)" "int (length body) = n" "0 < n" "n < 2 ^ 31"
  shows "doRecv e (x, w) = Done (True, x\<lparr>curMsgLen := 0, curMsgOff := n, curMsgBuf := Some body\<rparr>, w2)"
proof -
  have n: "of_le32 (le32 n) = n" "int32 n = n" using assms(5,6) by (simp_all add: of_le32_le32 int32_id)
  have "n mod 2 ^ 64 = n" using assms(5,6) by (intro mod_pos_pos_trivial) auto
  moreover have "nat n = length body" using assms(4) by simp
  ultimately show ?thesis using assms n
    by (simp add: doRecv_def recv_into_def Let_def)
qed

lemma readyForRead_frame:
  assumes "doRecv e (x, w) = Done (True, x1, w1)" "curMsgBuf x1 = Some (txt @ CHR 0x00 # junk)"
    and "CHR 0x00 \<notin> set txt"
  shows "readyForRead u e n (x, w) =
    (case ucl_parse u txt of None \<Rightarrow> Done (x1\<lparr>curMsgBuf := None\<rparr>, w1)
     | Some ob \<Rightarrow> processMessage u e n ob (x1\<lparr>curMsgBuf := None\<rparr>, w1))"
  using assms by (simp add: readyForRead_def parseMessage_def c_string_append Let_def split: option.split)

lemma doRecv_wire:
  assumes "sys_recv e = wire_recv" "wire_safe u obj" "curMsgLen x = 0"
  shows "doRecv e (x, frame u obj @ rest) =
    Done (True, x\<lparr>curMsgLen := 0, curMsgOff := int (length (ucl_object_emit u obj)) + 1,
      curMsgBuf := Some (ucl_object_emit u obj @ [CHR 0x00])\<rparr>, rest)"
proof -
  let ?t = "ucl_object_emit u obj"
  let ?n = "int (length ?t) + 1"
  have nat: "nat ?n = length (?t @ [CHR 0x00])" by simp
  have w: "frame u obj @ rest = le32 ?n @ (?t @ [CHR 0x00]) @ rest" by (simp add: frame_def)
  show ?thesis unfolding w
  proof (rule doRecv_frame [OF assms(3)])
    show "sys_recv e (x_fd x) 4 (le32 ?n @ (?t @ [CHR 0x00]) @ rest) =
        ((4, le32 ?n), (?t @ [CHR 0x00]) @ rest)"
      by (simp add: assms(1) wire_recv_def)
    show "sys_recv e (x_fd x) (nat ?n) ((?t @ [CHR 0x00]) @ rest) = ((?n, ?t @ [CHR 0x00]), rest)"
      unfolding nat assms(1) wire_recv_def by simp
  qed (use assms(2) in \<open>auto simp: wire_safe_def\<close>)
qed

lemma readyForRead_wire:
  assumes "sys_recv e = wire_recv" "wire_safe u obj" "curMsgLen x = 0"
  shows "readyForRead u e n (x, frame u obj @ rest) =
    processMessage u e n obj
      (x\<lparr>curMsgOff := int (length (ucl_object_emit u obj)) + 1, curMsgBuf := None\<rparr>, rest)"
proof -
  have "readyForRead u e n (x, frame u obj @ rest) =
    processMessage u e n obj (x\<lparr>curMsgLen := 0,
      curMsgOff := int (length (ucl_object_emit u obj)) + 1, curMsgBuf := None\<rparr>, rest)"
    using assms(2) readyForRead_frame [OF doRecv_wire [OF assms], of "ucl_object_emit u obj" "[]" u n rest]
    by (simp add: wire_safe_def)
  moreover have "x\<lparr>curMsgLen := 0\<rparr> = x" using assms(3) by simp
  ultimately show ?thesis by simp
qed

text \<open>C8: framing: what \<open>writeObj\<close> puts on the wire is, when it has arrived, taken off the wire
  by \<open>readyForRead\<close> as exactly one message, which is processed as the object that was sent, and the bytes that
  follow are left for the next call. It relies on libucl reading back what it has written.\<close>

theorem frame_roundtrip:
  assumes "sys_write e = wire_write" "sys_recv e' = wire_recv" "wire_safe u obj" "curMsgLen x = 0"
  shows "readyForRead u e' n (x, snd (snd (writeObj u e obj (y, []))) @ rest) =
    processMessage u e' n obj
      (x\<lparr>curMsgOff := int (length (ucl_object_emit u obj)) + 1, curMsgBuf := None\<rparr>, rest)"
  using readyForRead_wire [OF assms(2-4)] by (simp add: writeObj_wire [OF assms(1,3)])

text \<open>C38: a message that arrives in two pieces is not put together: the second piece is stored at
  the start of the buffer, over the first, and the message is handed on as complete.\<close>

theorem split_frame_corrupted:
  assumes "curMsgLen x = 0" "sys_recv e (x_fd x) 4 w = ((4, le32 n), w1)"
    and "sys_recv e (x_fd x) (nat n) w1 = ((int (length a), a), w2)"
    and "sys_recv e (x_fd x) (length b) w2 = ((int (length b), b), w3)"
    and "n = int (length a + length b)" "a \<noteq> []" "b \<noteq> []" "n < 2 ^ 31"
  shows "\<exists>x1 x2. doRecv e (x, w) = Done (False, x1, w2) \<and> doRecv e (x1, w2) = Done (True, x2, w3) \<and>
    curMsgBuf x2 = Some (b @ drop (length b) (a @ replicate (length b) (heap_byte e)))"
proof -
  let ?buf = "a @ replicate (length b) (heap_byte e)"
  let ?x1 = "x\<lparr>curMsgLen := n, curMsgOff := int (length a), curMsgBuf := Some ?buf\<rparr>"
  let ?x2 = "x\<lparr>curMsgLen := 0, curMsgOff := n, curMsgBuf := Some (b @ drop (length b) ?buf)\<rparr>"
  have pos: "0 < n" using assms(5,6) by (cases a) auto
  have n: "of_le32 (le32 n) = n" using assms(8) pos by (intro of_le32_le32) auto
  have small: "int32 (int (length a)) = int (length a)" "int32 n = n"
    using assms(5,8) pos by (auto intro!: int32_id)
  have m: "n mod 2 ^ 64 = n" "(n - int (length a)) mod 2 ^ 64 = int (length b)"
    using assms(5,8) pos by (auto intro!: mod_pos_pos_trivial)
  have la: "nat n = length a + length b" using assms(5) by simp
  have "doRecv e (x, w) = Done (False, ?x1, w2)"
    using assms(1-3,5,7) n m(1) small la by (simp add: doRecv_def recv_into_def Let_def)
  moreover have "doRecv e (?x1, w2) = Done (True, ?x2, w3)"
    using assms(4,5) pos m(2) small(2) by (simp add: doRecv_def recv_into_def Let_def)
  ultimately show ?thesis by (intro exI [of _ ?x1] exI [of _ ?x2]) simp
qed

section \<open>Services that leave the transport alone\<close>

text \<open>
  The contract of the generated request handlers and of delegates: they read the request, may set
  its result or error, and act on the world; the transport they are called from stays as it is.
\<close>

fun offer :: "('v \<Rightarrow> 'o WSRPCReq \<Rightarrow> 'w \<Rightarrow> int \<times> 'o WSRPCReq \<times> 'w) \<Rightarrow> 'v list \<Rightarrow> 'o WSRPCReq \<Rightarrow> 'w
    \<Rightarrow> int option \<times> 'o WSRPCReq \<times> 'w" where
  "offer f [] req w = (None, req, w)"
| "offer f (v # vs) req w =
     (let (r, q, w1) = f v req w in if r = -1 then offer f vs q w1 else (Some r, q, w1))"

text \<open>The answer to a request that was offered: none to a notification, else one error or one reply.\<close>

definition answer :: "'o ucl_api \<Rightarrow> int option \<Rightarrow> 'o WSRPCReq \<Rightarrow> 'o option" where
  "answer u r q =
     (if rq_id q = 0 then None
      else case r of
             None \<Rightarrow> Some (error_obj u (rq_id q) method_not_found)
           | Some res \<Rightarrow> if res = 1 then Some (error_obj u (rq_id q) (rq_err q))
                         else Some (reply_obj u (rq_id q) (rq_result q)))"

definition send_answer ::
  "'o ucl_api \<Rightarrow> ('o, 'v, 'd, 'w) rpc_env \<Rightarrow> 'o option \<Rightarrow> ('o, 'v, 'd) WSRPCTransport \<times> 'w
     \<Rightarrow> ('o, 'v, 'd) WSRPCTransport \<times> 'w" where
  "send_answer u e a s = (case a of None \<Rightarrow> s | Some ob \<Rightarrow> snd (writeObj u e ob s))"

lemma writeObj_transport: "writeObj u e ob (x, w) = (ok, x', w') \<Longrightarrow> ok \<and> x' = x"
  by (auto simp: writeObj_def Let_def split: prod.splits if_splits)

locale quiet_services =
  fixes e :: "('o, 'v, 'd, 'w) rpc_env"
    and f :: "'v \<Rightarrow> 'o WSRPCReq \<Rightarrow> 'w \<Rightarrow> int \<times> 'o WSRPCReq \<times> 'w"
    and g :: "'d \<Rightarrow> nat \<Rightarrow> 'w \<Rightarrow> 'w"
  assumes handler: "fnReqHandler e v req (x, w) = (let (r, q, w1) = f v req w in (r, q, x, w1))"
    and invoker: "fnDelegateInvoker e d c (x, w) = (x, g d c w)"
begin

lemma run_services_exact:
  assumes "svcs x = Some l" "length l - k < n"
  shows "run_services e n k req (x, w) = (let (r, q, w1) = offer f (drop k l) req w in Done (r, q, x, w1))"
  using assms
proof (induction n arbitrary: k req w)
  case (Suc n)
  show ?case
  proof (cases "k < length l")
    case True
    then have "drop k l = l ! k # drop (Suc k) l" by (simp add: Cons_nth_drop_Suc)
    moreover obtain r q w1 where "f (l ! k) req w = (r, q, w1)" by (rule prod_cases3)
    ultimately show ?thesis using Suc True by (simp add: handler)
  next
    case False
    with Suc.prems show ?thesis by simp
  qed
qed simp

lemma dispatch_exact:
  assumes "ucl_laws u" "- (2 ^ 31) \<le> i" "i < 2 ^ 31" "CHR 0x00 \<notin> set m" "ucl_object_type u p = UCL_OBJECT"
    and "svcs x = Some l" "length l < n"
  shows "processMessage u e n (request_obj u m p i) (x, w) =
    (let (r, q, w1) = offer f l \<lparr>rq_id = i, method_name = m, params = Some (ucl_keyed u ''params'' p),
                                  rq_result = None, rq_err = no_error\<rparr> w
     in Done (send_answer u e (answer u r q) (x, w1)))"
proof -
  let ?req = "\<lparr>rq_id = i, method_name = m, params = Some (ucl_keyed u ''params'' p), rq_result = None, rq_err = no_error\<rparr>"
  note cl = ucl_laws.classify [OF assms(1-3)] and lk = ucl_laws.request_obj_lookup [OF assms(1)]
  have id: "toint_ptr u (ucl_object_lookup u (request_obj u m p i) ''id'') = i"
    using assms(2,3) by (simp add: lk ucl_laws.value_laws [OF assms(1)] ucl_laws.toint_small [OF assms(1)])
  have m: "ucl_object_tostring u (ucl_keyed u ''method'' (ucl_object_fromstring u (c_string m))) = Some m"
    using assms(4) by (simp add: c_string_id ucl_laws.value_laws [OF assms(1)])
  obtain r q w1 where off: "offer f l ?req w = (r, q, w1)" by (rule prod_cases3)
  have run: "run_services e n 0 ?req (x, w) = Done (r, q, x, w1)"
    using run_services_exact [OF assms(6), of 0 n ?req w] assms(7) off by simp
  have "processMessage u e n (request_obj u m p i) (x, w) =
    (case run_services e n 0 ?req (x, w) of
       Done (None, req1, s2) \<Rightarrow> Done (sendError u e (rq_id req1) method_not_found s2)
     | Done (Some res, req1, s2) \<Rightarrow>
         (if res = 1 then Done (sendError u e (rq_id req1) (rq_err req1) s2)
          else if rq_id req1 \<noteq> 0 then Done (sendReply u e (rq_id req1) (rq_result req1) s2)
          else Done s2)
     | Aborted a \<Rightarrow> Aborted a
     | Unfinished \<Rightarrow> Unfinished)"
    using assms(2,3,5) id int32_id [of i]
    by (simp add: processMessage_def Let_def cl lk m ucl_laws.type_laws [OF assms(1)] del: run_services.simps)
  then show ?thesis
    unfolding run off
    by (auto simp: answer_def send_answer_def sendError_def sendReply_def split: option.splits)
qed

end

text \<open>The environment that a table of such handlers and delegates gives.\<close>

definition service_env ::
  "('v \<Rightarrow> 'o WSRPCReq \<Rightarrow> 'w \<Rightarrow> int \<times> 'o WSRPCReq \<times> 'w) \<Rightarrow> ('d \<Rightarrow> nat \<Rightarrow> 'w \<Rightarrow> 'w)
    \<Rightarrow> (int \<Rightarrow> string \<Rightarrow> 'w \<Rightarrow> int \<times> 'w) \<Rightarrow> (int \<Rightarrow> nat \<Rightarrow> 'w \<Rightarrow> (int \<times> string) \<times> 'w)
    \<Rightarrow> (int \<Rightarrow> int \<Rightarrow> 'w \<Rightarrow> (int \<times> int) \<times> 'w) \<Rightarrow> ('w \<Rightarrow> int \<times> 'w) \<Rightarrow> ('o, 'v, 'd, 'w) rpc_env" where
  "service_env f g wr rc pl rn =
     \<lparr>fnReqHandler = (\<lambda>v req (x, w). let (r, q, w1) = f v req w in (r, q, x, w1)),
      fnDelegateInvoker = (\<lambda>d c (x, w). (x, g d c w)),
      sys_write = wr, sys_recv = rc, sys_poll = pl, sys_rand = rn, heap_byte = CHR ''?''\<rparr>"

interpretation services: quiet_services "service_env f g wr rc pl rn" f g for f g wr rc pl rn
  by unfold_locales (simp_all add: service_env_def)

lemma service_env_sel [simp]:
  "sys_write (service_env f g wr rc pl rn) = wr" "sys_recv (service_env f g wr rc pl rn) = rc"
  "sys_poll (service_env f g wr rc pl rn) = pl" "sys_rand (service_env f g wr rc pl rn) = rn"
  "heap_byte (service_env f g wr rc pl rn) = CHR ''?''"
  by (simp_all add: service_env_def)

text \<open>For the witnesses: services named by a string take the method of their name, answer it with
  the number 42, and fail on the method \<open>''bad''\<close>; \<open>poll\<close> reports input while bytes are there; the
  random number is 7.\<close>

definition named_service ::
  "string \<Rightarrow> utree WSRPCReq \<Rightarrow> string \<Rightarrow> int \<times> utree WSRPCReq \<times> string" where
  "named_service v req w =
     (if method_name req \<noteq> v then (-1, req, w)
      else if v = ''bad'' then (1, req\<lparr>rq_err := invalidParams\<rparr>, w)
      else (0, req\<lparr>rq_result := Some (UNode None (UInt 42))\<rparr>, w))"

definition wire_poll :: "int \<Rightarrow> int \<Rightarrow> string \<Rightarrow> (int \<times> int) \<times> string" where
  "wire_poll fd ms w = (if w = [] then ((0, 0), w) else ((1, POLLIN), w))"

definition demo_env :: "(utree, string, unit, string) rpc_env" where
  "demo_env = service_env named_service (\<lambda>_ _ w. w) wire_write wire_recv wire_poll (\<lambda>w. (7, w))"

definition demo_server :: "(utree, string, unit) WSRPCTransport" where
  "demo_server = server_transport 9 (Some [''bad'', ''ping''])"

lemma demo_quiet: "quiet_services demo_env named_service (\<lambda>_ _ w. w)"
  unfolding demo_env_def by (rule services.quiet_services_axioms)

abbreviation ping :: utree where
  "ping \<equiv> request_obj tree_ucl ''ping'' (ut_new UCL_OBJECT) 7"

lemma ping_text:
  "ucl_object_emit tree_ucl ping = ''{\"jsonrpc\":\"2.0\",\"method\":\"ping\",\"params\":{},\"id\":7}''"
  by (simp add: request_obj_def Let_def tree_ucl_def ut_insert_def ut_new_def ut_keyed_def c_string_def
      quote_json_def show_int_def show_nat.simps digit_char_def)

lemma ping_read: "ucl_parse tree_ucl (ucl_object_emit tree_ucl ping) = Some ping"
  unfolding ping_text by code_simp

theorem frame_roundtrip_witness:
  "readyForRead tree_ucl demo_env 5
     (demo_server, snd (snd (writeObj tree_ucl demo_env ping (demo_server, []))) @ ''next'') =
   processMessage tree_ucl demo_env 5 ping
     (demo_server\<lparr>curMsgOff := int (length (ucl_object_emit tree_ucl ping)) + 1, curMsgBuf := None\<rparr>, ''next'')"
  by (rule frame_roundtrip)
    (use ping_read in \<open>simp_all add: demo_env_def demo_server_def server_transport_def ping_text wire_safe_def\<close>)

text \<open>A socket that delivers the frame header, then the body in the two given pieces.\<close>

definition piece_recv :: "int \<Rightarrow> nat \<Rightarrow> string list \<Rightarrow> (int \<times> string) \<times> string list" where
  "piece_recv fd n w = ((int (length (hd w)), hd w), tl w)"

theorem split_frame_corrupted_witness:
  "let e = service_env (\<lambda>(v::unit) (req::utree WSRPCReq) w. (0, req, w)) (\<lambda>(_::unit) _ w. w)
             (\<lambda>_ bs w. (0, w)) piece_recv (\<lambda>_ _ w. ((0, 0), w)) (\<lambda>w. (0, w)) in
   \<exists>x1 x2. doRecv e (server_transport 9 None, [le32 7, ''{\"a'', ''\":1}'']) = Done (False, x1, [''\":1}'']) \<and>
     doRecv e (x1, [''\":1}'']) = Done (True, x2, []) \<and> curMsgBuf x2 = Some ''\":1}???''"
proof -
  let ?e = "service_env (\<lambda>(v::unit) (req::utree WSRPCReq) w. (0, req, w)) (\<lambda>(_::unit) _ w. w)
             (\<lambda>_ bs w. (0, w)) piece_recv (\<lambda>_ _ w. ((0, 0), w)) (\<lambda>w. (0, w))"
  have "\<exists>x1 x2. doRecv ?e (server_transport 9 None, [le32 7, ''{\"a'', ''\":1}'']) = Done (False, x1, [''\":1}'']) \<and>
     doRecv ?e (x1, [''\":1}'']) = Done (True, x2, []) \<and>
     curMsgBuf x2 = Some (''\":1}'' @ drop (length ''\":1}'') (''{\"a'' @ replicate (length ''\":1}'') (heap_byte ?e)))"
    by (rule split_frame_corrupted [where n = 7 and ?w1.0 = "[''{\"a'', ''\":1}'']"])
      (simp_all add: piece_recv_def server_transport_def)
  then show ?thesis by (simp add: numeral_eq_Suc)
qed

section \<open>Requests\<close>

text \<open>C6: a request, as \<open>sendMessage\<close> builds it, is offered to the services in the order of their
  registration, with the identifier, method and parameters it was sent with, until one takes it.
  The number of services is enough fuel for the dispatch to finish. Exactly one answer
  is written: the reply or the error of that service, or "method not found" if none took it; a request with
  identifier 0 is a notification and gets no answer. The transport itself is not changed.\<close>

theorem request_dispatch:
  assumes "ucl_laws u" "quiet_services e f g"
    and "- (2 ^ 31) \<le> i" "i < 2 ^ 31" "CHR 0x00 \<notin> set m" "ucl_object_type u p = UCL_OBJECT"
    and "svcs x = Some l" "length l < n"
  shows "processMessage u e n (request_obj u m p i) (x, w) =
    (let (r, q, w1) = offer f l \<lparr>rq_id = i, method_name = m, params = Some (ucl_keyed u ''params'' p),
                                  rq_result = None, rq_err = no_error\<rparr> w
     in Done (send_answer u e (answer u r q) (x, w1)))"
  using assms(1,3-) by (rule quiet_services.dispatch_exact [OF assms(2)])

theorem request_dispatch_witness:
  "processMessage tree_ucl demo_env 5 ping (demo_server, []) =
     Done (send_answer tree_ucl demo_env (Some (reply_obj tree_ucl 7 (Some (UNode None (UInt 42))))) (demo_server, []))"
proof -
  have "svcs demo_server = Some [''bad'', ''ping'']" by (simp add: demo_server_def server_transport_def)
  moreover have "ucl_object_type tree_ucl (ut_new UCL_OBJECT) = UCL_OBJECT"
    by (simp add: tree_ucl_def ut_type_def ut_new_def)
  ultimately show ?thesis
    using request_dispatch [OF tree.ucl_laws_axioms demo_quiet, of 7 "''ping''" "ut_new UCL_OBJECT" demo_server
        "[''bad'', ''ping'']" 5 "[]"]
    by (simp add: named_service_def answer_def)
qed

section \<open>Responses\<close>

lemma update_comp_nth:
  "c < length (comps x) \<Longrightarrow> comps (update_comp c h x) ! c = h (comps x ! c)"
  "c' \<noteq> c \<Longrightarrow> comps (update_comp c h x) ! c' = comps x ! c'"
  by (simp_all add: update_comp_def)

text \<open>C21: a reply or an error that answers a registered completion completes that completion and no
  other: with the result that was sent, or with the code and text of the error that was sent; its delegate
  is told once. A response that nobody waits for is put at the end of the queue.\<close>

theorem response_completes:
  assumes "ucl_laws u" "quiet_services e f g" "0 < i" "i < 2 ^ 31"
    and "find (\<lambda>c. i = c_id (comps x ! c)) (completions x) = Some c" "c < length (comps x)"
    and "c_delegate (comps x ! c) = Some d"
    and "- (2 ^ 31) \<le> errcode err" "errcode err < 2 ^ 31" "CHR 0x00 \<notin> set (errmsg err)"
  shows "processMessage u e n (reply_obj u i (Some r)) (x, w) =
      Done (update_comp c (\<lambda>k. k\<lparr>c_err := no_error, c_result := Some (ucl_keyed u ''result'' r)\<rparr>) x, g d c w) \<and>
    processMessage u e n (error_obj u i err) (x, w) = Done (update_comp c (\<lambda>k. k\<lparr>c_err := err\<rparr>) x, g d c w) \<and>
    (\<forall>y. find (\<lambda>c. i = c_id (comps y ! c)) (completions y) = None \<longrightarrow>
      processMessage u e n (reply_obj u i (Some r)) (y, w) =
        Done (y\<lparr>received := received y @ [reply_obj u i (Some r)]\<rparr>, w))"
proof (intro conjI)
  have i: "- (2 ^ 31) \<le> i" using assms(3) by simp
  note cl = ucl_laws.classify [OF assms(1) i assms(4)]
  note rl = ucl_laws.reply_obj_lookup [OF assms(1)] and el = ucl_laws.error_obj_lookup [OF assms(1)]
  show "processMessage u e n (reply_obj u i (Some r)) (x, w) =
      Done (update_comp c (\<lambda>k. k\<lparr>c_err := no_error, c_result := Some (ucl_keyed u ''result'' r)\<rparr>) x, g d c w)"
    using assms(3,5-7)
    by (simp add: processMessage_def cl completeWith_def rl update_comp_nth quiet_services.invoker [OF assms(2)])
  have err: "uclToError u (Some (ucl_keyed u ''error'' (makeError u (errcode err) (c_string (errmsg err))))) = (err, [])"
    using ucl_laws.error_roundtrip [OF assms(1,8-10), of i] by (simp add: el)
  show "processMessage u e n (error_obj u i err) (x, w) = Done (update_comp c (\<lambda>k. k\<lparr>c_err := err\<rparr>) x, g d c w)"
    using assms(3,5-7)
    by (simp add: processMessage_def cl completeWith_def el err update_comp_nth quiet_services.invoker [OF assms(2)])
      (simp add: update_comp_def)
  show "\<forall>y. find (\<lambda>c. i = c_id (comps y ! c)) (completions y) = None \<longrightarrow>
      processMessage u e n (reply_obj u i (Some r)) (y, w) =
        Done (y\<lparr>received := received y @ [reply_obj u i (Some r)]\<rparr>, w)"
    using assms(3) by (simp add: processMessage_def cl)
qed

theorem response_completes_witness:
  "let x = demo_server\<lparr>completions := [0],
             comps := [\<lparr>c_id = 7, c_delegate = Some (), c_err = no_error, c_result = None\<rparr>]\<rparr> in
   processMessage tree_ucl demo_env 5 (reply_obj tree_ucl 7 (Some (UNode None (UInt 42)))) (x, []) =
     Done (x\<lparr>comps := [\<lparr>c_id = 7, c_delegate = Some (), c_err = no_error,
                c_result = Some (ucl_keyed tree_ucl ''result'' (UNode None (UInt 42)))\<rparr>]\<rparr>, [])"
proof -
  let ?x = "demo_server\<lparr>completions := [0],
             comps := [\<lparr>c_id = 7, c_delegate = Some (), c_err = no_error, c_result = None\<rparr>]\<rparr>"
  show ?thesis
    using response_completes [OF tree.ucl_laws_axioms demo_quiet, of 7 ?x 0 "()" invalidParams 5 "UNode None (UInt 42)" "[]"]
    by (simp add: update_comp_def invalidParams_def)
qed

section \<open>Synchronous calls\<close>

text \<open>C35: \<open>awaitReply\<close> when no reply comes: on a failing \<open>poll\<close>, on a timeout and on a hangup it
  returns false with the timeout error in the completion. A message that cannot be parsed makes it return true,
  although no reply has arrived, with the same error in the completion.\<close>

theorem await_without_reply:
  assumes "c < length (comps x)" "sys_poll e (x_fd x) t w = ((pres, revents), w1)"
  shows "(pres \<in> {-1, 0} \<or> revents AND POLLIN = 0 \<and> revents AND POLLHUP \<noteq> 0 \<longrightarrow>
      (\<exists>x1. awaitReply u e (Suc n) c t (x, w) = Done (False, x1, w1) \<and> c_err (comps x1 ! c) = timeout_error)) \<and>
    (pres = 1 \<and> revents AND POLLIN \<noteq> 0 \<and>
     doRecv e (update_comp c (\<lambda>k. k\<lparr>c_err := timeout_error\<rparr>) x, w1) = Done (True, x2, w2) \<and>
     fst (parseMessage u x2) = None \<longrightarrow>
      (\<exists>x3. awaitReply u e (Suc n) c t (x, w) = Done (True, x3, w2) \<and> comps x3 = comps x2))"
proof (intro conjI impI)
  have err: "c_err (comps (update_comp c (\<lambda>k. k\<lparr>c_err := timeout_error\<rparr>) x) ! c) = timeout_error"
    using assms(1) by (simp add: update_comp_nth)
  show "\<exists>x1. awaitReply u e (Suc n) c t (x, w) = Done (False, x1, w1) \<and> c_err (comps x1 ! c) = timeout_error"
    if "pres \<in> {-1, 0} \<or> revents AND POLLIN = 0 \<and> revents AND POLLHUP \<noteq> 0"
    using that assms(2) err by (auto simp: Let_def)
  show "\<exists>x3. awaitReply u e (Suc n) c t (x, w) = Done (True, x3, w2) \<and> comps x3 = comps x2"
    if "pres = 1 \<and> revents AND POLLIN \<noteq> 0 \<and>
     doRecv e (update_comp c (\<lambda>k. k\<lparr>c_err := timeout_error\<rparr>) x, w1) = Done (True, x2, w2) \<and>
     fst (parseMessage u x2) = None"
  proof -
    note given = that
    obtain x3 where x3: "parseMessage u x2 = (None, x3)" using given by (cases "parseMessage u x2") auto
    then have "comps x3 = comps x2"
      by (auto simp: parseMessage_def x_fault_def split: option.splits if_splits)
    with given assms(2) x3 show ?thesis by (auto simp: Let_def)
  qed
qed

theorem await_without_reply_witness:
  "let x = client_transport\<lparr>comps := [\<lparr>c_id = 7, c_delegate = None, c_err = no_error, c_result = None\<rparr>]\<rparr> in
   \<exists>x1. awaitReply tree_ucl demo_env 5 0 2000 (x, []) = Done (False, x1, []) \<and>
        c_err (comps x1 ! 0) = timeout_error"
proof -
  let ?x = "client_transport\<lparr>comps := [\<lparr>c_id = 7, c_delegate = None, c_err = no_error, c_result = None\<rparr>]\<rparr>"
  have "sys_poll demo_env (x_fd ?x) 2000 [] = ((0, 0), [])" by (simp add: demo_env_def wire_poll_def)
  from await_without_reply [OF _ this, of 0 tree_ucl 4] show ?thesis
    by (simp add: numeral_eq_Suc del: awaitReply.simps)
qed

lemma sendMessage_wire:
  assumes "sys_write e = wire_write" "sys_rand e w = (i, w)" "wire_safe u (request_obj u m p i)"
  shows "sendMessage u e m p None (x, w) =
    (length (comps x), x\<lparr>comps := comps x @ [\<lparr>c_id = i, c_delegate = None, c_err = no_error, c_result = None\<rparr>]\<rparr>,
     w @ frame u (request_obj u m p i))"
  using assms(2) by (simp add: sendMessage_def Let_def writeObj_wire [OF assms(1,3)])

lemma awaitReply_wire:
  assumes "ucl_laws u" "sys_recv e = wire_recv" "sys_poll e = wire_poll" "wire_safe u (reply_obj u i (Some r))"
    and "curMsgLen x = 0" "c < length (comps x)" "c_id (comps x ! c) = i" "c_delegate (comps x ! c) = None"
    and "0 < i" "i < 2 ^ 31"
  shows "\<exists>x1. awaitReply u e (Suc n) c t (x, frame u (reply_obj u i (Some r))) = Done (True, x1, []) \<and>
    c_result (comps x1 ! c) = Some (ucl_keyed u ''result'' r) \<and> c_err (comps x1 ! c) = no_error"
proof -
  let ?o = "reply_obj u i (Some r)"
  let ?x = "update_comp c (\<lambda>k. k\<lparr>c_err := timeout_error\<rparr>) x"
  have recv: "doRecv e (?x, frame u ?o) = Done (True, ?x\<lparr>curMsgLen := 0,
      curMsgOff := int (length (ucl_object_emit u ?o)) + 1, curMsgBuf := Some (ucl_object_emit u ?o @ [CHR 0x00])\<rparr>, [])"
    using doRecv_wire [OF assms(2,4), of ?x "[]"] assms(5) by (simp add: update_comp_def)
  have cl: "uclObjIsResponseForId u ?o = i" using assms(9,10) by (intro ucl_laws.classify(1) [OF assms(1)]) auto
  have "frame u ?o \<noteq> []" by (simp add: frame_def)
  then have "awaitReply u e (Suc n) c t (x, frame u ?o) =
      Done (True, completeWith u e c ?o (?x\<lparr>curMsgLen := 0,
        curMsgOff := int (length (ucl_object_emit u ?o)) + 1, curMsgBuf := None\<rparr>, []))"
    using assms(3,4,6,7) recv
    by (simp add: wire_poll_def parseMessage_def c_string_append wire_safe_def cl update_comp_nth)
  then show ?thesis
    using assms(6,8)
    by (simp add: completeWith_def ucl_laws.reply_obj_lookup [OF assms(1)] update_comp_def)
qed

text \<open>C4: a synchronous call from end to end. The request that \<open>sendMessage\<close> writes, once it has
  reached the server and been read there, is dispatched to the service that takes it; the reply that the server writes,
  once it has reached the client, completes the call: \<open>awaitReply\<close> returns true and the completion holds
  the result that the service has given, with no error.\<close>

theorem synchronous_call:
  assumes "ucl_laws u" "0 < i" "i < 2 ^ 31" "CHR 0x00 \<notin> set m" "ucl_object_type u p = UCL_OBJECT"
    and "wire_safe u (request_obj u m p i)" "wire_safe u (reply_obj u i (Some r))"
    and "curMsgLen x = 0" "curMsgLen y = 0" "svcs y = Some l" "length l < n"
    and "offer f l \<lparr>rq_id = i, method_name = m, params = Some (ucl_keyed u ''params'' p),
           rq_result = None, rq_err = no_error\<rparr> [] = (Some 0, q, [])" "rq_id q = i" "rq_result q = Some r"
  shows "let client = service_env fc gc wire_write wire_recv wire_poll (\<lambda>w. (i, w));
      server = service_env f g wire_write wire_recv pl rn;
      (c, x1, sent) = sendMessage u client m p None (x, [])
    in \<exists>y1 back x2. readyForRead u server n (y, sent) = Done (y1, back) \<and>
      awaitReply u client (Suc k) c 2000 (x1, back) = Done (True, x2, []) \<and>
      c_result (comps x2 ! c) = Some (ucl_keyed u ''result'' r) \<and> c_err (comps x2 ! c) = no_error"
proof -
  let ?client = "service_env fc gc wire_write wire_recv wire_poll (\<lambda>w. (i, w))"
  let ?server = "service_env f g wire_write wire_recv pl rn"
  let ?req = "request_obj u m p i" and ?rep = "reply_obj u i (Some r)"
  let ?x1 = "x\<lparr>comps := comps x @ [\<lparr>c_id = i, c_delegate = None, c_err = no_error, c_result = None\<rparr>]\<rparr>"
  let ?y1 = "y\<lparr>curMsgOff := int (length (ucl_object_emit u ?req)) + 1, curMsgBuf := None\<rparr>"
  have send: "sendMessage u ?client m p None (x, []) = (length (comps x), ?x1, frame u ?req)"
    using assms(6) by (subst sendMessage_wire) simp_all
  have "processMessage u ?server n ?req (?y1, []) =
      Done (send_answer u ?server (answer u (Some 0) q) (?y1, []))"
    using services.dispatch_exact [OF assms(1) _ assms(3-5), of ?y1 l n f g wire_write wire_recv pl rn "[]"]
      assms(2,10-12) by simp
  also have "\<dots> = Done (?y1, frame u ?rep)"
    using assms(2,13,14) writeObj_wire [OF _ assms(7), of ?server ?y1 "[]"] by (simp add: send_answer_def answer_def)
  finally have serve: "readyForRead u ?server n (y, frame u ?req) = Done (?y1, frame u ?rep)"
    using readyForRead_wire [OF _ assms(6,9), of ?server n "[]"] by simp
  have "\<exists>x2. awaitReply u ?client (Suc k) (length (comps x)) 2000 (?x1, frame u ?rep) = Done (True, x2, []) \<and>
    c_result (comps x2 ! length (comps x)) = Some (ucl_keyed u ''result'' r) \<and>
    c_err (comps x2 ! length (comps x)) = no_error"
    using assms(2,3,7,8) by (intro awaitReply_wire [OF assms(1)]) simp_all
  with send serve show ?thesis by (auto simp del: awaitReply.simps)
qed

lemma ping_safe: "wire_safe tree_ucl ping"
  using ping_read by (simp add: wire_safe_def ping_text)

abbreviation pong :: utree where
  "pong \<equiv> reply_obj tree_ucl 7 (Some (UNode None (UInt 42)))"

lemma pong_text: "ucl_object_emit tree_ucl pong = ''{\"jsonrpc\":\"2.0\",\"result\":42,\"id\":7}''"
  by (simp add: reply_obj_def Let_def tree_ucl_def ut_insert_def ut_new_def ut_keyed_def c_string_def
      quote_json_def show_int_def show_nat.simps digit_char_def)

lemma pong_read: "ucl_parse tree_ucl (ucl_object_emit tree_ucl pong) = Some pong"
  unfolding pong_text by code_simp

lemma pong_safe: "wire_safe tree_ucl pong"
  using pong_read by (simp add: wire_safe_def pong_text)

theorem synchronous_call_witness:
  "let client = service_env named_service (\<lambda>(_::unit) _ w. w) wire_write wire_recv wire_poll (\<lambda>w. (7, w));
      server = service_env named_service (\<lambda>(_::unit) _ w. w) wire_write wire_recv wire_poll (\<lambda>w. (7, w));
      (c, x1, sent) = sendMessage tree_ucl client ''ping'' (ut_new UCL_OBJECT) None (client_transport, [])
    in \<exists>y1 back x2. readyForRead tree_ucl server 5 (demo_server, sent) = Done (y1, back) \<and>
      awaitReply tree_ucl client 5 c 2000 (x1, back) = Done (True, x2, []) \<and>
      c_result (comps x2 ! c) = Some (ucl_keyed tree_ucl ''result'' (UNode None (UInt 42))) \<and>
      c_err (comps x2 ! c) = no_error"
proof -
  have "ucl_object_type tree_ucl (ut_new UCL_OBJECT) = UCL_OBJECT"
    by (simp add: tree_ucl_def ut_type_def ut_new_def)
  moreover have "svcs demo_server = Some [''bad'', ''ping'']" "curMsgLen demo_server = 0"
    "curMsgLen (client_transport :: (utree, string, unit) WSRPCTransport) = 0"
    by (simp_all add: demo_server_def server_transport_def client_transport_def)
  moreover have "offer named_service [''bad'', ''ping'']
      \<lparr>rq_id = 7, method_name = ''ping'', params = Some (ucl_keyed tree_ucl ''params'' (ut_new UCL_OBJECT)),
       rq_result = None, rq_err = no_error\<rparr> [] =
    (Some 0, \<lparr>rq_id = 7, method_name = ''ping'', params = Some (ucl_keyed tree_ucl ''params'' (ut_new UCL_OBJECT)),
       rq_result = Some (UNode None (UInt 42)), rq_err = no_error\<rparr>, [])"
    by (simp add: named_service_def)
  ultimately show ?thesis
    using synchronous_call [OF tree.ucl_laws_axioms _ _ _ _ ping_safe pong_safe, where x = client_transport and y = demo_server
        and l = "[''bad'', ''ping'']" and n = 5 and f = named_service and k = 4 and fc = named_service
        and gc = "\<lambda>(_::unit) _ w. w" and g = "\<lambda>(_::unit) _ w. w" and pl = wire_poll and rn = "\<lambda>w. (7, w)"]
    by (simp add: numeral_eq_Suc del: awaitReply.simps)
qed

end
