(* ===== verification/Wsrpc_Listener.thy ===== *)
theory Wsrpc_Listener
  imports Wsrpc_Props
begin

text \<open>
  What the operations of a transport and of the listener leave alone, for services that leave the
  transport alone: the descriptor and the list of services. The manager relies on it to keep its
  event loop in step with its clients.
\<close>

section \<open>Frames of the transport\<close>

text \<open>The parts of a transport that reading from it must not change.\<close>

definition anchor :: "('o, 'v, 'd) WSRPCTransport \<Rightarrow> int \<times> 'v list option \<times> bool" where
  "anchor x = (x_fd x, svcs x, ownSvcs x)"

lemma anchor_simps [simp]:
  "anchor (x\<lparr>curMsgLen := a\<rparr>) = anchor x" "anchor (x\<lparr>curMsgOff := b\<rparr>) = anchor x"
  "anchor (x\<lparr>curMsgBuf := c\<rparr>) = anchor x" "anchor (x\<lparr>received := d\<rparr>) = anchor x"
  "anchor (x\<lparr>comps := f\<rparr>) = anchor x" "anchor (x\<lparr>x_faults := g\<rparr>) = anchor x"
  "anchor (x_fault h x) = anchor x" "anchor (update_comp k m x) = anchor x"
  by (simp_all add: anchor_def x_fault_def update_comp_def)

lemma writeObj_anchor: "anchor (fst (snd (writeObj u e ob s))) = anchor (fst s)"
  by (cases s) (auto simp: writeObj_def Let_def split: prod.split)

lemma recv_into_anchor: "recv_into e n (x, w) = (r, x1, w1) \<Longrightarrow> anchor x1 = anchor x"
  by (auto simp: recv_into_def Let_def split: option.splits prod.splits if_splits)

lemma doRecv_anchor: "doRecv e s = Done (b, x1, w1) \<Longrightarrow> anchor x1 = anchor (fst s)"
  by (cases s) (auto simp: doRecv_def Let_def split: prod.splits if_splits dest!: recv_into_anchor)

lemma parseMessage_anchor: "parseMessage u x = (ob, x1) \<Longrightarrow> anchor x1 = anchor x"
  by (auto simp: parseMessage_def split: option.splits if_splits)

lemma sendError_anchor: "anchor (fst (sendError u e i err s)) = anchor (fst s)"
  by (simp add: sendError_def writeObj_anchor)

lemma sendReply_anchor: "anchor (fst (sendReply u e i ob s)) = anchor (fst s)"
  by (simp add: sendReply_def writeObj_anchor)

context quiet_services
begin

lemma completeWith_anchor: "anchor (fst (completeWith u e c ob s)) = anchor (fst s)"
  by (cases s) (auto simp: completeWith_def Let_def invoker split: option.split prod.split)

lemma run_services_anchor:
  "run_services e n k req s = Done (r, q, s1) \<Longrightarrow> anchor (fst s1) = anchor (fst s)"
proof (induction n arbitrary: k req s)
  case (Suc n)
  show ?case
    using Suc.prems Suc.IH
    by (cases s) (fastforce simp: handler Let_def split: option.splits if_splits prod.splits)
qed simp

lemma processMessage_anchor:
  "processMessage u e n ob s = Done s1 \<Longrightarrow> anchor (fst s1) = anchor (fst s)"
  by (auto simp: processMessage_def Let_def completeWith_anchor sendError_anchor sendReply_anchor
      split: if_splits option.splits rpc_run.splits prod.splits dest!: run_services_anchor)

lemma readyForRead_anchor:
  "readyForRead u e n s = Done s1 \<Longrightarrow> anchor (fst s1) = anchor (fst s)"
  by (auto simp: readyForRead_def Let_def split: rpc_run.splits prod.splits bool.splits option.splits
      dest!: doRecv_anchor parseMessage_anchor processMessage_anchor)

lemma doRecv_finishes: "doRecv e s \<noteq> Unfinished"
  by (auto simp: doRecv_def Let_def split: prod.splits if_splits)

lemma processMessage_finishes:
  assumes "svcs (fst s) = Some l" "length l < n"
  shows "processMessage u e n ob s \<noteq> Unfinished"
proof -
  have "run_services e n 0 req (x, w) \<noteq> Unfinished" if "svcs x = Some l" for req x w
    using run_services_exact [OF that, of 0 n req w] assms(2) by (auto split: prod.splits)
  moreover have "svcs (x_fault h (fst s)) = Some l" for h using assms(1) by (simp add: x_fault_def)
  ultimately show ?thesis using assms(1)
    by (cases s) (auto simp: processMessage_def Let_def split: rpc_run.splits option.splits prod.splits if_splits)
qed

lemma readyForRead_finishes:
  assumes "svcs (fst s) = Some l" "length l < n"
  shows "readyForRead u e n s \<noteq> Unfinished"
proof
  assume "readyForRead u e n s = Unfinished"
  then obtain s1 ob x1 where s1: "doRecv e s = Done (True, s1)" "parseMessage u (fst s1) = (Some ob, x1)"
    "processMessage u e n ob (x1\<lparr>curMsgBuf := None\<rparr>, snd s1) = Unfinished"
    using doRecv_finishes [of s]
    by (auto simp: readyForRead_def Let_def split: rpc_run.splits prod.splits bool.splits option.splits)
  then have "anchor x1 = anchor (fst s)"
    using doRecv_anchor [of e s True "fst s1" "snd s1"] parseMessage_anchor [OF s1(2)] by simp
  then have "svcs (fst (x1\<lparr>curMsgBuf := None\<rparr>, snd s1)) = Some l" using assms(1) by (simp add: anchor_def)
  with processMessage_finishes [OF this assms(2)] s1(3) show False by blast
qed

lemma read_clients_finishes:
  assumes "\<forall>x \<in> set xs. \<exists>l. svcs x = Some l \<and> length l < n"
  shows "read_clients u e n fd xs w \<noteq> Unfinished"
  using assms
proof (induction xs arbitrary: w)
  case (Cons x xs)
  then obtain l where "svcs x = Some l" "length l < n" by auto
  then have "readyForRead u e n (x, w) \<noteq> Unfinished" by (intro readyForRead_finishes) simp_all
  with Cons show ?case by (auto split: rpc_run.splits prod.splits)
qed simp

lemma read_clients_anchor:
  "read_clients u e n fd xs w = Done (xs1, w1) \<Longrightarrow> map anchor xs1 = map anchor xs"
proof (induction xs arbitrary: w xs1)
  case (Cons x xs)
  then show ?case
    by (auto split: rpc_run.splits prod.splits if_splits dest!: readyForRead_anchor)
qed simp

end

section \<open>The listener\<close>

text \<open>All clients point to the listener's own list of services.\<close>

definition shares_services :: "('o, 'v, 'd) WSRPCListener \<Rightarrow> bool" where
  "shares_services l \<longleftrightarrow> (\<forall>x \<in> set (clientXprts l). svcs x = Some (l_svcs l) \<and> \<not> ownSvcs x)"

lemma map_anchor:
  assumes "map anchor xs1 = map anchor xs"
  shows "map x_fd xs1 = map x_fd xs" "(\<forall>x \<in> set xs1. svcs x = sv \<and> \<not> ownSvcs x) = (\<forall>x \<in> set xs. svcs x = sv \<and> \<not> ownSvcs x)"
proof -
  show "map x_fd xs1 = map x_fd xs"
    using arg_cong [OF assms, of "map fst"] by (simp add: anchor_def comp_def)
  have "(\<forall>a \<in> set (map anchor xs1). snd a = (sv, False)) = (\<forall>a \<in> set (map anchor xs). snd a = (sv, False))"
    by (simp only: assms)
  then show "(\<forall>x \<in> set xs1. svcs x = sv \<and> \<not> ownSvcs x) = (\<forall>x \<in> set xs. svcs x = sv \<and> \<not> ownSvcs x)"
    by (simp add: anchor_def)
qed

lemma listener_addService_shares:
  "shares_services l \<Longrightarrow> shares_services (listener_addService v l)"
  by (auto simp: shares_services_def listener_addService_def Let_def)

end
