(* ===== verification/Watch_List.thy ===== *)
theory Watch_List
  imports Eci_Prelude
begin

text \<open>
  What \<^verbatim>\<open>hdr/eci/Event.hh\<close> promises about file descriptors, independently of the driver: a
  list of watched descriptors with their handlers, to which \<open>addFD\<close> appends and from which
  \<open>delFD\<close> removes. The drivers interpret the locale; its lemmas are what a client of the loop
  (the manager) relies on.
\<close>

datatype 'h watch_op = Watch "'h option" int int | Unwatch int

text \<open>The abstract watch list, and sequences of calls on it and on an implementation.\<close>

fun spec_watch :: "'h watch_op \<Rightarrow> (int \<times> 'h option) list \<Rightarrow> (int \<times> 'h option) list" where
  "spec_watch (Watch h fd ev) l = l @ [(fd, h)]"
| "spec_watch (Unwatch fd) l = filter (\<lambda>x. fst x \<noteq> fd) l"

fun run_watch ::
  "('h option \<Rightarrow> int \<Rightarrow> int \<Rightarrow> 's \<Rightarrow> int \<times> 's) \<Rightarrow> (int \<Rightarrow> 's \<Rightarrow> int \<times> 's) \<Rightarrow> 'h watch_op list \<Rightarrow> 's \<Rightarrow> 's" where
  "run_watch add del [] s = s"
| "run_watch add del (Watch h fd ev # ops) s = run_watch add del ops (snd (add h fd ev s))"
| "run_watch add del (Unwatch fd # ops) s = run_watch add del ops (snd (del fd s))"

text \<open>
  A sequence is admissible when it never watches a descriptor twice and keeps off the
  descriptors the driver reserves for itself.
\<close>

fun admissible :: "int set \<Rightarrow> (int \<Rightarrow> bool) \<Rightarrow> 'h watch_op list \<Rightarrow> (int \<times> 'h option) list \<Rightarrow> bool" where
  "admissible R U [] l = True"
| "admissible R U (Watch h fd ev # ops) l =
     (fd \<notin> R \<and> U ev \<and> fd \<notin> fst ` set l \<and> admissible R U ops (l @ [(fd, h)]))"
| "admissible R U (Unwatch fd # ops) l =
     (fd \<notin> R \<and> admissible R U ops (filter (\<lambda>x. fst x \<noteq> fd) l))"

text \<open>The values that the calls of a sequence return, as promised and as implemented.\<close>

fun spec_codes :: "'h watch_op list \<Rightarrow> (int \<times> 'h option) list \<Rightarrow> int list" where
  "spec_codes [] l = []"
| "spec_codes (Watch h fd ev # ops) l = 0 # spec_codes ops (l @ [(fd, h)])"
| "spec_codes (Unwatch fd # ops) l =
     (if fd \<in> fst ` set l then 0 else - ENOENT) # spec_codes ops (filter (\<lambda>x. fst x \<noteq> fd) l)"

fun run_codes ::
  "('h option \<Rightarrow> int \<Rightarrow> int \<Rightarrow> 's \<Rightarrow> int \<times> 's) \<Rightarrow> (int \<Rightarrow> 's \<Rightarrow> int \<times> 's) \<Rightarrow> 'h watch_op list \<Rightarrow> 's \<Rightarrow> int list" where
  "run_codes add del [] s = []"
| "run_codes add del (Watch h fd ev # ops) s = fst (add h fd ev s) # run_codes add del ops (snd (add h fd ev s))"
| "run_codes add del (Unwatch fd # ops) s = fst (del fd s) # run_codes add del ops (snd (del fd s))"

lemma admissible_mono:
  assumes "admissible R U ops l" "R' \<subseteq> R" "\<And>ev. U ev \<Longrightarrow> U' ev"
  shows "admissible R' U' ops l"
  using assms(1)
proof (induction ops arbitrary: l)
  case (Cons op ops)
  then show ?case using assms(2,3) by (cases op) auto
qed simp

locale watch_list =
  fixes inv :: "'s \<Rightarrow> bool"
    and reserved :: "'s \<Rightarrow> int set"
    and watched :: "'s \<Rightarrow> (int \<times> 'h option) list"
    and add :: "'h option \<Rightarrow> int \<Rightarrow> int \<Rightarrow> 's \<Rightarrow> int \<times> 's"
    and del :: "int \<Rightarrow> 's \<Rightarrow> int \<times> 's"
    and useful :: "int \<Rightarrow> bool"
  assumes inv_distinct: "inv s \<Longrightarrow> distinct (map fst (watched s))"
    and inv_reserved: "inv s \<Longrightarrow> reserved s \<inter> fst ` set (watched s) = {}"
    and add_ok: "inv s \<Longrightarrow> useful ev \<Longrightarrow> fst (add h fd ev s) = 0"
    and inv_add: "inv s \<Longrightarrow> useful ev \<Longrightarrow> fd \<notin> reserved s \<Longrightarrow> fd \<notin> fst ` set (watched s) \<Longrightarrow>
        inv (snd (add h fd ev s))"
    and reserved_add: "reserved (snd (add h fd ev s)) = reserved s"
    and watched_add: "inv s \<Longrightarrow> useful ev \<Longrightarrow> watched (snd (add h fd ev s)) = watched s @ [(fd, h)]"
    and del_ret: "inv s \<Longrightarrow> fd \<notin> reserved s \<Longrightarrow>
        fst (del fd s) = (if fd \<in> fst ` set (watched s) then 0 else - ENOENT)"
    and inv_del: "inv s \<Longrightarrow> fd \<notin> reserved s \<Longrightarrow> inv (snd (del fd s))"
    and reserved_del: "reserved (snd (del fd s)) = reserved s"
    and watched_del: "inv s \<Longrightarrow> fd \<notin> reserved s \<Longrightarrow>
        watched (snd (del fd s)) = remove_first (\<lambda>x. fst x = fd) (watched s)"
begin

lemma watched_del_filter:
  assumes "inv s" "fd \<notin> reserved s"
  shows "watched (snd (del fd s)) = filter (\<lambda>x. fst x \<noteq> fd) (watched s)"
  using assms by (simp add: watched_del remove_first_distinct [OF inv_distinct])

lemma handler_after_add:
  assumes "inv s" "useful ev" "fd \<notin> fst ` set (watched s)"
  shows "map_of (watched (snd (add h fd ev s))) = (map_of (watched s))(fd \<mapsto> h)"
proof -
  have "map_of (watched s) fd = None"
    using assms(3) by (simp add: map_of_eq_None_iff)
  then show ?thesis using assms(1,2)
    by (auto simp: watched_add map_add_def fun_eq_iff split: option.splits)
qed

lemma handler_after_del:
  assumes "inv s" "fd \<notin> reserved s"
  shows "map_of (watched (snd (del fd s))) = (map_of (watched s))(fd := None)"
  using assms by (simp add: watched_del_filter map_of_filter_neq)

lemma add_del:
  assumes "inv s" "useful ev" "fd \<notin> reserved s" "fd \<notin> fst ` set (watched s)"
  shows "fst (del fd (snd (add h fd ev s))) = 0"
    and "watched (snd (del fd (snd (add h fd ev s)))) = watched s"
proof -
  have i: "inv (snd (add h fd ev s))" using assms by (rule inv_add)
  have r: "fd \<notin> reserved (snd (add h fd ev s))" using assms(3) by (simp add: reserved_add)
  show "fst (del fd (snd (add h fd ev s))) = 0"
    using assms by (simp add: del_ret [OF i r] watched_add)
  have "\<not> (\<exists>x \<in> set (watched s). fst x = fd)" using assms(4) by auto
  then show "watched (snd (del fd (snd (add h fd ev s)))) = watched s"
    using assms by (simp add: watched_del [OF i r] watched_add remove_first_append)
qed

lemma del_twice:
  assumes "inv s" "fd \<notin> reserved s"
  shows "fst (del fd (snd (del fd s))) = - ENOENT"
proof -
  have i: "inv (snd (del fd s))" using assms by (rule inv_del)
  have r: "fd \<notin> reserved (snd (del fd s))" using assms(2) by (simp add: reserved_del)
  show ?thesis using assms by (auto simp: del_ret [OF i r] watched_del_filter)
qed

lemma run_refines:
  assumes "inv s" "admissible (reserved s) useful ops (watched s)"
  shows "inv (run_watch add del ops s) \<and>
    watched (run_watch add del ops s) = fold spec_watch ops (watched s)"
  using assms
proof (induction ops arbitrary: s)
  case (Cons op ops)
  show ?case
  proof (cases op)
    case (Watch h fd ev)
    with Cons show ?thesis by (simp add: inv_add reserved_add watched_add)
  next
    case (Unwatch fd)
    with Cons show ?thesis by (simp add: inv_del reserved_del watched_del_filter)
  qed
qed simp

lemma run_codes_spec:
  assumes "inv s" "admissible (reserved s) useful ops (watched s)"
  shows "run_codes add del ops s = spec_codes ops (watched s)"
  using assms
proof (induction ops arbitrary: s)
  case (Cons op ops)
  show ?case
  proof (cases op)
    case (Watch h fd ev)
    with Cons show ?thesis by (simp add: add_ok inv_add reserved_add watched_add)
  next
    case (Unwatch fd)
    with Cons show ?thesis by (simp add: del_ret inv_del reserved_del watched_del_filter)
  qed
qed simp

end

end
