(* ===== verification/Event_Poll.thy ===== *)
theory Event_Poll
  imports Eci_Core Watch_List
begin

text \<open>
  The \<open>poll\<close>-based event loop of \<^verbatim>\<open>lib/eci/Event-Poll.cc\<close> and \<^verbatim>\<open>hdr/eci/Event.hh\<close>: the watch
  list of file descriptors, the signal sources and the table of timers, the operations that
  register and deregister them, the signal handler, and the dispatch loop.

  \<^item> \<open>EventLoop\<close> is the state: the members of the class, and the file-scope variables of the
    driver (self-pipe, signal flags, timer table), which exist once per process.
  \<^item> System calls are arguments: what they returned. A failing call is the \<open>errno\<close> it left.
  \<^item> Handlers are opaque; what a virtual call does to the loop and to the rest of the world is
    the function \<open>invoke\<close> of the environment, what \<open>poll\<close> reports is its function \<open>pollf\<close>.
    A handler may therefore call every operation of the loop while the loop is dispatching.
  \<^item> The elements of a \<open>std::list\<close> carry the identity of their node, since the loop keeps
    iterators across virtual calls.
  \<^item> Undefined behaviour is logged in \<open>faults\<close> and the operation goes on with what the memory
    holds: \<open>heapJunk\<close> is what lies behind the \<open>pollfd\<close> block, \<open>timersBehind\<close> the cell behind
    the timer table.
  \<^item> Console output is not modelled.
\<close>

section \<open>State\<close>

datatype callback = FdEvent int int | TimerEvent int | SignalEvent int

record pollfd =
  pfd_fd :: int
  pfd_events :: int
  pfd_revents :: int

record TimerEntry =
  te_valid :: bool
  te_fired :: bool
  te_timer :: int

record 'h FDSource =
  fs_node :: nat
  fs_handler :: "'h option"
  fs_fd :: int

record 'h SignalSource =
  ss_node :: nat
  ss_handler :: "'h option"
  ss_sigNum :: int

record 'h TimerSource =
  ts_node :: nat
  ts_handler :: "'h option"
  ts_id :: int

record 'h EventLoop =
  nPFDs :: int
  pFDs :: "pollfd list"
  fdSources :: "'h FDSource list"
  sigSources :: "'h SignalSource list"
  timerSources :: "'h TimerSource list"
  sigPipe :: "int \<times> int"
  pipeBytes :: nat
  signalFired :: bool
  signalsFired :: "bool list"
  timers :: "TimerEntry list"
  timersBehind :: TimerEntry
  posixTimers :: "(int \<times> timespec option) list"
  installed :: "int list"
  errno :: int
  nextNode :: nat
  heapJunk :: pollfd
  faults :: "fault list"

text \<open>The number of entries of the timer table.\<close>

definition NTIMERS :: nat where
  "NTIMERS = 255"

record poll_answer =
  pa_ret :: int
  pa_errno :: int
  pa_revents :: "int list"
  pa_signals :: "(int \<times> int) list"

record ('h, 'w) env =
  invoke :: "'h \<Rightarrow> callback \<Rightarrow> 'h EventLoop \<times> 'w \<Rightarrow> 'h EventLoop \<times> 'w"
  pollf :: "pollfd list \<Rightarrow> int \<Rightarrow> 'w \<Rightarrow> poll_answer \<times> 'w"

definition fault :: "fault \<Rightarrow> 'h EventLoop \<Rightarrow> 'h EventLoop" where
  "fault f st = st\<lparr>faults := faults st @ [f]\<rparr>"

section \<open>The timer table\<close>

definition timer_get :: "int \<Rightarrow> 'h EventLoop \<Rightarrow> TimerEntry" where
  "timer_get i st =
     (if 0 \<le> i \<and> i < int (length (timers st)) then timers st ! nat i else timersBehind st)"

definition timer_set :: "int \<Rightarrow> (TimerEntry \<Rightarrow> TimerEntry) \<Rightarrow> 'h EventLoop \<Rightarrow> 'h EventLoop" where
  "timer_set i f st =
     (if 0 \<le> i \<and> i < int (length (timers st))
      then st\<lparr>timers := (timers st)[nat i := f (timers st ! nat i)]\<rparr>
      else if i = int (length (timers st))
      then fault (OutOfBounds ''timers'' i) (st\<lparr>timersBehind := f (timersBehind st)\<rparr>)
      else fault (OutOfBounds ''timers'' i) st)"

section \<open>The signal handler\<close>

text \<open>
  \<open>sigHandler\<close>: \<open>sival\<close> is \<open>siginfo->si_value.sival_int\<close>, \<open>written\<close> whether the byte could be
  written to the self-pipe. \<open>errno\<close> is restored before the handler returns.
\<close>

definition sigHandler :: "int \<Rightarrow> int \<Rightarrow> bool \<Rightarrow> 'h EventLoop \<Rightarrow> 'h EventLoop" where
  "sigHandler signum sival written st =
     (let st1 = (if signum = SIGALRM then timer_set sival (te_fired_update (\<lambda>_. True)) st else st);
          st2 = st1\<lparr>signalFired := True\<rparr>;
          st3 = st2\<lparr>signalsFired := (signalsFired st2)[nat signum := True]\<rparr>
      in if written then st3\<lparr>pipeBytes := pipeBytes st3 + 1\<rparr> else st3)"

section \<open>Registering\<close>

text \<open>
  \<open>realloc\<close> of the \<open>pollfd\<close> block to \<open>n\<close> entries keeps the old entries that fit; entries beyond
  the old block are uninitialised.
\<close>

definition realloc_pfds :: "nat \<Rightarrow> 'h EventLoop \<Rightarrow> pollfd list" where
  "realloc_pfds n st = take n (pFDs st) @ replicate (n - length (pFDs st)) (heapJunk st)"

definition new_FDSource :: "'h option \<Rightarrow> int \<Rightarrow> 'h EventLoop \<Rightarrow> 'h FDSource" where
  "new_FDSource h fd st = \<lparr>fs_node = nextNode st, fs_handler = h, fs_fd = fd\<rparr>"

definition new_SignalSource :: "'h option \<Rightarrow> int \<Rightarrow> 'h EventLoop \<Rightarrow> 'h SignalSource" where
  "new_SignalSource h sig st = \<lparr>ss_node = nextNode st, ss_handler = h, ss_sigNum = sig\<rparr>"

definition new_TimerSource :: "'h option \<Rightarrow> int \<Rightarrow> 'h EventLoop \<Rightarrow> 'h TimerSource" where
  "new_TimerSource h i st = \<lparr>ts_node = nextNode st, ts_handler = h, ts_id = i\<rparr>"

text \<open>
  \<open>addFD\<close>. The count is incremented inside the call of \<open>realloc\<close>. When the source descriptor
  cannot be allocated the count is taken back, but the member still points to the block that
  \<open>realloc\<close> has replaced.
\<close>

definition addFD :: "bool \<Rightarrow> bool \<Rightarrow> 'h option \<Rightarrow> int \<Rightarrow> int \<Rightarrow> 'h EventLoop \<Rightarrow> int \<times> 'h EventLoop" where
  "addFD realloc_ok alloc_ok handler fd events st =
     (let st1 = st\<lparr>nPFDs := nPFDs st + 1\<rparr>
      in if \<not> realloc_ok then (- ENOMEM, st1\<lparr>nPFDs := nPFDs st1 - 1, errno := ENOMEM\<rparr>)
         else if \<not> alloc_ok then
           (- ENOMEM, fault (Dangling ''pFDs'') (st1\<lparr>nPFDs := nPFDs st1 - 1\<rparr>))
         else
           (let st2 = st1\<lparr>fdSources := fdSources st1 @ [new_FDSource handler fd st1],
                          nextNode := nextNode st1 + 1\<rparr>;
                newPFDs = realloc_pfds (nat (nPFDs st2)) st2;
                st3 = st2\<lparr>pFDs := newPFDs[nat (nPFDs st2 - 1) :=
                        \<lparr>pfd_fd = fd, pfd_events = events, pfd_revents = 0\<rparr>]\<rparr>
            in (0, st3)))"

text \<open>\<open>addSignal\<close>: \<open>sigact\<close> is \<open>None\<close> when \<open>sigaction\<close> succeeded, else its \<open>errno\<close>.\<close>

definition addSignal :: "bool \<Rightarrow> int option \<Rightarrow> 'h option \<Rightarrow> int \<Rightarrow> 'h EventLoop \<Rightarrow> int \<times> 'h EventLoop" where
  "addSignal alloc_ok sigact handler sigNum st =
     (if \<not> alloc_ok then (- ENOMEM, st\<lparr>nPFDs := nPFDs st - 1\<rparr>)
      else
        (let st1 = st\<lparr>sigSources := sigSources st @ [new_SignalSource handler sigNum st],
                      nextNode := nextNode st + 1\<rparr>
         in case sigact of
              Some e \<Rightarrow> (- e, st1\<lparr>sigSources := butlast (sigSources st1), errno := e\<rparr>)
            | None \<Rightarrow> (0, st1\<lparr>installed := installed st1 @ [sigNum]\<rparr>)))"

text \<open>
  The scan of \<open>addTimer\<close> for a free entry, over the indices the code visits: 0 to 255, of which
  the last is not an index of the table.
\<close>

definition free_timer :: "'h EventLoop \<Rightarrow> nat option" where
  "free_timer st = find_index (\<lambda>i. \<not> te_valid (timer_get (int i) st)) [0..<256]"

definition scan_timers :: "'h EventLoop \<Rightarrow> nat option \<times> 'h EventLoop" where
  "scan_timers st =
     (free_timer st,
      if \<forall>i < NTIMERS. te_valid (timer_get (int i) st)
      then fault (OutOfBounds ''timers'' (int NTIMERS)) st else st)"

text \<open>
  \<open>addTimer\<close>: \<open>create\<close> is what \<open>timer_create\<close> returned (\<open>Inr\<close> the timer), \<open>settime\<close> and
  \<open>delete\<close> the \<open>errno\<close> of the two other calls if they failed.
\<close>

definition addTimer ::
  "bool \<Rightarrow> int + int \<Rightarrow> int option \<Rightarrow> int option \<Rightarrow> 'h option \<Rightarrow> timespec \<Rightarrow> 'h EventLoop
     \<Rightarrow> int \<times> 'h EventLoop" where
  "addTimer alloc_ok create settime delete handler ts st0 =
     (let (slot, st) = scan_timers st0
      in case slot of
           None \<Rightarrow> (- E2BIG, st)
         | Some n \<Rightarrow>
             (let entryId = int n
              in if \<not> alloc_ok then (- ENOMEM, st)
                 else
                   (let st1 = st\<lparr>timerSources := timerSources st @ [new_TimerSource handler entryId st],
                                 nextNode := nextNode st + 1\<rparr>
                    in case create of
                         Inl e \<Rightarrow> (- e, st1\<lparr>timerSources := butlast (timerSources st1), errno := e\<rparr>)
                       | Inr tim \<Rightarrow>
                           (let st2 = timer_set entryId (te_timer_update (\<lambda>_. tim))
                                        (st1\<lparr>posixTimers := posixTimers st1 @ [(tim, None)]\<rparr>);
                                st3 = timer_set entryId (te_fired_update (\<lambda>_. False)) st2
                            in case settime of
                                 Some e \<Rightarrow>
                                   (let st4 = st3\<lparr>timerSources := butlast (timerSources st3), errno := e\<rparr>
                                    in case delete of
                                         Some e' \<Rightarrow> (- e, st4\<lparr>errno := e'\<rparr>)
                                       | None \<Rightarrow> (- e, st4\<lparr>posixTimers :=
                                             remove_first (\<lambda>t. fst t = tim) (posixTimers st4)\<rparr>))
                               | None \<Rightarrow>
                                   (let st5 = st3\<lparr>posixTimers :=
                                          map (\<lambda>t. if fst t = tim then (tim, Some ts) else t) (posixTimers st3)\<rparr>
                                    in (entryId, timer_set entryId (te_valid_update (\<lambda>_. True)) st5))))))"

section \<open>Deregistering\<close>

text \<open>
  \<open>memmove(&pFDs[i], &pFDs[i + 1], sizeof(*pFDs) * n)\<close>: the \<open>n\<close> entries from \<open>i + 1\<close> on are
  copied to \<open>i\<close>; an entry read from behind the block is heap junk.
\<close>

definition memmove_pfds :: "nat \<Rightarrow> nat \<Rightarrow> 'h EventLoop \<Rightarrow> pollfd list" where
  "memmove_pfds i n st =
     (let src = take n (drop (i + 1) (pFDs st) @ replicate n (heapJunk st))
      in take i (pFDs st) @ src @ drop (i + n) (pFDs st))"

definition delFD :: "int \<Rightarrow> 'h EventLoop \<Rightarrow> int \<times> 'h EventLoop" where
  "delFD fd st =
     (let st1 = st\<lparr>fdSources := remove_first (\<lambda>s. fs_fd s = fd) (fdSources st)\<rparr>
      in case find_index (\<lambda>p. pfd_fd p = fd) (take (nat (nPFDs st1)) (pFDs st1)) of
           None \<Rightarrow> (- ENOENT, st1)
         | Some i \<Rightarrow>
             (let n = nat (nPFDs st1) - i;
                  st2 = (if i + n < length (pFDs st1) then st1
                         else fault (OutOfBounds ''pFDs'' (int (i + n))) st1)
              in (0, st2\<lparr>pFDs := memmove_pfds i n st2, nPFDs := nPFDs st2 - 1\<rparr>)))"

definition delSignal :: "int \<Rightarrow> 'h EventLoop \<Rightarrow> int \<times> 'h EventLoop" where
  "delSignal sigNum st = (- EBADF, st)"

text \<open>\<open>delTimer\<close>: \<open>delete\<close> is the \<open>errno\<close> of \<open>timer_delete\<close> if it failed.\<close>

definition delTimer :: "int option \<Rightarrow> int \<Rightarrow> 'h EventLoop \<Rightarrow> int \<times> 'h EventLoop" where
  "delTimer delete entryID st =
     (let st1 = st\<lparr>timerSources := remove_first (\<lambda>s. ts_id s = entryID) (timerSources st)\<rparr>;
          st2 = timer_set entryID (te_fired_update (\<lambda>_. False)) st1;
          st3 = timer_set entryID (te_valid_update (\<lambda>_. False)) st2;
          tim = te_timer (timer_get entryID st3);
          st4 = (case delete of
                   None \<Rightarrow> st3\<lparr>posixTimers := remove_first (\<lambda>t. fst t = tim) (posixTimers st3)\<rparr>
                 | Some e \<Rightarrow> st3\<lparr>errno := e\<rparr>);
          st5 = timer_set entryID (te_timer_update (\<lambda>_. 0)) st4
      in (- ENOENT, st5))"

section \<open>Initialisation\<close>

text \<open>
  \<open>init\<close>: \<open>pipe_ret\<close> is what \<open>pipe\<close> returned, \<open>sig_alloc\<close> and \<open>sigact\<close> are the environment of
  the call of \<open>addSignal\<close>, \<open>malloc_err\<close> the \<open>errno\<close> of a failed \<open>malloc\<close>. The loop over the
  timers runs to index 255.
\<close>

definition clear_timers :: "'h EventLoop \<Rightarrow> 'h EventLoop" where
  "clear_timers st = fold (\<lambda>i. timer_set (int i) (te_valid_update (\<lambda>_. False))) [0..<256] st"

definition init ::
  "int + int \<times> int \<Rightarrow> bool \<Rightarrow> int option \<Rightarrow> int option \<Rightarrow> 'h EventLoop \<Rightarrow> int \<times> 'h EventLoop" where
  "init pipe_ret sig_alloc sigact malloc_err st =
     (let st1 = st\<lparr>signalsFired := replicate NSIG False\<rparr>;
          st2 = clear_timers st1
      in case pipe_ret of
           Inl e \<Rightarrow> (- e, st2\<lparr>errno := e\<rparr>)
         | Inr p \<Rightarrow>
             (let (r, st3) = addSignal sig_alloc sigact None SIGALRM (st2\<lparr>sigPipe := p, pipeBytes := 0\<rparr>)
              in if r < 0 then (r, st3)
                 else case malloc_err of
                        Some e \<Rightarrow> (- e, st3\<lparr>pFDs := [], errno := e\<rparr>)
                      | None \<Rightarrow>
                          (0, st3\<lparr>nPFDs := 1,
                                  pFDs := [\<lparr>pfd_fd = fst p, pfd_events = POLLIN, pfd_revents = 0\<rparr>]\<rparr>)))"

text \<open>The state before \<open>init\<close>: static storage is zero, the members are not initialised.\<close>

definition blank_loop :: "'h EventLoop" where
  "blank_loop =
     \<lparr>nPFDs = 0, pFDs = [], fdSources = [], sigSources = [], timerSources = [],
      sigPipe = (0, 0), pipeBytes = 0, signalFired = False, signalsFired = replicate NSIG False,
      timers = replicate NTIMERS \<lparr>te_valid = False, te_fired = False, te_timer = 0\<rparr>,
      timersBehind = \<lparr>te_valid = False, te_fired = False, te_timer = 0\<rparr>,
      posixTimers = [], installed = [], errno = 0, nextNode = 0,
      heapJunk = \<lparr>pfd_fd = 0, pfd_events = 0, pfd_revents = 0\<rparr>, faults = []\<rparr>"


section \<open>The watch list\<close>

text \<open>
  The live entries of the \<open>pollfd\<close> array are the self-pipe followed by one entry for each
  source descriptor, in the same order. \<open>watched\<close> reads the watch list off the sources.
\<close>

definition live_pfds :: "'h EventLoop \<Rightarrow> pollfd list" where
  "live_pfds st = take (nat (nPFDs st)) (pFDs st)"

definition watched :: "'h EventLoop \<Rightarrow> (int \<times> 'h option) list" where
  "watched st = map (\<lambda>s. (fs_fd s, fs_handler s)) (fdSources st)"

definition watch_inv :: "'h EventLoop \<Rightarrow> bool" where
  "watch_inv st \<longleftrightarrow>
     1 \<le> nPFDs st \<and> nPFDs st \<le> int (length (pFDs st)) \<and>
     map pfd_fd (live_pfds st) = fst (sigPipe st) # map fs_fd (fdSources st) \<and>
     distinct (fst (sigPipe st) # map fs_fd (fdSources st))"

definition new_pfd :: "int \<Rightarrow> int \<Rightarrow> pollfd" where
  "new_pfd fd events = \<lparr>pfd_fd = fd, pfd_events = events, pfd_revents = 0\<rparr>"

lemma fault_simps [simp]:
  "nPFDs (fault f st) = nPFDs st" "pFDs (fault f st) = pFDs st"
  "fdSources (fault f st) = fdSources st" "sigSources (fault f st) = sigSources st"
  "timerSources (fault f st) = timerSources st" "sigPipe (fault f st) = sigPipe st"
  "pipeBytes (fault f st) = pipeBytes st" "signalFired (fault f st) = signalFired st"
  "signalsFired (fault f st) = signalsFired st" "timers (fault f st) = timers st"
  "timersBehind (fault f st) = timersBehind st" "posixTimers (fault f st) = posixTimers st"
  "errno (fault f st) = errno st" "heapJunk (fault f st) = heapJunk st"
  "nextNode (fault f st) = nextNode st" "installed (fault f st) = installed st"
  "faults (fault f st) = faults st @ [f]"
  by (simp_all add: fault_def)

lemma realloc_pfds_append:
  assumes "n \<le> length (pFDs st)"
  shows "(realloc_pfds (Suc n) st)[n := x] = take n (pFDs st) @ [x]"
proof (cases "n = length (pFDs st)")
  case True
  then show ?thesis by (simp add: realloc_pfds_def list_update_append)
next
  case False
  with assms have "take (Suc n) (pFDs st) = take n (pFDs st) @ [pFDs st ! n]"
    by (simp add: take_Suc_conv_app_nth)
  with False assms show ?thesis by (simp add: realloc_pfds_def list_update_append)
qed

lemma addFD_live:
  assumes "0 \<le> nPFDs st" "nPFDs st \<le> int (length (pFDs st))"
  shows "live_pfds (snd (addFD True True h fd ev st)) = live_pfds st @ [new_pfd fd ev]"
    and "pFDs (snd (addFD True True h fd ev st)) = live_pfds st @ [new_pfd fd ev]"
proof -
  let ?n = "nat (nPFDs st)"
  have n: "nat (nPFDs st + 1) = Suc ?n" "nPFDs st + 1 - 1 = nPFDs st" using assms by auto
  have l: "?n \<le> length (pFDs st)" using assms by auto
  show p: "pFDs (snd (addFD True True h fd ev st)) = live_pfds st @ [new_pfd fd ev]"
    using realloc_pfds_append [OF l, of "new_pfd fd ev"] n
    by (simp add: addFD_def Let_def live_pfds_def new_pfd_def realloc_pfds_def)
  have "nPFDs (snd (addFD True True h fd ev st)) = nPFDs st + 1"
    by (simp add: addFD_def Let_def)
  with n l show "live_pfds (snd (addFD True True h fd ev st)) = live_pfds st @ [new_pfd fd ev]"
    unfolding live_pfds_def [of "snd (addFD True True h fd ev st)"] p
    by (simp add: live_pfds_def)
qed

lemma memmove_live:
  assumes "i < n" "n \<le> length (pFDs st)"
  shows "take (n - 1) (memmove_pfds i (n - i) st) = take i (pFDs st) @ drop (Suc i) (take n (pFDs st))"
    and "length (memmove_pfds i (n - i) st) = length (pFDs st)"
proof -
  let ?d = "drop (i + 1) (pFDs st)"
  have "take (n - i) (?d @ replicate (n - i) (heapJunk st)) =
          take (n - 1 - i) ?d @ take 1 (drop (n - 1 - i) (?d @ replicate (n - i) (heapJunk st)))"
    using assms take_add [of "n - 1 - i" 1 "?d @ replicate (n - i) (heapJunk st)"]
    by (simp add: Suc_diff_Suc)
  moreover have "take (n - 1 - i) ?d = drop (Suc i) (take n (pFDs st))"
    using assms by (simp add: drop_take)
  ultimately show "take (n - 1) (memmove_pfds i (n - i) st) =
        take i (pFDs st) @ drop (Suc i) (take n (pFDs st))"
    using assms by (simp add: memmove_pfds_def Let_def)
  show "length (memmove_pfds i (n - i) st) = length (pFDs st)"
    using assms by (simp add: memmove_pfds_def Let_def)
qed

lemma memmove_pfds_cong:
  "pFDs st' = pFDs st \<Longrightarrow> heapJunk st' = heapJunk st \<Longrightarrow> memmove_pfds i n st' = memmove_pfds i n st"
  by (simp add: memmove_pfds_def)

lemma delFD_Some:
  assumes "find_index (\<lambda>p. pfd_fd p = fd) (live_pfds st) = Some i"
  shows "fst (delFD fd st) = 0"
    and "nPFDs (snd (delFD fd st)) = nPFDs st - 1"
    and "pFDs (snd (delFD fd st)) = memmove_pfds i (nat (nPFDs st) - i) st"
    and "faults (snd (delFD fd st)) = faults st @
           (if i + (nat (nPFDs st) - i) < length (pFDs st) then []
            else [OutOfBounds ''pFDs'' (int (i + (nat (nPFDs st) - i)))])"
  using assms unfolding live_pfds_def
  by (simp_all add: delFD_def Let_def memmove_pfds_def del: take_append)

lemma delFD_found:
  assumes "nPFDs st \<le> int (length (pFDs st))" "fd \<in> set (map pfd_fd (live_pfds st))"
  shows "fst (delFD fd st) = 0"
    and "live_pfds (snd (delFD fd st)) = remove_first (\<lambda>p. pfd_fd p = fd) (live_pfds st)"
    and "nPFDs (snd (delFD fd st)) = nPFDs st - 1"
    and "length (pFDs (snd (delFD fd st))) = length (pFDs st)"
proof -
  let ?n = "nat (nPFDs st)"
  from assms(2) obtain i where i: "find_index (\<lambda>p. pfd_fd p = fd) (live_pfds st) = Some i"
    by (cases "find_index (\<lambda>p. pfd_fd p = fd) (live_pfds st)") (auto simp: find_index_None)
  have il: "i < ?n" "?n \<le> length (pFDs st)"
    using find_index_Some [OF i] assms(1) by (auto simp: live_pfds_def)
  have n1: "nat (nPFDs st - 1) = ?n - 1" by simp
  show "fst (delFD fd st) = 0" and "nPFDs (snd (delFD fd st)) = nPFDs st - 1"
    by (rule delFD_Some [OF i])+
  show "length (pFDs (snd (delFD fd st))) = length (pFDs st)"
    by (simp add: delFD_Some(3) [OF i] memmove_live(2) [OF il])
  have "live_pfds (snd (delFD fd st)) = take (?n - 1) (memmove_pfds i (?n - i) st)"
    unfolding live_pfds_def [of "snd (delFD fd st)"] delFD_Some(2,3) [OF i] n1 ..
  also have "\<dots> = take i (live_pfds st) @ drop (Suc i) (live_pfds st)"
    using memmove_live(1) [OF il] il by (simp add: live_pfds_def min_def)
  also have "\<dots> = remove_first (\<lambda>p. pfd_fd p = fd) (live_pfds st)"
    by (rule remove_first_find_index [OF i, symmetric])
  finally show "live_pfds (snd (delFD fd st)) = remove_first (\<lambda>p. pfd_fd p = fd) (live_pfds st)" .
qed

lemma delFD_frame [simp]:
  "sigPipe (snd (delFD fd st)) = sigPipe st"
  "fdSources (snd (delFD fd st)) = remove_first (\<lambda>s. fs_fd s = fd) (fdSources st)"
  by (simp_all add: delFD_def Let_def split: option.splits)

lemma delFD_not_found:
  assumes "fd \<notin> set (map pfd_fd (live_pfds st))"
  shows "delFD fd st = (- ENOENT, st\<lparr>fdSources := remove_first (\<lambda>s. fs_fd s = fd) (fdSources st)\<rparr>)"
proof -
  have "find_index (\<lambda>p. pfd_fd p = fd) (take (nat (nPFDs st)) (pFDs st)) = None"
    using assms by (auto simp: live_pfds_def find_index_None)
  then show ?thesis by (simp add: delFD_def Let_def)
qed

lemma addFD_ok_frame [simp]:
  "fst (addFD True True h fd ev st) = 0"
  "nPFDs (snd (addFD True True h fd ev st)) = nPFDs st + 1"
  "sigPipe (snd (addFD True True h fd ev st)) = sigPipe st"
  "fdSources (snd (addFD True True h fd ev st)) =
     fdSources st @ [\<lparr>fs_node = nextNode st, fs_handler = h, fs_fd = fd\<rparr>]"
  "faults (snd (addFD True True h fd ev st)) = faults st"
  by (simp_all add: addFD_def Let_def new_FDSource_def)

lemma watched_fds: "fst ` set (watched st) = set (map fs_fd (fdSources st))"
  by (simp add: watched_def image_image)

lemma watch_invD:
  assumes "watch_inv st"
  shows "1 \<le> nPFDs st" "nPFDs st \<le> int (length (pFDs st))"
    and "map pfd_fd (live_pfds st) = fst (sigPipe st) # map fs_fd (fdSources st)"
    and "distinct (fst (sigPipe st) # map fs_fd (fdSources st))"
  using assms by (simp_all add: watch_inv_def)

lemma addFD_watch_inv:
  assumes "watch_inv st" "fd \<noteq> fst (sigPipe st)" "fd \<notin> fst ` set (watched st)"
  shows "watch_inv (snd (addFD True True h fd ev st))"
proof -
  note i = watch_invD [OF assms(1)]
  have n: "0 \<le> nPFDs st" using i(1) by simp
  note live = addFD_live [OF n i(2), of h fd ev]
  have "length (live_pfds st) = nat (nPFDs st)" using i(1,2) by (simp add: live_pfds_def)
  then show ?thesis using i assms(2,3)
    by (auto simp: watch_inv_def live new_pfd_def watched_fds)
qed

lemma delFD_watch_inv:
  assumes "watch_inv st" "fd \<noteq> fst (sigPipe st)"
  shows "watch_inv (snd (delFD fd st))"
proof (cases "fd \<in> set (map pfd_fd (live_pfds st))")
  case True
  note i = watch_invD [OF assms(1)]
  note d = delFD_found [OF i(2) True]
  have fds: "map pfd_fd (live_pfds (snd (delFD fd st))) =
        fst (sigPipe st) # map fs_fd (fdSources (snd (delFD fd st)))"
    using i(3) assms(2) by (simp add: d(2) map_remove_first_eq)
  have "length (fdSources st) > 0" using True i(3) assms(2) by auto
  moreover have "length (live_pfds st) = Suc (length (fdSources st))"
    using arg_cong [OF i(3), of length] by simp
  ultimately have "2 \<le> nPFDs st" using i(1,2)
    by (cases "fdSources st") (auto simp: live_pfds_def)
  then show ?thesis using i(2,4) fds d(3,4)
    by (auto simp: watch_inv_def map_remove_first_eq distinct_remove_first
          dest: subsetD [OF set_remove_first])
next
  case False
  note i = watch_invD [OF assms(1)]
  have "remove_first (\<lambda>s. fs_fd s = fd) (fdSources st) = fdSources st"
    using False i(3) by (intro remove_first_id) auto
  then show ?thesis using assms(1) by (simp add: delFD_not_found [OF False])
qed

lemma delFD_ret:
  assumes "watch_inv st" "fd \<noteq> fst (sigPipe st)"
  shows "fst (delFD fd st) = (if fd \<in> fst ` set (watched st) then 0 else - ENOENT)"
proof -
  note i = watch_invD [OF assms(1)]
  have "fd \<in> set (map pfd_fd (live_pfds st)) \<longleftrightarrow> fd \<in> fst ` set (watched st)"
    unfolding i(3) using assms(2) by (simp add: watched_fds)
  then show ?thesis
    using delFD_found(1) [OF i(2), of fd] delFD_not_found [of fd st]
    by (cases "fd \<in> set (map pfd_fd (live_pfds st))") auto
qed

interpretation poll_watch: watch_list watch_inv "\<lambda>st. {fst (sigPipe st)}" watched
    "addFD True True" delFD "\<lambda>_. True"
proof unfold_locales
  fix st :: "'h EventLoop" and h :: "'h option" and fd ev :: int
  show "watch_inv st \<Longrightarrow> distinct (map fst (watched st))"
    by (simp add: watch_inv_def watched_def comp_def)
  show "watch_inv st \<Longrightarrow> {fst (sigPipe st)} \<inter> fst ` set (watched st) = {}"
    by (simp add: watch_inv_def watched_fds)
  show "fst (addFD True True h fd ev st) = 0" by simp
  show "watch_inv (snd (addFD True True h fd ev st))"
    if "watch_inv st" "fd \<notin> {fst (sigPipe st)}" "fd \<notin> fst ` set (watched st)"
    using that by (simp add: addFD_watch_inv)
  show "{fst (sigPipe (snd (addFD True True h fd ev st)))} = {fst (sigPipe st)}" by simp
  show "watched (snd (addFD True True h fd ev st)) = watched st @ [(fd, h)]"
    by (simp add: watched_def)
  show "fst (delFD fd st) = (if fd \<in> fst ` set (watched st) then 0 else - ENOENT)"
    if "watch_inv st" "fd \<notin> {fst (sigPipe st)}"
    using that by (simp add: delFD_ret)
  show "watch_inv (snd (delFD fd st))" if "watch_inv st" "fd \<notin> {fst (sigPipe st)}"
    using that by (simp add: delFD_watch_inv)
  show "{fst (sigPipe (snd (delFD fd st)))} = {fst (sigPipe st)}" by simp
  show "watched (snd (delFD fd st)) = remove_first (\<lambda>x. fst x = fd) (watched st)"
    using map_remove_first [of "\<lambda>s. (fs_fd s, fs_handler s)" "\<lambda>x. fst x = fd" "fdSources st"]
    by (simp add: watched_def)
qed

section \<open>The timer table\<close>

text \<open>
  The entries in use are the indices of the timer sources, each once. Node identities are
  fresh when they are handed out.
\<close>

definition timer_inv :: "'h EventLoop \<Rightarrow> bool" where
  "timer_inv st \<longleftrightarrow>
     length (timers st) = NTIMERS \<and>
     distinct (map ts_id (timerSources st)) \<and>
     set (map ts_id (timerSources st)) = {int i |i. i < NTIMERS \<and> te_valid (timers st ! i)} \<and>
     distinct (map ts_node (timerSources st)) \<and>
     (\<forall>s \<in> set (timerSources st). ts_node s < nextNode st)"

lemma timer_set_frame [simp]:
  "nPFDs (timer_set i f st) = nPFDs st" "pFDs (timer_set i f st) = pFDs st"
  "fdSources (timer_set i f st) = fdSources st" "sigSources (timer_set i f st) = sigSources st"
  "timerSources (timer_set i f st) = timerSources st" "sigPipe (timer_set i f st) = sigPipe st"
  "pipeBytes (timer_set i f st) = pipeBytes st" "signalFired (timer_set i f st) = signalFired st"
  "signalsFired (timer_set i f st) = signalsFired st"
  "posixTimers (timer_set i f st) = posixTimers st" "installed (timer_set i f st) = installed st"
  "errno (timer_set i f st) = errno st" "nextNode (timer_set i f st) = nextNode st"
  "heapJunk (timer_set i f st) = heapJunk st"
  "length (timers (timer_set i f st)) = length (timers st)"
  by (simp_all add: timer_set_def)

lemma timer_set_in_range:
  assumes "n < length (timers st)"
  shows "timers (timer_set (int n) f st) = (timers st)[n := f (timers st ! n)]"
    and "timersBehind (timer_set (int n) f st) = timersBehind st"
    and "faults (timer_set (int n) f st) = faults st"
  using assms by (simp_all add: timer_set_def)

lemma timer_get_in_range: "n < length (timers st) \<Longrightarrow> timer_get (int n) st = timers st ! n"
  by (simp add: timer_get_def)

lemma timer_invD:
  assumes "timer_inv st"
  shows "length (timers st) = NTIMERS" "distinct (map ts_id (timerSources st))"
    "set (map ts_id (timerSources st)) = {int i |i. i < NTIMERS \<and> te_valid (timers st ! i)}"
    "distinct (map ts_node (timerSources st))"
    "\<forall>s \<in> set (timerSources st). ts_node s < nextNode st"
  using assms by (simp_all add: timer_inv_def)

lemma scanned_indices: "[0..<256] = [0..<NTIMERS] @ [NTIMERS]"
proof -
  have "[0..<256] = [0..<Suc NTIMERS]" by (simp add: NTIMERS_def)
  then show ?thesis by simp
qed

lemma free_timer_least:
  assumes "length (timers st) = NTIMERS" "i < NTIMERS" "\<not> te_valid (timers st ! i)"
    and "\<forall>j < i. te_valid (timers st ! j)"
  shows "free_timer st = Some i"
proof -
  have split: "[0..<NTIMERS] = [0..<i] @ i # [Suc i..<NTIMERS]"
    using assms(2) upt_add_eq_append [of 0 i "NTIMERS - i"] by (simp add: upt_conv_Cons)
  have "find_index (\<lambda>i. \<not> te_valid (timer_get (int i) st)) [0..<i] = None"
    using assms by (auto simp: find_index_None timer_get_in_range)
  then show ?thesis
    using assms unfolding free_timer_def scanned_indices split
    by (simp add: find_index_append timer_get_in_range)
qed

lemma free_timer_full:
  assumes "length (timers st) = NTIMERS" "\<forall>j < NTIMERS. te_valid (timers st ! j)"
  shows "free_timer st = (if te_valid (timersBehind st) then None else Some NTIMERS)"
proof -
  have "find_index (\<lambda>i. \<not> te_valid (timer_get (int i) st)) [0..<NTIMERS] = None"
    using assms by (auto simp: find_index_None timer_get_in_range)
  moreover have "timer_get (int NTIMERS) st = timersBehind st"
    using assms(1) by (simp add: timer_get_def)
  ultimately show ?thesis
    unfolding free_timer_def scanned_indices by (simp add: find_index_append)
qed

lemma least_free:
  assumes "\<exists>i < NTIMERS. \<not> te_valid (timers st ! i)"
  obtains i where "i < NTIMERS" "\<not> te_valid (timers st ! i)" "\<forall>j < i. te_valid (timers st ! j)"
proof -
  define P where "P i \<longleftrightarrow> i < NTIMERS \<and> \<not> te_valid (timers st ! i)" for i
  from assms have "\<exists>i. P i" by (auto simp: P_def)
  then obtain i where i: "P i" "\<forall>j < i. \<not> P j"
    unfolding exists_least_iff [of P] by blast
  have "\<forall>j < i. te_valid (timers st ! j)"
  proof (intro allI impI)
    fix j assume "j < i"
    with i show "te_valid (timers st ! j)" by (auto simp: P_def dest: less_trans)
  qed
  with i(1) show ?thesis by (intro that [of i]) (simp_all add: P_def)
qed

lemma addTimer_state:
  assumes "length (timers st) = NTIMERS" "i < NTIMERS" "\<not> te_valid (timers st ! i)"
    and "\<forall>j < i. te_valid (timers st ! j)"
  shows "addTimer True (Inr tim) None del h ts st =
    (int i, st\<lparr>timerSources := timerSources st @ [\<lparr>ts_node = nextNode st, ts_handler = h, ts_id = int i\<rparr>],
       nextNode := nextNode st + 1,
       posixTimers := map (\<lambda>t. if fst t = tim then (tim, Some ts) else t) (posixTimers st @ [(tim, None)]),
       timers := (timers st)[i := (timers st ! i)\<lparr>te_timer := tim, te_fired := False, te_valid := True\<rparr>]\<rparr>)"
proof -
  have "\<exists>i < NTIMERS. \<not> te_valid (timer_get (int i) st)"
    using assms(1-3) by (auto simp: timer_get_in_range)
  then have scan: "scan_timers st = (Some i, st)"
    by (simp add: scan_timers_def free_timer_least [OF assms])
  show ?thesis
    using assms(1,2) by (simp add: addTimer_def Let_def scan new_TimerSource_def timer_set_def)
qed

lemma clear_timers_prefix:
  assumes "length (timers st) = NTIMERS" "k \<le> NTIMERS"
  shows "\<exists>ts. length ts = NTIMERS \<and> (\<forall>i < k. \<not> te_valid (ts ! i)) \<and>
    fold (\<lambda>i. timer_set (int i) (te_valid_update (\<lambda>_. False))) [0..<k] st = st\<lparr>timers := ts\<rparr>"
  using assms(2)
proof (induction k)
  case 0
  show ?case using assms(1) by (intro exI [of _ "timers st"]) simp
next
  case (Suc k)
  then obtain ts where ts: "length ts = NTIMERS" "\<forall>i < k. \<not> te_valid (ts ! i)"
    "fold (\<lambda>i. timer_set (int i) (te_valid_update (\<lambda>_. False))) [0..<k] st = st\<lparr>timers := ts\<rparr>"
    by auto
  have "timer_set (int k) (te_valid_update (\<lambda>_. False)) (st\<lparr>timers := ts\<rparr>) =
      st\<lparr>timers := ts[k := (ts ! k)\<lparr>te_valid := False\<rparr>]\<rparr>"
    using Suc.prems ts(1) by (simp add: timer_set_def)
  then show ?case
    using Suc.prems ts by (intro exI [of _ "ts[k := (ts ! k)\<lparr>te_valid := False\<rparr>]"])
      (auto simp: nth_list_update less_Suc_eq)
qed

lemma clear_timers_state:
  assumes "length (timers st) = NTIMERS"
  shows "\<exists>ts. length ts = NTIMERS \<and> (\<forall>i < NTIMERS. \<not> te_valid (ts ! i)) \<and>
    clear_timers st = fault (OutOfBounds ''timers'' (int NTIMERS))
      (st\<lparr>timers := ts, timersBehind := (timersBehind st)\<lparr>te_valid := False\<rparr>\<rparr>)"
proof -
  obtain ts where ts: "length ts = NTIMERS" "\<forall>i < NTIMERS. \<not> te_valid (ts ! i)"
    "fold (\<lambda>i. timer_set (int i) (te_valid_update (\<lambda>_. False))) [0..<NTIMERS] st = st\<lparr>timers := ts\<rparr>"
    using clear_timers_prefix [OF assms order_refl] by blast
  have "clear_timers st = timer_set (int NTIMERS) (te_valid_update (\<lambda>_. False)) (st\<lparr>timers := ts\<rparr>)"
    unfolding clear_timers_def scanned_indices fold_append by (simp add: ts(3))
  then show ?thesis using ts(1,2) by (intro exI [of _ ts]) (simp add: timer_set_def)
qed

lemma init_state:
  assumes "length (timers st) = NTIMERS"
  shows "\<exists>ts. length ts = NTIMERS \<and> (\<forall>i < NTIMERS. \<not> te_valid (ts ! i)) \<and>
    init (Inr p) True None None st =
     (0, st\<lparr>nPFDs := 1, pFDs := [new_pfd (fst p) POLLIN], sigPipe := p, pipeBytes := 0,
            sigSources := sigSources st @ [\<lparr>ss_node = nextNode st, ss_handler = None, ss_sigNum = SIGALRM\<rparr>],
            nextNode := nextNode st + 1, installed := installed st @ [SIGALRM],
            signalsFired := replicate NSIG False, timers := ts,
            timersBehind := (timersBehind st)\<lparr>te_valid := False\<rparr>,
            faults := faults st @ [OutOfBounds ''timers'' (int NTIMERS)]\<rparr>)"
proof -
  let ?st = "st\<lparr>signalsFired := replicate NSIG False\<rparr>"
  obtain ts where ts: "length ts = NTIMERS" "\<forall>i < NTIMERS. \<not> te_valid (ts ! i)"
    "clear_timers ?st = fault (OutOfBounds ''timers'' (int NTIMERS))
      (?st\<lparr>timers := ts, timersBehind := (timersBehind ?st)\<lparr>te_valid := False\<rparr>\<rparr>)"
    using clear_timers_state [of ?st] assms by auto
  then show ?thesis
    by (intro exI [of _ ts])
      (simp add: init_def Let_def addSignal_def new_SignalSource_def new_pfd_def fault_def)
qed

end
