(* ===== verification/Event_Dispatch.thy ===== *)
theory Event_Dispatch
  imports Event_Poll
begin

text \<open>
  \<open>EventLoop::loop\<close> of \<^verbatim>\<open>lib/eci/Event-Poll.cc\<close>: delivery of pending signals and expired
  timers, the call of \<open>poll\<close>, and the dispatch of the descriptors it reports. The \<open>goto\<close>s are
  tail calls, and every loop that a handler may prolong (by registering more sources while it
  runs) takes fuel: \<open>None\<close> is "not finished with this much fuel".
\<close>

section \<open>Virtual calls\<close>

definition call :: "('h, 'w) env \<Rightarrow> 'h option \<Rightarrow> callback \<Rightarrow> 'h EventLoop \<times> 'w \<Rightarrow> 'h EventLoop \<times> 'w" where
  "call e h cb s =
     (case h of Some h' \<Rightarrow> invoke e h' cb s | None \<Rightarrow> (fault NullCall (fst s), snd s))"

text \<open>\<open>timerSources.erase(it)\<close>: the node must still be in the list.\<close>

definition erase_timer :: "nat \<Rightarrow> 'h EventLoop \<Rightarrow> 'h EventLoop" where
  "erase_timer node st =
     (if \<exists>s \<in> set (timerSources st). ts_node s = node
      then st\<lparr>timerSources := remove_first (\<lambda>s. ts_node s = node) (timerSources st)\<rparr>
      else fault (Dangling ''timerSources'') st)"

section \<open>Expired timers\<close>

text \<open>The branch for \<open>SIGALRM\<close>: one entry of the table, then the loop over all of them.\<close>

definition run_timer :: "('h, 'w) env \<Rightarrow> int \<Rightarrow> 'h EventLoop \<times> 'w \<Rightarrow> 'h EventLoop \<times> 'w" where
  "run_timer e timID s =
     (let (st, w) = s
      in if te_valid (timer_get timID st) \<and> te_fired (timer_get timID st) then
           (let st1 = timer_set timID (\<lambda>t. t\<lparr>te_fired := False, te_valid := False, te_timer := 0\<rparr>) st
            in case find (\<lambda>src. ts_id src = timID) (timerSources st1) of
                 None \<Rightarrow> (st1, w)
               | Some src \<Rightarrow>
                   (let (st2, w2) = call e (ts_handler src) (TimerEvent timID) (st1, w)
                    in (erase_timer (ts_node src) st2, w2)))
         else s)"

definition run_timers :: "('h, 'w) env \<Rightarrow> 'h EventLoop \<times> 'w \<Rightarrow> 'h EventLoop \<times> 'w" where
  "run_timers e s = fold (\<lambda>i. run_timer e (int i)) [0..<NTIMERS] s"

section \<open>Signals\<close>

text \<open>The sources of signal \<open>i\<close>, from position \<open>k\<close> of the list on; all that match are called.\<close>

fun run_sources ::
  "('h, 'w) env \<Rightarrow> nat \<Rightarrow> nat \<Rightarrow> int \<Rightarrow> 'h EventLoop \<times> 'w \<Rightarrow> ('h EventLoop \<times> 'w) option" where
  "run_sources e 0 k i s = None"
| "run_sources e (Suc n) k i s =
     (if k < length (sigSources (fst s)) then
        (let src = sigSources (fst s) ! k
         in if ss_sigNum src = i
            then run_sources e n (Suc k) i (call e (ss_handler src) (SignalEvent i) s)
            else run_sources e n (Suc k) i s)
      else Some s)"

fun run_signals ::
  "('h, 'w) env \<Rightarrow> nat \<Rightarrow> nat list \<Rightarrow> 'h EventLoop \<times> 'w \<Rightarrow> ('h EventLoop \<times> 'w) option" where
  "run_signals e n [] s = Some s"
| "run_signals e n (i # is) s =
     (if signalsFired (fst s) ! i then
        (let s1 = ((fst s)\<lparr>signalsFired := (signalsFired (fst s))[i := False]\<rparr>, snd s)
         in if int i = SIGALRM then run_signals e n is (run_timers e s1)
            else case run_sources e n 0 (int i) s1 of
                   None \<Rightarrow> None
                 | Some s2 \<Rightarrow> run_signals e n is s2)
      else run_signals e n is s)"

section \<open>Polling\<close>

text \<open>
  A call of \<open>poll\<close> on the first \<open>nPFDs\<close> entries. Signals that arrive while it waits run the
  handler first; a call that does not fail stores the events of every entry.
\<close>

definition set_revents :: "int list \<Rightarrow> nat \<Rightarrow> pollfd list \<Rightarrow> pollfd list" where
  "set_revents rs n ps =
     map (\<lambda>(i, p). if i < n then p\<lparr>pfd_revents := (if i < length rs then rs ! i else 0)\<rparr> else p)
       (enumerate 0 ps)"

definition do_poll :: "('h, 'w) env \<Rightarrow> timespec option \<Rightarrow> 'h EventLoop \<times> 'w \<Rightarrow> int \<times> 'h EventLoop \<times> 'w" where
  "do_poll e ts s =
     (let (st, w) = s;
          (a, w1) = pollf e (take (nat (nPFDs st)) (pFDs st)) (timeSpecToMSecs ts) w;
          st1 = fold (\<lambda>(sig, v). sigHandler sig v True) (pa_signals a) st
      in if pa_ret a = -1 then (-1, st1\<lparr>errno := pa_errno a\<rparr>, w1)
         else (pa_ret a, st1\<lparr>pFDs := set_revents (pa_revents a) (nat (nPFDs st1)) (pFDs st1)\<rparr>, w1))"

text \<open>From the label \<open>runpoll\<close> to the check of the self-pipe: an interrupted poll is repeated.\<close>

fun run_poll ::
  "('h, 'w) env \<Rightarrow> nat \<Rightarrow> timespec option \<Rightarrow> bool \<Rightarrow> int \<Rightarrow> 'h EventLoop \<times> 'w
     \<Rightarrow> (int \<times> 'h EventLoop \<times> 'w) option" where
  "run_poll e 0 ts haveRunPoll r s = None"
| "run_poll e (Suc n) ts haveRunPoll r s =
     (let (r1, s1) = (if \<not> haveRunPoll then do_poll e ts s else (r, s))
      in if r1 = -1 \<and> errno (fst s1) = EINTR then run_poll e n ts False r1 s1
         else Some (r1, s1))"

section \<open>Descriptors\<close>

definition clear_revents :: "nat \<Rightarrow> 'h EventLoop \<Rightarrow> 'h EventLoop" where
  "clear_revents i st =
     (if i < length (pFDs st)
      then st\<lparr>pFDs := (pFDs st)[i := (pFDs st ! i)\<lparr>pfd_revents := 0\<rparr>]\<rparr>
      else fault (OutOfBounds ''pFDs'' (int i)) st)"

definition pfd_get :: "nat \<Rightarrow> 'h EventLoop \<Rightarrow> pollfd" where
  "pfd_get i st = (if i < length (pFDs st) then pFDs st ! i else heapJunk st)"

text \<open>
  The loop over the entries from \<open>i\<close> on. The bound is read anew in every round, the entry is
  cleared by its index after the handler has returned.
\<close>

fun run_fds :: "('h, 'w) env \<Rightarrow> nat \<Rightarrow> nat \<Rightarrow> 'h EventLoop \<times> 'w \<Rightarrow> ('h EventLoop \<times> 'w) option" where
  "run_fds e 0 i s = None"
| "run_fds e (Suc n) i s =
     (if int i < nPFDs (fst s) then
        (let p = pfd_get i (fst s)
         in if pfd_revents p \<noteq> 0 then
              (let s1 = (case find (\<lambda>src. fs_fd src = pfd_fd p) (fdSources (fst s)) of
                           Some src \<Rightarrow> call e (fs_handler src) (FdEvent (pfd_fd p) (pfd_revents p)) s
                         | None \<Rightarrow> s)
               in run_fds e n (Suc i) (clear_revents i (fst s1), snd s1))
            else run_fds e n (Suc i) s)
      else Some s)"

section \<open>One iteration of the event loop\<close>

text \<open>
  \<open>loop_from\<close> is the code from the label \<open>sigfired\<close> on. The assertion on the self-pipe's entry
  assigns \<open>POLLIN\<close> to it, which is not zero, so it holds; the entry is cleared after it.
\<close>

definition pipe_event :: "'h EventLoop \<Rightarrow> 'h EventLoop" where
  "pipe_event st =
     (if pfd_revents (pfd_get 0 st) \<noteq> 0 then clear_revents 0 st else st)"

fun loop_from ::
  "('h, 'w) env \<Rightarrow> nat \<Rightarrow> timespec option \<Rightarrow> bool \<Rightarrow> int \<Rightarrow> 'h EventLoop \<times> 'w
     \<Rightarrow> (int \<times> 'h EventLoop \<times> 'w) option" where
  "loop_from e 0 ts haveRunPoll r s = None"
| "loop_from e (Suc n) ts haveRunPoll r s =
     (let oldSigFired = signalFired (fst s);
          s1 = ((fst s)\<lparr>signalFired := False\<rparr>, snd s)
      in case (if oldSigFired then run_signals e n [0..<NSIG] s1 else Some s1) of
           None \<Rightarrow> None
         | Some s2 \<Rightarrow>
             (case run_poll e n ts haveRunPoll r s2 of
                None \<Rightarrow> None
              | Some (r3, s3) \<Rightarrow>
                  (case run_fds e n 1 (pipe_event (fst s3), snd s3) of
                     None \<Rightarrow> None
                   | Some s4 \<Rightarrow>
                       if signalFired (fst s4) then loop_from e n ts True r3 s4
                       else Some (r3, s4))))"

definition loop ::
  "('h, 'w) env \<Rightarrow> nat \<Rightarrow> timespec option \<Rightarrow> 'h EventLoop \<times> 'w \<Rightarrow> (int \<times> 'h EventLoop \<times> 'w) option" where
  "loop e fuel ts s = loop_from e fuel ts False 0 s"

section \<open>The handlers of the base class\<close>

text \<open>\<open>Handler::fdEvent\<close>, \<open>timerEvent\<close> and \<open>signalEvent\<close> of \<^verbatim>\<open>Event.hh\<close> only print. The world is
  the text printed so far.\<close>

fun default_text :: "callback \<Rightarrow> string" where
  "default_text (FdEvent fd revents) =
     ''FD event! '' @ show_int fd @ '':'' @ show_int revents @ [CHR 0x0A]"
| "default_text (TimerEvent i) = ''Timer event! '' @ show_int i @ [CHR 0x0A]"
| "default_text (SignalEvent i) = ''Signal event! '' @ show_int i @ [CHR 0x0A]"

definition default_invoke :: "'h \<Rightarrow> callback \<Rightarrow> 'h EventLoop \<times> string \<Rightarrow> 'h EventLoop \<times> string" where
  "default_invoke h cb s = (fst s, snd s @ default_text cb)"

section \<open>Handlers that leave the loop alone\<close>

text \<open>
  The contract under which dispatch is exact: a virtual call changes the world (by \<open>act\<close>) and
  not the loop it is called from.
\<close>

text \<open>The calls that entries \<open>ps\<close> give rise to, and the entries afterwards.\<close>

definition fd_call :: "'h FDSource list \<Rightarrow> pollfd \<Rightarrow> ('h \<times> callback) list" where
  "fd_call srcs p =
     (if pfd_revents p = 0 then []
      else case find (\<lambda>src. fs_fd src = pfd_fd p) srcs of
             None \<Rightarrow> []
           | Some src \<Rightarrow> (case fs_handler src of
                            None \<Rightarrow> []
                          | Some h \<Rightarrow> [(h, FdEvent (pfd_fd p) (pfd_revents p))]))"

definition cleared :: "pollfd \<Rightarrow> pollfd" where
  "cleared p = p\<lparr>pfd_revents := 0\<rparr>"

definition timer_call :: "'h EventLoop \<Rightarrow> nat \<Rightarrow> ('h \<times> callback) list" where
  "timer_call st i =
     (if te_valid (timers st ! i) \<and> te_fired (timers st ! i)
      then case find (\<lambda>src. ts_id src = int i) (timerSources st) of
             None \<Rightarrow> []
           | Some src \<Rightarrow> (case ts_handler src of None \<Rightarrow> [] | Some h \<Rightarrow> [(h, TimerEvent (int i))])
      else [])"

definition expired :: "'h EventLoop \<Rightarrow> nat \<Rightarrow> bool" where
  "expired st i \<longleftrightarrow> te_valid (timers st ! i) \<and> te_fired (timers st ! i)"

definition spent :: "TimerEntry \<Rightarrow> TimerEntry" where
  "spent t = t\<lparr>te_fired := False, te_valid := False, te_timer := 0\<rparr>"

text \<open>The state after the first \<open>k\<close> entries of the timer table have been served.\<close>

definition served :: "nat \<Rightarrow> 'h EventLoop \<Rightarrow> 'h EventLoop" where
  "served k st =
     st\<lparr>timers := map (\<lambda>j. if j < k \<and> expired st j then spent (timers st ! j) else timers st ! j)
                   [0..<length (timers st)],
        timerSources := filter (\<lambda>s. \<not> (\<exists>j < k. expired st j \<and> ts_id s = int j)) (timerSources st)\<rparr>"

lemma filter_find_other:
  assumes "\<And>x. P x \<Longrightarrow> Q x"
  shows "find P (filter Q xs) = find P xs"
  using assms by (induction xs) auto

lemma served_0: "served 0 st = st"
  by (simp add: served_def map_nth)

lemma served_nth:
  assumes "j < length (timers st)"
  shows "timers (served k st) ! j = (if j < k \<and> expired st j then spent (timers st ! j) else timers st ! j)"
  using assms by (simp add: served_def)

lemma served_length: "length (timers (served k st)) = length (timers st)"
  by (simp add: served_def)

lemma served_entry:
  assumes "k < length (timers st)"
  shows "timers (served k st) ! k = timers st ! k"
    and "timer_get (int k) (served k st) = timers st ! k"
    and "find (\<lambda>src. ts_id src = int k) (timerSources (served k st)) =
           find (\<lambda>src. ts_id src = int k) (timerSources st)"
  using assms by (auto simp: served_def timer_get_def intro!: filter_find_other)

lemma served_Suc_expired:
  assumes "k < length (timers st)" "expired st k"
  shows "served (Suc k) st = (served k st)\<lparr>timers := (timers (served k st))[k := spent (timers st ! k)],
      timerSources := filter (\<lambda>s. ts_id s \<noteq> int k) (timerSources (served k st))\<rparr>"
proof -
  have "map (\<lambda>j. if j < Suc k \<and> expired st j then spent (timers st ! j) else timers st ! j)
          [0..<length (timers st)] =
        (map (\<lambda>j. if j < k \<and> expired st j then spent (timers st ! j) else timers st ! j)
          [0..<length (timers st)])[k := spent (timers st ! k)]"
    using assms by (intro nth_equalityI) (auto simp: nth_list_update less_Suc_eq)
  moreover have "filter (\<lambda>s. \<not> (\<exists>j < Suc k. expired st j \<and> ts_id s = int j)) (timerSources st) =
      filter (\<lambda>s. ts_id s \<noteq> int k)
        (filter (\<lambda>s. \<not> (\<exists>j < k. expired st j \<and> ts_id s = int j)) (timerSources st))"
    using assms(2) by (auto simp: less_Suc_eq intro!: filter_cong)
  ultimately show ?thesis by (simp add: served_def)
qed

lemma served_Suc_not_expired:
  assumes "\<not> expired st k"
  shows "served (Suc k) st = served k st"
proof -
  have entries: "(j < Suc k \<and> expired st j) = (j < k \<and> expired st j)" for j
    using assms by (auto simp: less_Suc_eq)
  then have sources: "(\<exists>j < Suc k. expired st j \<and> ts_id s = int j) =
      (\<exists>j < k. expired st j \<and> ts_id s = int j)" for s :: "'a TimerSource"
    by blast
  show ?thesis unfolding served_def by (simp only: entries sources)
qed

lemma served_inv:
  assumes "timer_inv st" "k \<le> NTIMERS"
  shows "timer_inv (served k st)"
proof -
  note i = timer_invD [OF assms(1)]
  let ?A = "{int j |j. j < k \<and> expired st j}"
  have "timerSources (served k st) = filter (\<lambda>s. ts_id s \<notin> ?A) (timerSources st)"
    by (auto simp: served_def intro!: filter_cong)
  then have "set (map ts_id (timerSources (served k st))) =
      {int j |j. j < NTIMERS \<and> te_valid (timers st ! j)} - ?A"
    using set_map_filter_notin [of ts_id ?A "timerSources st"] i(3) by simp
  also have "\<dots> = {int j |j. j < NTIMERS \<and> te_valid (timers (served k st) ! j)}"
    using i(1) assms(2) by (auto simp: served_nth expired_def spent_def split: if_splits)
  finally show ?thesis using i
    by (auto simp: timer_inv_def served_length) (auto simp: served_def distinct_map_filter)
qed

lemma expired_source:
  assumes "timer_inv st" "k < NTIMERS" "expired st k"
  obtains src where "find (\<lambda>src. ts_id src = int k) (timerSources st) = Some src"
proof (cases "find (\<lambda>src. ts_id src = int k) (timerSources st)")
  case None
  have "int k \<in> set (map ts_id (timerSources st))"
    unfolding timer_invD(3) [OF assms(1)] using assms(2,3) by (auto simp: expired_def)
  with None show ?thesis by (auto simp: find_NoneD)
qed (rule that)

lemma serve_one:
  assumes "timer_inv st" "k < NTIMERS" "expired st k"
    and "find (\<lambda>src. ts_id src = int k) (timerSources st) = Some src"
  shows "erase_timer (ts_node src)
      (timer_set (int k) (\<lambda>t. t\<lparr>te_fired := False, te_valid := False, te_timer := 0\<rparr>) (served k st)) =
    served (Suc k) st"
proof -
  let ?s = "served k st"
  have k: "k < length (timers st)" using timer_invD(1) [OF assms(1)] assms(2) by simp
  have inv: "timer_inv ?s" using assms(1,2) by (intro served_inv) auto
  note nodes = timer_invD(4) [OF inv] and ids = timer_invD(2) [OF inv]
  have src: "src \<in> set (timerSources ?s)" "ts_id src = int k"
    using find_SomeD [of _ "timerSources ?s" src] assms(4) served_entry(3) [OF k] by auto
  have same: "ts_node x = ts_node src \<longleftrightarrow> ts_id x = int k" if "x \<in> set (timerSources ?s)" for x
    using inj_on_eq_iff [of ts_node "set (timerSources ?s)" x src]
      inj_on_eq_iff [of ts_id "set (timerSources ?s)" x src] that src nodes ids
    by (simp add: distinct_map)
  have "remove_first (\<lambda>s. ts_node s = ts_node src) (timerSources ?s) =
      filter (\<lambda>s. ts_id s \<noteq> int k) (timerSources ?s)"
    unfolding remove_first_distinct [OF nodes] using same by (intro filter_cong) auto
  moreover have "timer_set (int k) (\<lambda>t. t\<lparr>te_fired := False, te_valid := False, te_timer := 0\<rparr>) ?s =
      ?s\<lparr>timers := (timers ?s)[k := spent (timers st ! k)]\<rparr>"
    using k by (simp add: timer_set_def served_length served_entry(1) spent_def)
  moreover have "\<exists>s \<in> set (timerSources ?s). ts_node s = ts_node src" using src(1) by auto
  ultimately show ?thesis
    by (simp add: erase_timer_def served_Suc_expired [OF k assms(3)])
qed

text \<open>The calls for a pending signal, and the state after its delivery.\<close>

definition source_call :: "int \<Rightarrow> 'h SignalSource \<Rightarrow> ('h \<times> callback) list" where
  "source_call i src =
     (if ss_sigNum src = i
      then (case ss_handler src of None \<Rightarrow> [] | Some h \<Rightarrow> [(h, SignalEvent i)]) else [])"

definition signal_calls :: "'h EventLoop \<Rightarrow> nat \<Rightarrow> ('h \<times> callback) list" where
  "signal_calls st i =
     (if \<not> signalsFired st ! i then []
      else if int i = SIGALRM then concat (map (timer_call st) [0..<NTIMERS])
      else concat (map (source_call (int i)) (sigSources st)))"

definition deliver :: "nat \<Rightarrow> 'h EventLoop \<Rightarrow> 'h EventLoop" where
  "deliver i st =
     (if signalsFired st ! i
      then (let st1 = st\<lparr>signalsFired := (signalsFired st)[i := False]\<rparr>
            in if int i = SIGALRM then served NTIMERS st1 else st1)
      else st)"

text \<open>The calls for all pending signals, and the state in which \<open>poll\<close> is then entered.\<close>

definition pending_calls :: "'h EventLoop \<Rightarrow> ('h \<times> callback) list" where
  "pending_calls st = (if signalFired st then concat (map (signal_calls st) [0..<NSIG]) else [])"

definition delivered :: "'h EventLoop \<Rightarrow> 'h EventLoop" where
  "delivered st =
     (let st1 = st\<lparr>signalFired := False\<rparr>
      in if signalFired st then fold deliver [0..<NSIG] st1 else st1)"

text \<open>No source has a null handler, except those of \<open>SIGALRM\<close>, whose sources are never called.\<close>

definition handlers_set :: "'h EventLoop \<Rightarrow> bool" where
  "handlers_set st \<longleftrightarrow>
     (\<forall>s \<in> set (fdSources st). fs_handler s \<noteq> None) \<and>
     (\<forall>s \<in> set (timerSources st). ts_handler s \<noteq> None) \<and>
     (\<forall>s \<in> set (sigSources st). ss_sigNum s \<noteq> SIGALRM \<longrightarrow> ss_handler s \<noteq> None)"

lemma served_frame [simp]:
  "nPFDs (served k st) = nPFDs st" "pFDs (served k st) = pFDs st"
  "fdSources (served k st) = fdSources st" "sigSources (served k st) = sigSources st"
  "sigPipe (served k st) = sigPipe st" "pipeBytes (served k st) = pipeBytes st"
  "signalFired (served k st) = signalFired st" "signalsFired (served k st) = signalsFired st"
  "faults (served k st) = faults st" "nextNode (served k st) = nextNode st"
  "errno (served k st) = errno st"
  by (simp_all add: served_def)

lemma deliver_frame [simp]:
  "nPFDs (deliver i st) = nPFDs st" "pFDs (deliver i st) = pFDs st"
  "fdSources (deliver i st) = fdSources st" "sigSources (deliver i st) = sigSources st"
  "sigPipe (deliver i st) = sigPipe st" "pipeBytes (deliver i st) = pipeBytes st"
  "signalFired (deliver i st) = signalFired st" "faults (deliver i st) = faults st"
  "length (signalsFired (deliver i st)) = length (signalsFired st)"
  by (simp_all add: deliver_def Let_def)

lemma fold_deliver_frame [simp]:
  "nPFDs (fold deliver is st) = nPFDs st" "pFDs (fold deliver is st) = pFDs st"
  "fdSources (fold deliver is st) = fdSources st" "sigSources (fold deliver is st) = sigSources st"
  "sigPipe (fold deliver is st) = sigPipe st" "pipeBytes (fold deliver is st) = pipeBytes st"
  "signalFired (fold deliver is st) = signalFired st" "faults (fold deliver is st) = faults st"
  by (induction "is" arbitrary: st) simp_all

lemma delivered_frame [simp]:
  "nPFDs (delivered st) = nPFDs st" "pFDs (delivered st) = pFDs st"
  "fdSources (delivered st) = fdSources st" "sigSources (delivered st) = sigSources st"
  "sigPipe (delivered st) = sigPipe st" "pipeBytes (delivered st) = pipeBytes st"
  "\<not> signalFired (delivered st)" "faults (delivered st) = faults st"
  by (simp_all add: delivered_def Let_def)

lemma timer_call_flag [simp]: "timer_call (st\<lparr>signalFired := b\<rparr>) = timer_call st"
  by (simp add: timer_call_def fun_eq_iff)

lemma signal_calls_flag [simp]: "signal_calls (st\<lparr>signalFired := b\<rparr>) = signal_calls st"
  by (simp add: signal_calls_def fun_eq_iff)

lemma timer_inv_flag [simp]: "timer_inv (st\<lparr>signalFired := b\<rparr>) = timer_inv st"
  by (simp add: timer_inv_def)

lemma handlers_set_flag [simp]: "handlers_set (st\<lparr>signalFired := b\<rparr>) = handlers_set st"
  by (simp add: handlers_set_def)

lemma timer_inv_signals [simp]: "timer_inv (st\<lparr>signalsFired := x\<rparr>) = timer_inv st"
  by (simp add: timer_inv_def)

lemma deliver_inv: "timer_inv st \<Longrightarrow> timer_inv (deliver i st)"
  by (simp add: deliver_def Let_def served_inv)

lemma deliver_handlers: "handlers_set st \<Longrightarrow> handlers_set (deliver i st)"
  by (auto simp: deliver_def Let_def handlers_set_def served_def)

lemma timer_call_signals [simp]: "timer_call (st\<lparr>signalsFired := x\<rparr>) = timer_call st"
  by (simp add: timer_call_def fun_eq_iff)

lemma signal_calls_deliver: "i \<noteq> j \<Longrightarrow> signal_calls (deliver i st) j = signal_calls st j"
  by (auto simp: signal_calls_def deliver_def Let_def)

lemma nth_deliver:
  "j < length (signalsFired st) \<Longrightarrow> signalsFired (deliver i st) ! j = (signalsFired st ! j \<and> i \<noteq> j)"
  by (cases "i = j") (simp_all add: deliver_def Let_def)

text \<open>The calls that the events reported for the sources give rise to.\<close>

definition event_calls :: "'h FDSource list \<Rightarrow> int list \<Rightarrow> ('h \<times> callback) list" where
  "event_calls srcs rs =
     concat (map2 (\<lambda>src r. if r = 0 then [] else
       (case fs_handler src of None \<Rightarrow> [] | Some h \<Rightarrow> [(h, FdEvent (fs_fd src) r)])) srcs rs)"

lemma set_revents_split:
  assumes "length rs = n" "n \<le> length ps"
  shows "set_revents rs n ps = map2 (\<lambda>r p. p\<lparr>pfd_revents := r\<rparr>) rs (take n ps) @ drop n ps"
  using assms by (intro nth_equalityI) (auto simp: set_revents_def nth_append nth_enumerate_eq)

lemma fd_calls_of_events:
  assumes "distinct (map fs_fd srcs)" "set srcs' \<subseteq> set srcs"
    and "map pfd_fd ps = map fs_fd srcs'" "length rs = length ps"
  shows "concat (map (fd_call srcs) (map2 (\<lambda>r p. p\<lparr>pfd_revents := r\<rparr>) rs ps)) = event_calls srcs' rs"
  using assms(2-)
proof (induction srcs' arbitrary: ps rs)
  case Nil
  then show ?case by (simp add: event_calls_def)
next
  case (Cons src srcs')
  then obtain p ps' r rs' where eq: "ps = p # ps'" "rs = r # rs'"
    by (cases ps; cases rs) auto
  have "find (\<lambda>y. fs_fd y = fs_fd src) srcs = Some src"
    using Cons.prems(1) by (intro find_distinct [OF assms(1)]) simp
  moreover have "pfd_fd p = fs_fd src" using Cons.prems(2) eq by simp
  ultimately have "fd_call srcs (p\<lparr>pfd_revents := r\<rparr>) = (if r = 0 then [] else
       (case fs_handler src of None \<Rightarrow> [] | Some h \<Rightarrow> [(h, FdEvent (fs_fd src) r)]))"
    by (simp add: fd_call_def split: option.split)
  with Cons eq show ?case by (simp add: event_calls_def)
qed

lemma clear_revents_state:
  "i < length (pFDs st) \<Longrightarrow> clear_revents i st = st\<lparr>pFDs := (pFDs st)[i := cleared (pFDs st ! i)]\<rparr>"
  by (simp add: clear_revents_def cleared_def)

lemma pipe_event_state:
  assumes "pFDs st = p # ps"
  shows "pipe_event st = st\<lparr>pFDs := cleared p # ps\<rparr>"
proof (cases "pfd_revents p = 0")
  case True
  then have "cleared p = p" by (cases p) (simp add: cleared_def)
  with True assms show ?thesis by (cases st) (simp add: pipe_event_def pfd_get_def)
next
  case False
  with assms show ?thesis by (simp add: pipe_event_def pfd_get_def clear_revents_state)
qed

text \<open>The entries after \<open>poll\<close> has reported the events \<open>rs\<close> and that of the self-pipe has been cleared.\<close>

lemma polled_entries:
  fixes st st' :: "'h EventLoop"
  assumes "watch_inv st" "pFDs st' = set_revents rs (nat (nPFDs st)) (pFDs st)"
    and "length rs = nat (nPFDs st)"
  defines "ps \<equiv> pFDs (pipe_event st')" and "n \<equiv> nat (nPFDs st)"
  shows "pipe_event st' = st'\<lparr>pFDs := ps\<rparr>" "length ps = length (pFDs st)" "drop n ps = drop n (pFDs st)"
    and "take 1 ps @ map cleared (drop 1 (take n ps)) = map cleared (live_pfds st)"
    and "concat (map (fd_call (fdSources st)) (drop 1 (take n ps))) = event_calls (fdSources st) (tl rs)"
proof -
  note inv = watch_invD [OF assms(1)]
  have n: "n \<le> length (pFDs st)" "0 < n" using inv(1,2) by (auto simp: n_def)
  obtain p qs where live: "live_pfds st = p # qs" and fds: "map pfd_fd qs = map fs_fd (fdSources st)"
    using inv(3) by (cases "live_pfds st") auto
  obtain r rs' where rs: "rs = r # rs'" using assms(3) n(2) by (cases rs) (auto simp: n_def)
  have len: "length rs' = length qs" "length qs = n - 1"
    using assms(3) rs n(1) arg_cong [OF live, of length] by (simp_all add: live_pfds_def n_def)
  let ?upd = "map2 (\<lambda>r p. p\<lparr>pfd_revents := r\<rparr>) rs' qs" and ?rest = "drop n (pFDs st)"
  have "pFDs st' = p\<lparr>pfd_revents := r\<rparr> # ?upd @ ?rest"
    unfolding assms(2) set_revents_split [OF assms(3) n(1) [unfolded n_def]] using live by (simp add: live_pfds_def rs n_def)
  from pipe_event_state [OF this] have ps: "ps = cleared (p\<lparr>pfd_revents := r\<rparr>) # ?upd @ ?rest"
    and pe: "pipe_event st' = st'\<lparr>pFDs := cleared (p\<lparr>pfd_revents := r\<rparr>) # ?upd @ ?rest\<rparr>"
    by (simp_all add: ps_def)
  show "pipe_event st' = st'\<lparr>pFDs := ps\<rparr>" using pe ps by simp
  have tk: "drop 1 (take n ps) = ?upd" "take 1 ps = [cleared p]"
    using len n(2) by (cases n; simp add: ps cleared_def)+
  show "length ps = length (pFDs st)" "drop n ps = drop n (pFDs st)" using len n by (cases n; simp add: ps)+
  have "map cleared ?upd = map cleared qs"
    using len(1) by (intro nth_equalityI) (auto simp: cleared_def)
  then show "take 1 ps @ map cleared (drop 1 (take n ps)) = map cleared (live_pfds st)"
    unfolding tk by (simp add: live)
  show "concat (map (fd_call (fdSources st)) (drop 1 (take n ps))) = event_calls (fdSources st) (tl rs)"
    unfolding tk(1) using fd_calls_of_events [of "fdSources st" "fdSources st" qs rs'] inv(4) fds len(1) by (simp add: rs)
qed

locale quiet_handlers =
  fixes e :: "('h, 'w) env"
    and act :: "'h \<Rightarrow> callback \<Rightarrow> 'w \<Rightarrow> 'w"
  assumes quiet: "invoke e h cb (st, w) = (st, act h cb w)"
begin

lemma run_fds_step:
  assumes "i < n" "n \<le> length (pFDs st)" "nPFDs st = int n" "\<forall>s \<in> set (fdSources st). fs_handler s \<noteq> None"
  shows "run_fds e (Suc fuel) i (st, w) =
    run_fds e fuel (Suc i) (st\<lparr>pFDs := (pFDs st)[i := cleared (pFDs st ! i)]\<rparr>,
      fold (\<lambda>(h, cb). act h cb) (fd_call (fdSources st) (pFDs st ! i)) w)"
proof (cases "pfd_revents (pFDs st ! i) = 0")
  case True
  then have "cleared (pFDs st ! i) = pFDs st ! i" by (cases "pFDs st ! i") (simp add: cleared_def)
  with True assms show ?thesis by (simp add: pfd_get_def fd_call_def)
next
  case False
  have "\<exists>h. fs_handler src = Some h" if "find (\<lambda>src. fs_fd src = pfd_fd (pFDs st ! i)) (fdSources st) = Some src" for src
    using assms(4) find_SomeD [OF that] by auto
  with False assms show ?thesis
    by (auto simp: pfd_get_def fd_call_def clear_revents_def cleared_def call_def quiet Let_def split: option.split)
qed

lemma run_fds_exact:
  assumes "i \<le> n" "n \<le> length (pFDs st)" "nPFDs st = int n" "n - i < fuel"
    and "\<forall>s \<in> set (fdSources st). fs_handler s \<noteq> None"
  shows "run_fds e fuel i (st, w) =
    Some (st\<lparr>pFDs := take i (pFDs st) @ map cleared (drop i (take n (pFDs st))) @ drop n (pFDs st)\<rparr>,
          fold (\<lambda>(h, cb). act h cb) (concat (map (fd_call (fdSources st)) (drop i (take n (pFDs st))))) w)"
  using assms
proof (induction fuel arbitrary: i st w)
  case (Suc fuel)
  show ?case
  proof (cases "i = n")
    case True
    with Suc.prems show ?thesis by simp
  next
    case False
    with Suc.prems have i: "i < n" "i < length (pFDs st)" by auto
    let ?p = "pFDs st ! i"
    have d: "drop i (take n (pFDs st)) = ?p # drop (Suc i) (take n (pFDs st))"
      using i by (simp add: Cons_nth_drop_Suc [symmetric])
    define st1 where "st1 = st\<lparr>pFDs := (pFDs st)[i := cleared ?p]\<rparr>"
    define w1 where "w1 = fold (\<lambda>(h, cb). act h cb) (fd_call (fdSources st) ?p) w"
    have step: "run_fds e (Suc fuel) i (st, w) = run_fds e fuel (Suc i) (st1, w1)"
      unfolding st1_def w1_def using i(1) Suc.prems by (intro run_fds_step)
    have tk: "take (Suc i) (pFDs st1) = take i (pFDs st) @ [cleared ?p]"
      and dr: "drop (Suc i) (take n (pFDs st1)) = drop (Suc i) (take n (pFDs st))"
      and dn: "drop n (pFDs st1) = drop n (pFDs st)"
      using i by (simp_all add: st1_def take_Suc_conv_app_nth drop_take)
    have "run_fds e fuel (Suc i) (st1, w1) =
        Some (st1\<lparr>pFDs := take (Suc i) (pFDs st1) @
               map cleared (drop (Suc i) (take n (pFDs st1))) @ drop n (pFDs st1)\<rparr>,
          fold (\<lambda>(h, cb). act h cb)
            (concat (map (fd_call (fdSources st1)) (drop (Suc i) (take n (pFDs st1))))) w1)"
      using Suc.prems i by (intro Suc.IH) (auto simp: st1_def)
    then show ?thesis
      unfolding step tk dr dn d by (simp add: st1_def w1_def)
  qed
qed simp

lemma run_timer_exact:
  assumes "timer_inv st" "k < NTIMERS" "\<forall>s \<in> set (timerSources st). ts_handler s \<noteq> None"
  shows "run_timer e (int k) (served k st, w) =
    (served (Suc k) st, fold (\<lambda>(h, cb). act h cb) (timer_call st k) w)"
proof (cases "expired st k")
  case True
  note i = timer_invD [OF assms(1)]
  have k: "k < length (timers st)" using i(1) assms(2) by simp
  obtain src where f: "find (\<lambda>src. ts_id src = int k) (timerSources st) = Some src"
    using expired_source [OF assms(1,2) True] .
  from find_SomeD [OF f] assms(3) obtain h where h: "ts_handler src = Some h" by auto
  have "te_valid (timer_get (int k) (served k st)) \<and> te_fired (timer_get (int k) (served k st))"
    using True served_entry(2) [OF k] by (simp add: expired_def)
  then show ?thesis
    using f served_entry(3) [OF k] h serve_one [OF assms(1,2) True f] True
    by (simp add: run_timer_def Let_def call_def quiet timer_call_def expired_def)
next
  case False
  note i = timer_invD [OF assms(1)]
  have k: "k < length (timers st)" using i(1) assms(2) by simp
  show ?thesis
    using False served_entry(2) [OF k]
    by (auto simp: run_timer_def Let_def timer_call_def expired_def served_Suc_not_expired)
qed

lemma run_timers_exact:
  assumes "timer_inv st" "\<forall>s \<in> set (timerSources st). ts_handler s \<noteq> None"
  shows "run_timers e (st, w) =
    (served NTIMERS st, fold (\<lambda>(h, cb). act h cb) (concat (map (timer_call st) [0..<NTIMERS])) w)"
proof -
  have "k \<le> NTIMERS \<Longrightarrow> fold (\<lambda>i. run_timer e (int i)) [0..<k] (st, w) =
      (served k st, fold (\<lambda>(h, cb). act h cb) (concat (map (timer_call st) [0..<k])) w)" for k
  proof (induction k)
    case 0
    show ?case by (simp add: served_0)
  next
    case (Suc k)
    then show ?case by (simp add: run_timer_exact [OF assms(1) _ assms(2)])
  qed
  then show ?thesis unfolding run_timers_def by blast
qed

lemma run_sources_exact:
  assumes "length (sigSources st) - k < fuel"
    and "\<forall>s \<in> set (sigSources st). ss_sigNum s = i \<longrightarrow> ss_handler s \<noteq> None"
  shows "run_sources e fuel k i (st, w) =
    Some (st, fold (\<lambda>(h, cb). act h cb) (concat (map (source_call i) (drop k (sigSources st)))) w)"
  using assms
proof (induction fuel arbitrary: k w)
  case (Suc fuel)
  show ?case
  proof (cases "k < length (sigSources st)")
    case True
    let ?s = "sigSources st ! k"
    have d: "drop k (sigSources st) = ?s # drop (Suc k) (sigSources st)"
      using True by (simp add: Cons_nth_drop_Suc)
    have "ss_sigNum ?s = i \<Longrightarrow> \<exists>h. ss_handler ?s = Some h"
      using Suc.prems(2) True by (metis nth_mem option.exhaust)
    then have "run_sources e (Suc fuel) k i (st, w) =
        run_sources e fuel (Suc k) i (st, fold (\<lambda>(h, cb). act h cb) (source_call i ?s) w)"
      using True by (auto simp: source_call_def call_def quiet Let_def)
    with Suc True show ?thesis by (simp add: d)
  qed simp
qed simp

lemma run_signals_exact:
  assumes "distinct is" "timer_inv st" "handlers_set st" "length (sigSources st) < n"
  shows "run_signals e n is (st, w) =
    Some (fold deliver is st, fold (\<lambda>(h, cb). act h cb) (concat (map (signal_calls st) is)) w)"
  using assms
proof (induction "is" arbitrary: st w)
  case (Cons i "is")
  let ?st1 = "st\<lparr>signalsFired := (signalsFired st)[i := False]\<rparr>"
  have step: "run_signals e n (i # is) (st, w) =
      run_signals e n is (deliver i st, fold (\<lambda>(h, cb). act h cb) (signal_calls st i) w)"
  proof (cases "signalsFired st ! i")
    case True
    show ?thesis
    proof (cases "int i = SIGALRM")
      case alrm: True
      have "run_timers e (?st1, w) = (served NTIMERS ?st1,
          fold (\<lambda>(h, cb). act h cb) (concat (map (timer_call ?st1) [0..<NTIMERS])) w)"
        using Cons.prems(2,3) by (intro run_timers_exact) (simp_all add: handlers_set_def)
      with True alrm show ?thesis by (simp add: deliver_def signal_calls_def)
    next
      case False
      have "run_sources e n 0 (int i) (?st1, w) = Some (?st1,
          fold (\<lambda>(h, cb). act h cb) (concat (map (source_call (int i)) (drop 0 (sigSources ?st1)))) w)"
        using Cons.prems(3,4) False by (intro run_sources_exact) (auto simp: handlers_set_def)
      with True False show ?thesis by (simp add: deliver_def signal_calls_def Let_def)
    qed
  qed (simp add: deliver_def signal_calls_def)
  have calls: "map (signal_calls (deliver i st)) is = map (signal_calls st) is"
    using Cons.prems(1) by (auto intro!: signal_calls_deliver)
  show ?case
    unfolding step using Cons.prems
    by (simp add: Cons.IH deliver_inv deliver_handlers calls del: map_eq_conv)
qed simp

lemma pending_exact:
  assumes "timer_inv st" "handlers_set st" "length (sigSources st) < n"
  shows "(if signalFired st then run_signals e n [0..<NSIG] (st\<lparr>signalFired := False\<rparr>, w)
      else Some (st\<lparr>signalFired := False\<rparr>, w)) =
    Some (delivered st, fold (\<lambda>(h, cb). act h cb) (pending_calls st) w)"
  using run_signals_exact [of "[0..<NSIG]" "st\<lparr>signalFired := False\<rparr>" n w] assms
  by (simp add: delivered_def pending_calls_def del: upt_rec_numeral)

lemma dispatch_exact:
  assumes "watch_inv st" "handlers_set st" "pFDs st' = set_revents rs (nat (nPFDs st)) (pFDs st)"
    and "nPFDs st' = nPFDs st" "fdSources st' = fdSources st"
    and "length rs = nat (nPFDs st)" "nat (nPFDs st) < fuel"
  shows "run_fds e fuel 1 (pipe_event st', w) =
    Some (st'\<lparr>pFDs := map cleared (live_pfds st) @ drop (nat (nPFDs st)) (pFDs st)\<rparr>,
          fold (\<lambda>(h, cb). act h cb) (event_calls (fdSources st) (tl rs)) w)"
proof -
  let ?n = "nat (nPFDs st)" and ?pe = "pipe_event st'"
  note pe = polled_entries [OF assms(1,3,6)]
  have eq: "nPFDs ?pe = int ?n" "fdSources ?pe = fdSources st" "?n \<le> length (pFDs ?pe)" "1 \<le> ?n"
    using watch_invD(1,2) [OF assms(1)] assms(4,5) pe(2) by (simp_all add: pipe_event_def clear_revents_def)
  have "run_fds e fuel 1 (?pe, w) =
      Some (?pe\<lparr>pFDs := (take 1 (pFDs ?pe) @ map cleared (drop 1 (take ?n (pFDs ?pe)))) @ drop ?n (pFDs ?pe)\<rparr>,
        fold (\<lambda>(h, cb). act h cb) (concat (map (fd_call (fdSources ?pe)) (drop 1 (take ?n (pFDs ?pe))))) w)"
    unfolding append_assoc using eq assms(2,7) by (intro run_fds_exact) (auto simp: handlers_set_def)
  then show ?thesis unfolding eq(2) pe(3-5) by (subst (asm) (2) pe(1)) simp
qed

lemma loop_exact:
  assumes "watch_inv st" "timer_inv st" "handlers_set st"
    and "pollf e (live_pfds st) (timeSpecToMSecs ts)
           (fold (\<lambda>(h, cb). act h cb) (pending_calls st) w) = (a, w2)"
    and "pa_signals a = []" "pa_ret a \<noteq> -1" "length (pa_revents a) = nat (nPFDs st)"
    and "nat (nPFDs st) + length (sigSources st) + 1 < fuel"
  shows "loop e fuel ts (st, w) =
    Some (pa_ret a,
          (delivered st)\<lparr>pFDs := map cleared (live_pfds st) @ drop (nat (nPFDs st)) (pFDs st)\<rparr>,
          fold (\<lambda>(h, cb). act h cb) (event_calls (fdSources st) (tl (pa_revents a))) w2)"
proof -
  let ?n = "nat (nPFDs st)" and ?w1 = "fold (\<lambda>(h, cb). act h cb) (pending_calls st) w"
  let ?st2 = "(delivered st)\<lparr>pFDs := set_revents (pa_revents a) ?n (pFDs st)\<rparr>"
  obtain m where fuel: "fuel = Suc (Suc m)" using assms(8) watch_invD(1) [OF assms(1)]
    by (cases fuel; cases "fuel - 1") auto
  have "live_pfds (delivered st) = live_pfds st" by (simp add: live_pfds_def)
  then have poll: "run_poll e (Suc m) ts False 0 (delivered st, ?w1) = Some (pa_ret a, ?st2, w2)"
    using assms(4,5,6) by (simp add: do_poll_def live_pfds_def)
  have "run_fds e (Suc m) 1 (pipe_event ?st2, w2) =
      Some (?st2\<lparr>pFDs := map cleared (live_pfds st) @ drop ?n (pFDs st)\<rparr>,
          fold (\<lambda>(h, cb). act h cb) (event_calls (fdSources st) (tl (pa_revents a))) w2)"
    using assms(7,8) fuel by (intro dispatch_exact [OF assms(1,3)]) auto
  moreover note pending_exact [OF assms(2,3), of "Suc m" w]
  ultimately show ?thesis
    using assms(8) poll unfolding loop_def fuel by (simp add: Let_def del: upt_rec_numeral run_poll.simps run_fds.simps)
qed

text \<open>Nothing in the loop reads the self-pipe.\<close>

lemma call_pipe: "pipeBytes (fst (call e h cb s)) = pipeBytes (fst s)"
  by (cases s) (simp add: call_def quiet split: option.split)

lemma run_timer_pipe: "pipeBytes (fst (run_timer e i s)) = pipeBytes (fst s)"
proof -
  obtain st w where s: "s = (st, w)" by (cases s)
  show ?thesis
    using call_pipe unfolding s
    by (simp add: run_timer_def Let_def erase_timer_def split: option.split prod.split) (metis fst_conv timer_set_frame(7))
qed

lemma run_timers_pipe: "pipeBytes (fst (run_timers e s)) = pipeBytes (fst s)"
proof -
  have "pipeBytes (fst (fold (\<lambda>i. run_timer e (int i)) is s)) = pipeBytes (fst s)" for "is"
    by (induction "is" arbitrary: s) (simp_all add: run_timer_pipe)
  then show ?thesis by (simp add: run_timers_def)
qed

lemma run_sources_pipe: "run_sources e n k i s = Some s' \<Longrightarrow> pipeBytes (fst s') = pipeBytes (fst s)"
proof (induction n arbitrary: k s)
  case (Suc n)
  then show ?case by (auto simp: Let_def call_pipe split: if_splits dest!: Suc.IH)
qed simp

lemma run_signals_pipe: "run_signals e n is s = Some s' \<Longrightarrow> pipeBytes (fst s') = pipeBytes (fst s)"
proof (induction "is" arbitrary: s)
  case (Cons i "is")
  then show ?case
    by (auto simp: Let_def run_timers_pipe split: if_splits option.splits dest!: run_sources_pipe)
qed simp

lemma clear_revents_pipe [simp]: "pipeBytes (clear_revents i st) = pipeBytes st"
  by (simp add: clear_revents_def)

lemma run_fds_pipe: "run_fds e n i s = Some s' \<Longrightarrow> pipeBytes (fst s') = pipeBytes (fst s)"
proof (induction n arbitrary: i s)
  case (Suc n)
  then show ?case
    by (auto simp: Let_def call_pipe split: if_splits option.splits dest!: Suc.IH)
qed simp

lemma sigHandlers_pipe: "pipeBytes (fold (\<lambda>(sig, v). sigHandler sig v True) xs st) = pipeBytes st + length xs"
  by (induction xs arbitrary: st) (auto simp: sigHandler_def Let_def)

lemma do_poll_pipe: "do_poll e ts s = (r, s') \<Longrightarrow> pipeBytes (fst s) \<le> pipeBytes (fst s')"
  by (cases s) (auto simp: do_poll_def Let_def sigHandlers_pipe split: prod.splits if_splits)

lemma run_poll_pipe: "run_poll e n ts b r s = Some (r', s') \<Longrightarrow> pipeBytes (fst s) \<le> pipeBytes (fst s')"
proof (induction n arbitrary: b r s)
  case (Suc n)
  obtain r1 s1 where d: "(if \<not> b then do_poll e ts s else (r, s)) = (r1, s1)"
    by (rule prod.exhaust)
  then have "pipeBytes (fst s) \<le> pipeBytes (fst s1)"
    by (auto split: if_splits dest: do_poll_pipe)
  with Suc d show ?case by (fastforce simp: Let_def split: if_splits)
qed simp

lemma loop_from_pipe: "loop_from e n ts b r s = Some (r', s') \<Longrightarrow> pipeBytes (fst s) \<le> pipeBytes (fst s')"
proof (induction n arbitrary: b r s)
  case (Suc n)
  let ?s1 = "((fst s)\<lparr>signalFired := False\<rparr>, snd s)"
  from Suc.prems obtain s2 r3 s3 s4 where
    s2: "(if signalFired (fst s) then run_signals e n [0..<NSIG] ?s1 else Some ?s1) = Some s2" and
    s3: "run_poll e n ts b r s2 = Some (r3, s3)" and
    s4: "run_fds e n 1 (pipe_event (fst s3), snd s3) = Some s4" and
    last: "(if signalFired (fst s4) then loop_from e n ts True r3 s4 else Some (r3, s4)) = Some (r', s')"
    by (auto simp: Let_def simp del: upt_rec_numeral split: option.splits prod.splits)
  have "pipeBytes (fst s2) = pipeBytes (fst s)"
    using s2 run_signals_pipe [of n "[0..<NSIG]" ?s1 s2] by (auto split: if_splits simp del: upt_rec_numeral)
  moreover have "pipeBytes (fst s2) \<le> pipeBytes (fst s3)" using s3 by (rule run_poll_pipe)
  moreover have "pipeBytes (fst s4) = pipeBytes (fst s3)"
    using run_fds_pipe [OF s4] by (simp add: pipe_event_def)
  ultimately show ?case using last Suc.IH [of True r3 s4] by (auto split: if_splits)
qed simp

end

interpretation default_quiet: quiet_handlers "\<lparr>invoke = default_invoke, pollf = pf\<rparr>"
    "\<lambda>h cb w. w @ default_text cb" for pf
  by unfold_locales (simp add: default_invoke_def)

text \<open>An iteration leaves no event behind and keeps the watch list.\<close>

lemma cleared_entries:
  fixes lp :: "'h EventLoop"
  assumes "watch_inv lp"
  defines "lp' \<equiv> lp\<lparr>pFDs := map cleared (live_pfds lp) @ drop (nat (nPFDs lp)) (pFDs lp)\<rparr>"
  shows "live_pfds lp' = map cleared (live_pfds lp)" "watched lp' = watched lp" "watch_inv lp'"
proof -
  note inv = watch_invD [OF assms(1)]
  have len: "length (live_pfds lp) = nat (nPFDs lp)" using inv(1,2) by (simp add: live_pfds_def)
  then show live: "live_pfds lp' = map cleared (live_pfds lp)" by (simp add: live_pfds_def lp'_def)
  show "watched lp' = watched lp" by (simp add: watched_def lp'_def)
  have "map pfd_fd (map cleared (live_pfds lp)) = map pfd_fd (live_pfds lp)" by (simp add: cleared_def)
  then show "watch_inv lp'" using inv len unfolding watch_inv_def live by (simp add: lp'_def)
qed

section \<open>Handlers that leave the loop alone where they are called\<close>

text \<open>
  A handler may change the loop on some events and not on others. Where every call of an
  iteration is one of the latter (\<open>Q\<close>, which may depend on the world), the iteration is that of handlers
  which never change the loop.
\<close>

fun steady_along :: "('w \<Rightarrow> callback \<Rightarrow> bool) \<Rightarrow> ('h \<Rightarrow> callback \<Rightarrow> 'w \<Rightarrow> 'w) \<Rightarrow> ('h \<times> callback) list \<Rightarrow> 'w \<Rightarrow> bool" where
  "steady_along Q act [] w \<longleftrightarrow> True"
| "steady_along Q act (c # cs) w \<longleftrightarrow> Q w (snd c) \<and> steady_along Q act cs (act (fst c) (snd c) w)"

lemma steady_along_append [simp]:
  "steady_along Q act (cs @ ds) w \<longleftrightarrow>
     steady_along Q act cs w \<and> steady_along Q act ds (fold (\<lambda>(h, cb). act h cb) cs w)"
  by (induction cs arbitrary: w) (simp_all add: split_beta)

definition always_quiet :: "('h \<Rightarrow> callback \<Rightarrow> 'w \<Rightarrow> 'w) \<Rightarrow> ('h, 'w) env \<Rightarrow> ('h, 'w) env" where
  "always_quiet act e = e\<lparr>invoke := (\<lambda>h cb (st, w). (st, act h cb w))\<rparr>"

locale steady_handlers =
  fixes e :: "('h, 'w) env" and act :: "'h \<Rightarrow> callback \<Rightarrow> 'w \<Rightarrow> 'w" and Q :: "'w \<Rightarrow> callback \<Rightarrow> bool"
  assumes steady: "Q w cb \<Longrightarrow> invoke e h cb (st, w) = (st, act h cb w)"
begin

lemma quiet_twin: "quiet_handlers (always_quiet act e) act"
  by unfold_locales (simp add: always_quiet_def)

lemma run_fds_twin:
  assumes "n \<le> length (pFDs st)" "nPFDs st = int n" "\<forall>s \<in> set (fdSources st). fs_handler s \<noteq> None"
    and "steady_along Q act (concat (map (fd_call (fdSources st)) (drop i (take n (pFDs st))))) w"
  shows "run_fds e fuel i (st, w) = run_fds (always_quiet act e) fuel i (st, w)"
  using assms
proof (induction fuel arbitrary: i st w)
  case (Suc fuel)
  show ?case
  proof (cases "i < n")
    case True
    let ?p = "pFDs st ! i"
    have i: "i < length (pFDs st)" using True Suc.prems(1) by simp
    have d: "drop i (take n (pFDs st)) = ?p # drop (Suc i) (take n (pFDs st))"
      using True i by (simp add: Cons_nth_drop_Suc [symmetric])
    note along = Suc.prems(4) [unfolded d, simplified]
    have IH: "run_fds e fuel (Suc i) (st1, w1) = run_fds (always_quiet act e) fuel (Suc i) (st1, w1)"
      if "pFDs st1 = (pFDs st)[i := q]" "nPFDs st1 = nPFDs st" "fdSources st1 = fdSources st"
        "w1 = fold (\<lambda>(h, cb). act h cb) (fd_call (fdSources st) ?p) w" for st1 w1 q
      using that Suc.prems along by (intro Suc.IH) (simp_all add: drop_take)
    show ?thesis
    proof (cases "pfd_revents ?p \<noteq> 0")
      case rev: True
      show ?thesis
      proof (cases "find (\<lambda>src. fs_fd src = pfd_fd ?p) (fdSources st)")
        case None
        then show ?thesis using rev True i Suc.prems(2) IH [of "st\<lparr>pFDs := (pFDs st)[i := ?p\<lparr>pfd_revents := 0\<rparr>]\<rparr>" "?p\<lparr>pfd_revents := 0\<rparr>"]
          by (simp add: pfd_get_def clear_revents_def fd_call_def)
      next
        case (Some src)
        then obtain h where h: "fs_handler src = Some h" using Suc.prems(3) find_SomeD [OF Some] by auto
        have "Q w (FdEvent (pfd_fd ?p) (pfd_revents ?p))" using along Some rev h by (simp add: fd_call_def)
        then show ?thesis using rev True i Suc.prems(2) Some h IH [of "st\<lparr>pFDs := (pFDs st)[i := ?p\<lparr>pfd_revents := 0\<rparr>]\<rparr>" "?p\<lparr>pfd_revents := 0\<rparr>"]
          by (simp add: pfd_get_def clear_revents_def fd_call_def call_def steady always_quiet_def Let_def)
      qed
    next
      case False
      then show ?thesis using True i Suc.prems(2) IH [of st ?p] by (simp add: pfd_get_def fd_call_def)
    qed
  next
    case False
    then show ?thesis using Suc.prems(2) by simp
  qed
qed simp

lemma loop_steady:
  assumes "watch_inv st" "handlers_set st" "\<not> signalFired st"
    and "pollf e (live_pfds st) (timeSpecToMSecs ts) w = (a, w2)"
    and "pa_signals a = []" "pa_ret a \<noteq> -1" "length (pa_revents a) = nat (nPFDs st)"
    and "nat (nPFDs st) + 1 < fuel"
    and "steady_along Q act (event_calls (fdSources st) (tl (pa_revents a))) w2"
  shows "loop e fuel ts (st, w) =
    Some (pa_ret a, st\<lparr>pFDs := map cleared (live_pfds st) @ drop (nat (nPFDs st)) (pFDs st)\<rparr>,
          fold (\<lambda>(h, cb). act h cb) (event_calls (fdSources st) (tl (pa_revents a))) w2)"
proof -
  let ?n = "nat (nPFDs st)" and ?st2 = "st\<lparr>pFDs := set_revents (pa_revents a) (nat (nPFDs st)) (pFDs st)\<rparr>"
  let ?st3 = "st\<lparr>pFDs := map cleared (live_pfds st) @ drop ?n (pFDs st)\<rparr>"
  obtain m where fuel: "fuel = Suc (Suc m)" using assms(8) by (cases fuel; cases "fuel - 1") auto
  have start: "st\<lparr>signalFired := False\<rparr> = st" using assms(3) by (cases st) simp
  have poll: "run_poll e (Suc m) ts False 0 (st, w) = Some (pa_ret a, ?st2, w2)"
    using assms(4-6) by (simp add: do_poll_def live_pfds_def)
  have "run_fds (always_quiet act e) (Suc m) 1 (pipe_event ?st2, w2) =
      Some (?st3, fold (\<lambda>(h, cb). act h cb) (event_calls (fdSources st) (tl (pa_revents a))) w2)"
    using quiet_handlers.dispatch_exact [OF quiet_twin assms(1,2), of ?st2 "pa_revents a" "Suc m" w2] assms(7,8) fuel by simp
  moreover have "run_fds e (Suc m) 1 (pipe_event ?st2, w2) = run_fds (always_quiet act e) (Suc m) 1 (pipe_event ?st2, w2)"
  proof (rule run_fds_twin [of ?n])
    note pe = polled_entries(2,5) [OF assms(1) _ assms(7), of ?st2]
    have src: "fdSources (pipe_event ?st2) = fdSources st" by (simp add: pipe_event_def clear_revents_def)
    show "?n \<le> length (pFDs (pipe_event ?st2))" using pe(1) watch_invD(2) [OF assms(1)] by simp
    show "nPFDs (pipe_event ?st2) = int ?n"
      using watch_invD(1) [OF assms(1)] by (simp add: pipe_event_def clear_revents_def)
    show "\<forall>s \<in> set (fdSources (pipe_event ?st2)). fs_handler s \<noteq> None"
      using assms(2) by (simp add: src handlers_set_def)
    show "steady_along Q act (concat (map (fd_call (fdSources (pipe_event ?st2))) (drop 1 (take ?n (pFDs (pipe_event ?st2)))))) w2"
      unfolding src using pe(2) assms(9) by simp
  qed
  ultimately show ?thesis
    using poll assms(3) unfolding loop_def fuel One_nat_def
    by (simp add: start del: run_poll.simps run_fds.simps)
qed

end

end
