(* ===== verification/Event_Props.thy ===== *)
theory Event_Props
  imports Event_Dispatch
begin

text \<open>
  The properties of the \<open>poll\<close>-based event loop: what the registration operations do on every
  branch, that the array handed to \<open>poll\<close> refines the watch list, that one iteration delivers
  exactly the reported events, and the faults of the implementation, stated exactly.
\<close>

section \<open>Concrete loops for the witnesses\<close>

text \<open>A loop that watches descriptors 5 and 6 for handlers 1 and 2; the self-pipe is (3, 4).\<close>

definition two_fds :: "nat EventLoop" where
  "two_fds = blank_loop\<lparr>
     nPFDs := 3, pFDs := [new_pfd 3 POLLIN, new_pfd 5 POLLIN, new_pfd 6 POLLIN],
     fdSources := [\<lparr>fs_node = 1, fs_handler = Some 1, fs_fd = 5\<rparr>, \<lparr>fs_node = 2, fs_handler = Some 2, fs_fd = 6\<rparr>],
     sigPipe := (3, 4), nextNode := 3\<rparr>"

lemma two_fds_inv: "watch_inv two_fds" "timer_inv two_fds" "handlers_set two_fds"
proof -
  show "watch_inv two_fds"
    by (simp add: watch_inv_def two_fds_def live_pfds_def new_pfd_def)
  show "timer_inv two_fds"
    by (simp add: timer_inv_def two_fds_def blank_loop_def)
  show "handlers_set two_fds"
    by (simp add: handlers_set_def two_fds_def blank_loop_def)
qed

section \<open>Registering and deregistering descriptors\<close>

text \<open>\<open>addFD\<close> on its branches. When both allocations succeed it returns 0, appends exactly
  one entry for the descriptor to the array handed to \<open>poll\<close> and to the watch list, keeps the
  array and the source descriptors in step, and touches no memory it should not; when \<open>realloc\<close>
  fails it returns \<open>-ENOMEM\<close> and leaves the watch list as it was.\<close>

theorem addFD_outcomes:
  assumes "watch_inv st" "fd \<noteq> fst (sigPipe st)" "fd \<notin> fst ` set (watched st)"
  shows "(let (r, st') = addFD True True h fd ev st in
            r = 0 \<and> watch_inv st' \<and> live_pfds st' = live_pfds st @ [new_pfd fd ev] \<and>
            watched st' = watched st @ [(fd, h)] \<and> faults st' = faults st)
       \<and> (let (r, st') = addFD False a h fd ev st in
            r = - ENOMEM \<and> watch_inv st' \<and> live_pfds st' = live_pfds st \<and> watched st' = watched st)"
proof
  note i = watch_invD [OF assms(1)]
  have "live_pfds (snd (addFD True True h fd ev st)) = live_pfds st @ [new_pfd fd ev]"
    using i(1,2) by (intro addFD_live(1)) auto
  then show "let (r, st') = addFD True True h fd ev st in
            r = 0 \<and> watch_inv st' \<and> live_pfds st' = live_pfds st @ [new_pfd fd ev] \<and>
            watched st' = watched st @ [(fd, h)] \<and> faults st' = faults st"
    using addFD_watch_inv [OF assms, of h ev] by (simp add: case_prod_beta watched_def)
  show "let (r, st') = addFD False a h fd ev st in
            r = - ENOMEM \<and> watch_inv st' \<and> live_pfds st' = live_pfds st \<and> watched st' = watched st"
    using assms(1) by (simp add: addFD_def Let_def watch_inv_def live_pfds_def watched_def)
qed

theorem addFD_outcomes_witness:
  "let (r, st') = addFD True True (Some 9) 7 POLLIN two_fds in
     r = 0 \<and> watched st' = [(5, Some 1), (6, Some 2), (7, Some 9)]"
  using addFD_outcomes [OF two_fds_inv(1), of 7 "Some 9" POLLIN True]
  by (simp add: two_fds_def watched_def case_prod_beta)

text \<open>C33: \<open>delFD\<close> on its branches. For a watched descriptor it returns 0 and removes its entry,
  and only its entry, from the array handed to \<open>poll\<close> and from the watch list, in both keeping
  the order; for any other descriptor it returns \<open>-ENOENT\<close> and changes nothing.\<close>

theorem delFD_outcomes:
  assumes "watch_inv st" "fd \<noteq> fst (sigPipe st)"
  shows "let (r, st') = delFD fd st in
    watch_inv st' \<and>
    (if fd \<in> fst ` set (watched st)
     then r = 0 \<and> live_pfds st' = filter (\<lambda>p. pfd_fd p \<noteq> fd) (live_pfds st) \<and>
          watched st' = filter (\<lambda>x. fst x \<noteq> fd) (watched st)
     else r = - ENOENT \<and> st' = st)"
proof -
  note i = watch_invD [OF assms(1)]
  have fds: "fd \<in> set (map pfd_fd (live_pfds st)) \<longleftrightarrow> fd \<in> fst ` set (watched st)"
    unfolding i(3) using assms(2) by (simp add: watched_fds)
  have dist: "distinct (map pfd_fd (live_pfds st))" unfolding i(3) by (rule i(4))
  show ?thesis
  proof (cases "fd \<in> fst ` set (watched st)")
    case True
    with fds have f: "fd \<in> set (map pfd_fd (live_pfds st))" by simp
    show ?thesis
      using True delFD_found(1,2) [OF i(2) f] delFD_watch_inv [OF assms]
        poll_watch.watched_del_filter [OF assms(1), of fd] assms(2)
      by (simp add: case_prod_beta remove_first_distinct [OF dist])
  next
    case False
    with fds have f: "fd \<notin> set (map pfd_fd (live_pfds st))" by simp
    have "remove_first (\<lambda>s. fs_fd s = fd) (fdSources st) = fdSources st"
      using False by (intro remove_first_id) (auto simp: watched_fds)
    then show ?thesis
      using False assms(1) by (simp add: delFD_not_found [OF f])
  qed
qed

theorem delFD_outcomes_witness:
  "let (r, st') = delFD 5 two_fds in r = 0 \<and> watched st' = [(6, Some 2)]"
  using delFD_outcomes [OF two_fds_inv(1), of 5]
  by (simp add: two_fds_def watched_def case_prod_beta)

text \<open>C3: over any sequence of registrations and removals that never watches a descriptor twice
  and leaves the self-pipe alone, the event loop refines the abstract watch list: the array
  handed to \<open>poll\<close> stays in step with the source descriptors, and the list of watched
  descriptors with their handlers is the one the abstract operations give.\<close>

theorem watch_ops_refine:
  assumes "watch_inv st" "admissible {fst (sigPipe st)} (\<lambda>_. True) ops (watched st)"
  shows "watch_inv (run_watch (addFD True True) delFD ops st) \<and>
    watched (run_watch (addFD True True) delFD ops st) = fold spec_watch ops (watched st)"
  using assms by (rule poll_watch.run_refines)

theorem watch_ops_refine_witness:
  "watched (run_watch (addFD True True) delFD [Unwatch 5, Watch (Some 3) 8 POLLIN, Watch (Some 1) 5 POLLIN] two_fds)
     = [(6, Some 2), (8, Some 3), (5, Some (1::nat))]"
  using watch_ops_refine [OF two_fds_inv(1), of "[Unwatch 5, Watch (Some 3) 8 POLLIN, Watch (Some 1) 5 POLLIN]"]
  by (simp add: two_fds_def watched_def blank_loop_def)

text \<open>\<open>delFD\<close> moves one entry too many: removing a descriptor right after it was added reads
  the entry behind the end of the allocated block.\<close>

theorem delFD_overread:
  assumes "watch_inv st" "fd \<noteq> fst (sigPipe st)" "fd \<notin> fst ` set (watched st)"
  shows "faults (snd (delFD fd (snd (addFD True True h fd ev st)))) =
    faults st @ [OutOfBounds ''pFDs'' (nPFDs st + 1)]"
proof -
  note i = watch_invD [OF assms(1)]
  let ?st = "snd (addFD True True h fd ev st)"
  have live: "live_pfds ?st = live_pfds st @ [new_pfd fd ev]" and block: "pFDs ?st = live_pfds ?st"
    using addFD_live [of st h fd ev] i(1,2) by auto
  then have "fd \<in> set (map pfd_fd (live_pfds ?st))" by (simp add: new_pfd_def)
  then obtain k where k: "find_index (\<lambda>p. pfd_fd p = fd) (live_pfds ?st) = Some k"
    by (cases "find_index (\<lambda>p. pfd_fd p = fd) (live_pfds ?st)") (auto simp: find_index_None)
  have len: "length (pFDs ?st) = nat (nPFDs ?st)"
    using i(1,2) by (simp add: block live) (simp add: live_pfds_def)
  have "k \<le> nat (nPFDs ?st)"
    using find_index_Some [OF k] len by (simp add: block)
  then show ?thesis
    using i(1) unfolding delFD_Some(4) [OF k] len by simp
qed

theorem delFD_overread_witness:
  "faults (snd (delFD 7 (snd (addFD True True (Some 9) 7 POLLIN two_fds)))) = [OutOfBounds ''pFDs'' 4]"
  using delFD_overread [OF two_fds_inv(1), of 7 "Some 9" POLLIN]
  by (simp add: two_fds_def watched_def blank_loop_def)

section \<open>Signals and timers\<close>

text \<open>\<open>init\<close> with every system call succeeding gives a loop that watches nothing but the
  self-pipe, has no timer in use and satisfies the invariants of the watch list and of the timer
  table; on the way it writes behind the end of the timer table.\<close>

theorem init_establishes:
  assumes "length (timers st) = NTIMERS" "fdSources st = []" "timerSources st = []"
  shows "let (r, st') = init (Inr p) True None None st in
    r = 0 \<and> watch_inv st' \<and> timer_inv st' \<and> watched st' = [] \<and> installed st' = installed st @ [SIGALRM] \<and>
    faults st' = faults st @ [OutOfBounds ''timers'' 255]"
proof -
  obtain ts where "length ts = NTIMERS" "\<forall>i < NTIMERS. \<not> te_valid (ts ! i)"
    "init (Inr p) True None None st =
     (0, st\<lparr>nPFDs := 1, pFDs := [new_pfd (fst p) POLLIN], sigPipe := p, pipeBytes := 0,
            sigSources := sigSources st @ [\<lparr>ss_node = nextNode st, ss_handler = None, ss_sigNum = SIGALRM\<rparr>],
            nextNode := nextNode st + 1, installed := installed st @ [SIGALRM],
            signalsFired := replicate NSIG False, timers := ts,
            timersBehind := (timersBehind st)\<lparr>te_valid := False\<rparr>,
            faults := faults st @ [OutOfBounds ''timers'' (int NTIMERS)]\<rparr>)"
    using init_state [OF assms(1)] by blast
  then show ?thesis using assms
    by (simp add: watch_inv_def timer_inv_def watched_def live_pfds_def new_pfd_def)
      (simp add: NTIMERS_def)
qed

theorem init_establishes_witness:
  "let (r, st') = init (Inr (3, 4)) True None None (blank_loop :: nat EventLoop) in
    r = 0 \<and> watch_inv st' \<and> timer_inv st' \<and> watched st' = [] \<and> installed st' = [SIGALRM] \<and>
    faults st' = [OutOfBounds ''timers'' 255]"
  using init_establishes [of "blank_loop :: nat EventLoop" "(3, 4)"] by (simp add: blank_loop_def)

lemma addTimer_inv:
  assumes "timer_inv st" "i < NTIMERS" "\<not> te_valid (timers st ! i)" "\<forall>j < i. te_valid (timers st ! j)"
  shows "timer_inv (snd (addTimer True (Inr tim) None del h ts st))"
proof -
  note inv = timer_invD [OF assms(1)]
  have "int i \<notin> set (map ts_id (timerSources st))"
    unfolding inv(3) using assms(3) by auto
  moreover have "insert (int i) {int j |j. j < NTIMERS \<and> te_valid (timers st ! j)} =
      {int j |j. j < NTIMERS \<and> te_valid ((timers st)[i := (timers st ! i)\<lparr>te_timer := tim, te_fired := False, te_valid := True\<rparr>] ! j)}"
    using assms(2) inv(1) by (auto simp: nth_list_update)
  ultimately show ?thesis
    using inv unfolding addTimer_state [OF inv(1) assms(2-)]
    by (auto simp: timer_inv_def)
qed

text \<open>C34: as long as an entry of the table is free, \<open>addTimer\<close> returns an identifier that no
  timer in use has, the smallest such; it adds one source for it and keeps the table and the
  sources in step. A failing \<open>timer_create\<close> or \<open>timer_settime\<close> is reported as \<open>-errno\<close> and leaves no
  source behind.\<close>

theorem addTimer_allocates:
  assumes "timer_inv st" "\<exists>i < NTIMERS. \<not> te_valid (timers st ! i)"
  shows "(let (r, st') = addTimer True (Inr tim) None del h ts st in
            0 \<le> r \<and> r < int NTIMERS \<and> r \<notin> ts_id ` set (timerSources st) \<and>
            (\<forall>j. 0 \<le> j \<and> j < r \<longrightarrow> j \<in> ts_id ` set (timerSources st)) \<and>
            map (\<lambda>s. (ts_id s, ts_handler s)) (timerSources st') =
              map (\<lambda>s. (ts_id s, ts_handler s)) (timerSources st) @ [(r, h)] \<and>
            timer_inv st' \<and> faults st' = faults st)
       \<and> (let (r, st') = addTimer True (Inl e) s d h ts st in
            r = - e \<and> timerSources st' = timerSources st \<and> timers st' = timers st)
       \<and> (let (r, st') = addTimer True (Inr tim) (Some e) None h ts st in
            r = - e \<and> timerSources st' = timerSources st \<and> timer_inv st')"
proof (intro conjI)
  note inv = timer_invD [OF assms(1)]
  obtain i where i: "i < NTIMERS" "\<not> te_valid (timers st ! i)" "\<forall>j < i. te_valid (timers st ! j)"
    using assms(2) by (rule least_free)
  have ids: "k \<in> ts_id ` set (timerSources st) \<longleftrightarrow> (\<exists>j. k = int j \<and> j < NTIMERS \<and> te_valid (timers st ! j))" for k
    using inv(3) by (auto simp: set_eq_iff)
  have "j \<in> ts_id ` set (timerSources st)" if "0 \<le> j" "j < int i" for j
    unfolding ids using that i(1,3) by (intro exI [of _ "nat j"]) auto
  then show "let (r, st') = addTimer True (Inr tim) None del h ts st in
            0 \<le> r \<and> r < int NTIMERS \<and> r \<notin> ts_id ` set (timerSources st) \<and>
            (\<forall>j. 0 \<le> j \<and> j < r \<longrightarrow> j \<in> ts_id ` set (timerSources st)) \<and>
            map (\<lambda>s. (ts_id s, ts_handler s)) (timerSources st') =
              map (\<lambda>s. (ts_id s, ts_handler s)) (timerSources st) @ [(r, h)] \<and>
            timer_inv st' \<and> faults st' = faults st"
    using addTimer_inv [OF assms(1) i, of tim del h ts] i
    by (simp add: addTimer_state [OF inv(1) i] ids)
  have scan: "scan_timers st = (Some i, st)"
    using i inv(1) by (auto simp: scan_timers_def free_timer_least timer_get_in_range)
  show "let (r, st') = addTimer True (Inl e) s d h ts st in
            r = - e \<and> timerSources st' = timerSources st \<and> timers st' = timers st"
    by (simp add: addTimer_def scan Let_def)
  have valid: "te_valid ((timers st)[i := (timers st ! i)\<lparr>te_timer := tim, te_fired := False\<rparr>] ! j) =
      te_valid (timers st ! j)" for j
    using i(1) inv(1) by (cases "i = j") auto
  show "let (r, st') = addTimer True (Inr tim) (Some e) None h ts st in
            r = - e \<and> timerSources st' = timerSources st \<and> timer_inv st'"
    using i(1) inv
    by (simp add: addTimer_def scan Let_def timer_set_def timer_inv_def valid less_Suc_eq)
qed

theorem addTimer_allocates_witness:
  "let (r, st') = addTimer True (Inr 77) None None (Some 9) (1, 0) two_fds
   in r = 0 \<and> map (\<lambda>s. (ts_id s, ts_handler s)) (timerSources st') = [(0, Some 9)]"
proof -
  have free: "\<exists>i < NTIMERS. \<not> te_valid (timers two_fds ! i)"
    by (intro exI [of _ 0]) (simp add: two_fds_def blank_loop_def NTIMERS_def)
  have none: "timerSources two_fds = []" by (simp add: two_fds_def blank_loop_def)
  obtain r st' where call: "addTimer True (Inr 77) None None (Some 9) (1, 0) two_fds = (r, st')"
    by (rule prod.exhaust)
  have "0 \<le> r" "\<forall>j. 0 \<le> j \<and> j < r \<longrightarrow> j \<in> ts_id ` set (timerSources two_fds)"
    "map (\<lambda>s. (ts_id s, ts_handler s)) (timerSources st') = [(r, Some 9)]"
    using addTimer_allocates [OF two_fds_inv(2) free, of 77 None "Some 9" "(1, 0)" 0 None None]
    by (simp_all add: call none)
  then show ?thesis using none by (auto simp: call)
qed

text \<open>When all 255 entries are in use \<open>addTimer\<close> goes on to the cell behind the table: it hands
  out identifier 255 if that memory happens to look free, which the dispatch never serves, and reports
  \<open>-E2BIG\<close> only if it does not.\<close>

theorem addTimer_full:
  assumes "length (timers st) = NTIMERS" "\<forall>i < NTIMERS. te_valid (timers st ! i)"
  shows "let (r, st') = addTimer True (Inr tim) None del h ts st in
    r = (if te_valid (timersBehind st) then - E2BIG else 255) \<and>
    timers st' = timers st \<and> OutOfBounds ''timers'' 255 \<in> set (faults st')"
proof -
  have all: "\<forall>i < NTIMERS. te_valid (timer_get (int i) st)"
    using assms by (simp add: timer_get_in_range)
  have scan: "scan_timers st = (if te_valid (timersBehind st) then None else Some NTIMERS,
      fault (OutOfBounds ''timers'' (int NTIMERS)) st)"
    using all by (simp add: scan_timers_def free_timer_full [OF assms])
  show ?thesis
    using assms(1) by (simp add: addTimer_def scan Let_def timer_set_def) (simp add: NTIMERS_def)
qed

theorem addTimer_full_witness:
  "let st = (blank_loop :: nat EventLoop)\<lparr>timers := replicate NTIMERS \<lparr>te_valid = True, te_fired = False, te_timer = 1\<rparr>\<rparr>
   in fst (addTimer True (Inr 77) None None (Some 1) (1, 0) st) = 255"
  using addTimer_full [of "(blank_loop :: nat EventLoop)\<lparr>timers := replicate NTIMERS \<lparr>te_valid = True, te_fired = False, te_timer = 1\<rparr>\<rparr>"
      77 None "Some 1" "(1, 0)"]
  by (simp add: case_prod_beta blank_loop_def)

lemma delTimer_sources:
  "timerSources (snd (delTimer d i st)) = remove_first (\<lambda>s. ts_id s = i) (timerSources st)"
  "nextNode (snd (delTimer d i st)) = nextNode st"
  by (simp_all add: delTimer_def Let_def split: option.split)

lemma timer_set_nth:
  assumes "j < length (timers st)"
  shows "timers (timer_set i f st) ! j = (if int j = i then f (timers st ! j) else timers st ! j)"
proof -
  have "nat i = j \<longleftrightarrow> i = int j" if "0 \<le> i" using that by auto
  with assms show ?thesis by (auto simp: timer_set_def nth_list_update)
qed

lemma delTimer_timers:
  assumes "length (timers st) = NTIMERS"
  shows "length (timers (snd (delTimer d i st))) = NTIMERS"
    and "j < NTIMERS \<Longrightarrow> te_valid (timers (snd (delTimer d i st)) ! j) \<longleftrightarrow> te_valid (timers st ! j) \<and> int j \<noteq> i"
proof -
  show "length (timers (snd (delTimer d i st))) = NTIMERS"
    using assms by (simp add: delTimer_def Let_def split: option.split)
  show "j < NTIMERS \<Longrightarrow> te_valid (timers (snd (delTimer d i st)) ! j) \<longleftrightarrow> te_valid (timers st ! j) \<and> int j \<noteq> i"
    using assms by (simp add: delTimer_def Let_def timer_set_nth split: option.split)
qed

lemma delTimer_inv:
  assumes "timer_inv st"
  shows "timer_inv (snd (delTimer d i st))"
    and "timerSources (snd (delTimer d i st)) = filter (\<lambda>s. ts_id s \<noteq> i) (timerSources st)"
proof -
  note inv = timer_invD [OF assms]
  let ?st = "snd (delTimer d i st)"
  show src: "timerSources ?st = filter (\<lambda>s. ts_id s \<noteq> i) (timerSources st)"
    using inv(2) by (simp add: delTimer_sources remove_first_distinct)
  have "set (map ts_id (timerSources ?st)) = set (map ts_id (timerSources st)) - {i}"
    by (auto simp: src)
  also have "\<dots> = {int j |j. j < NTIMERS \<and> te_valid (timers ?st ! j)}"
    unfolding inv(3) by (auto simp: delTimer_timers(2) [OF inv(1)])
  finally show "timer_inv ?st"
    using inv unfolding timer_inv_def
    by (auto simp: delTimer_timers(1) delTimer_sources(2) src distinct_map_filter)
qed

text \<open>\<open>delTimer\<close> of any identifier removes its source and frees its entry, and keeps the table
  and the sources in step; whether there was such a timer or not, it returns \<open>-ENOENT\<close>.\<close>

theorem delTimer_frees:
  assumes "timer_inv st"
  shows "let (r, st') = delTimer d i st in
    r = - ENOENT \<and> timer_inv st' \<and>
    timerSources st' = filter (\<lambda>s. ts_id s \<noteq> i) (timerSources st) \<and>
    i \<notin> ts_id ` set (timerSources st')"
proof -
  have "fst (delTimer d i st) = - ENOENT" by (simp add: delTimer_def Let_def)
  then show ?thesis using delTimer_inv [OF assms, of d i] by (auto simp: case_prod_beta)
qed

theorem delTimer_frees_witness:
  "let st = snd (addTimer True (Inr 77) None None (Some 9) (1, 0) two_fds) in
   fst (delTimer None 0 st) = - ENOENT \<and> 0 \<notin> ts_id ` set (timerSources (snd (delTimer None 0 st)))"
proof -
  have first: "0 < NTIMERS" "\<not> te_valid (timers two_fds ! 0)"
    by (simp_all add: two_fds_def blank_loop_def NTIMERS_def)
  have "timer_inv (snd (addTimer True (Inr 77) None None (Some 9) (1, 0) two_fds))"
    using two_fds_inv(2) first by (rule addTimer_inv) simp
  from delTimer_frees [OF this, of None 0] show ?thesis by (auto simp: case_prod_beta Let_def)
qed

text \<open>When the source descriptor of a signal cannot be allocated, \<open>addSignal\<close> returns
  \<open>-ENOMEM\<close> and takes one off the number of polled descriptors, which it had not changed: the descriptor
  registered last is no longer handed to \<open>poll\<close>, although it is still in the watch list.\<close>

theorem addSignal_unwatches:
  assumes "watch_inv st" "fdSources st = srcs @ [src]"
  shows "let (r, st') = addSignal False sa h sig st in
    r = - ENOMEM \<and> watched st' = watched st \<and>
    map pfd_fd (live_pfds st') = fst (sigPipe st) # map fs_fd srcs \<and> \<not> watch_inv st'"
proof -
  note i = watch_invD [OF assms(1)]
  let ?st = "snd (addSignal False sa h sig st)"
  have "live_pfds ?st = take (nat (nPFDs st) - 1) (live_pfds st)"
    using i(1) by (simp add: addSignal_def live_pfds_def min_def nat_diff_distrib)
  moreover have "length (live_pfds st) = nat (nPFDs st)" using i(1,2) by (simp add: live_pfds_def)
  ultimately have "map pfd_fd (live_pfds ?st) = butlast (map pfd_fd (live_pfds st))"
    by (simp add: butlast_conv_take take_map)
  then have "map pfd_fd (live_pfds ?st) = fst (sigPipe st) # map fs_fd srcs"
    unfolding i(3) assms(2) by simp
  then show ?thesis
    using assms(2) by (simp add: addSignal_def watched_def watch_inv_def)
qed

theorem addSignal_unwatches_witness:
  "map pfd_fd (live_pfds (snd (addSignal False None (Some 1) SIGINT two_fds))) = [3, 5]"
  using addSignal_unwatches [OF two_fds_inv(1), of "[\<lparr>fs_node = 1, fs_handler = Some 1, fs_fd = 5\<rparr>]"
      "\<lparr>fs_node = 2, fs_handler = Some 2, fs_fd = 6\<rparr>" None "Some 1" SIGINT]
  by (simp add: case_prod_beta two_fds_def blank_loop_def)

section \<open>Dispatch\<close>


text \<open>The poll of the witness reports input on descriptor 6; the handlers are those of the base
  class.\<close>

definition poll_6 :: "pollfd list \<Rightarrow> int \<Rightarrow> string \<Rightarrow> poll_answer \<times> string" where
  "poll_6 ps ms w = (\<lparr>pa_ret = 1, pa_errno = 0, pa_revents = [0, 0, POLLIN], pa_signals = []\<rparr>, w @ ''<poll>'')"


text \<open>
  A handler that stops watching its own descriptor while the loop dispatches to it. The loop
  goes on with the index, so the entry that has moved into the place of the removed one is the
  one whose events are cleared.
\<close>

lemma delFD_shift:
  assumes "watch_inv st" "Suc i < nat (nPFDs st)" "0 < i" "pfd_fd (pFDs st ! i) = fd"
  shows "pFDs (snd (delFD fd st)) ! i = pFDs st ! Suc i"
    and "i < length (pFDs (snd (delFD fd st)))" "nPFDs (snd (delFD fd st)) = nPFDs st - 1"
    and "fdSources (snd (delFD fd st)) = filter (\<lambda>s. fs_fd s \<noteq> fd) (fdSources st)"
proof -
  note inv = watch_invD [OF assms(1)]
  have i: "i < length (live_pfds st)" "live_pfds st ! i = pFDs st ! i" "live_pfds st ! Suc i = pFDs st ! Suc i"
    using assms(2) inv(2) by (auto simp: live_pfds_def)
  have dist: "distinct (map pfd_fd (live_pfds st))" unfolding inv(3) by (rule inv(4))
  have fd: "fd \<in> set (map pfd_fd (live_pfds st))"
    using nth_mem [OF i(1)] i(2) assms(4) by force
  note d = delFD_found [OF inv(2) fd]
  obtain k where k: "find_index (\<lambda>p. pfd_fd p = fd) (live_pfds st) = Some k"
    using fd by (cases "find_index (\<lambda>p. pfd_fd p = fd) (live_pfds st)") (auto simp: find_index_None)
  then have "k < length (live_pfds st)" "pfd_fd (live_pfds st ! k) = pfd_fd (live_pfds st ! i)"
    using find_index_Some [OF k] i(2) assms(4) by auto
  then have "k = i"
    using nth_eq_iff_index_eq [OF dist, of k i] i(1) by simp
  with k have k: "find_index (\<lambda>p. pfd_fd p = fd) (live_pfds st) = Some i" by simp
  have "live_pfds (snd (delFD fd st)) ! i = live_pfds st ! Suc i"
    using i(1) unfolding d(2) remove_first_find_index [OF k] by (simp add: nth_append)
  moreover show "nPFDs (snd (delFD fd st)) = nPFDs st - 1" by (rule d(3))
  ultimately show "pFDs (snd (delFD fd st)) ! i = pFDs st ! Suc i"
    using assms(2) i(3) by (simp add: live_pfds_def)
  show "i < length (pFDs (snd (delFD fd st)))" using d(4) assms(2) inv(2) by simp
  show "fdSources (snd (delFD fd st)) = filter (\<lambda>s. fs_fd s \<noteq> fd) (fdSources st)"
    using inv(4) by (simp add: remove_first_distinct)
qed

lemma live_source:
  assumes "watch_inv st" "handlers_set st" "0 < i" "i < nat (nPFDs st)" "pfd_fd (pFDs st ! i) = fd"
  obtains src h where "find (\<lambda>s. fs_fd s = fd) (fdSources st) = Some src" "fs_handler src = Some h" "fs_fd src = fd"
    "src \<in> set (fdSources st)"
proof -
  note inv = watch_invD [OF assms(1)]
  have "fd \<in> set (map pfd_fd (tl (live_pfds st)))"
    using nth_mem [of "i - 1" "tl (live_pfds st)"] assms(3-5) inv(2)
    by (force simp: live_pfds_def nth_tl)
  then have "fd \<in> set (map fs_fd (fdSources st))"
    using arg_cong [OF inv(3), of tl] by (simp add: map_tl)
  then obtain src where src: "find (\<lambda>s. fs_fd s = fd) (fdSources st) = Some src"
    by (cases "find (\<lambda>s. fs_fd s = fd) (fdSources st)") (auto simp: find_None_iff)
  moreover from find_SomeD [OF src] obtain h where "fs_handler src = Some h"
    using assms(2) by (auto simp: handlers_set_def)
  ultimately show ?thesis using that find_SomeD [OF src] by blast
qed

lemma run_fds_leaver:
  assumes "watch_inv st" "handlers_set st" "0 < i" "Suc i < nat (nPFDs st)"
    and "pfd_fd (pFDs st ! i) = fd" "pfd_revents (pFDs st ! i) = revs" "revs \<noteq> 0"
    and "\<forall>h. invoke e h (FdEvent fd revs) (st, w) = (snd (delFD fd st), w1)"
  shows "\<exists>st'. run_fds e (Suc n) i (st, w) = run_fds e n (Suc i) (st', w1) \<and>
    nPFDs st' = nPFDs st - 1 \<and> pFDs st' ! i = cleared (pFDs st ! Suc i) \<and>
    watched st' = filter (\<lambda>x. fst x \<noteq> fd) (watched st)"
proof -
  note d = delFD_shift [OF assms(1,4,3,5)]
  have "i < nat (nPFDs st)" using assms(4) by simp
  then obtain src h where src: "find (\<lambda>s. fs_fd s = fd) (fdSources st) = Some src" "fs_handler src = Some h"
    using live_source [OF assms(1-3) _ assms(5)] by metis
  have il: "i < length (pFDs st)" using assms(4) watch_invD(2) [OF assms(1)] by simp
  let ?st = "clear_revents i (snd (delFD fd st))"
  have "int i < nPFDs st" using assms(4) by simp
  then have "run_fds e (Suc n) i (st, w) = run_fds e n (Suc i) (?st, w1)"
    using assms(5-8) il src by (simp add: pfd_get_def call_def Let_def)
  moreover have "pFDs ?st ! i = cleared (pFDs st ! Suc i)" "nPFDs ?st = nPFDs st - 1"
    using d(1-3) by (simp_all add: clear_revents_state)
  moreover have "watched ?st = filter (\<lambda>x. fst x \<noteq> fd) (watched st)"
    using d(2,4) by (simp add: clear_revents_state watched_def filter_map comp_def)
  ultimately show ?thesis by blast
qed

text \<open>When the handler of a descriptor deregisters that descriptor from within its event, the
  event reported for the descriptor that follows it in the array is discarded: the loop goes on
  behind it, no handler is called for it, and its entry is marked as having no event.\<close>

theorem delFD_in_handler_loses_event:
  assumes "watch_inv st" "handlers_set st" "0 < i" "Suc i < nat (nPFDs st)"
    and "pfd_fd (pFDs st ! i) = fd" "pfd_revents (pFDs st ! i) = revs" "revs \<noteq> 0"
    and "\<forall>h. invoke e h (FdEvent fd revs) (st, w) = (snd (delFD fd st), w1)"
  shows "\<exists>st'. run_fds e (Suc n) i (st, w) = run_fds e n (Suc i) (st', w1) \<and>
    nPFDs st' = nPFDs st - 1 \<and> pFDs st' ! i = cleared (pFDs st ! Suc i) \<and>
    watched st' = filter (\<lambda>x. fst x \<noteq> fd) (watched st)"
  using assms by (rule run_fds_leaver)

text \<open>Both descriptors have input; the handler stops watching descriptor 5.\<close>

definition both_ready :: "nat EventLoop" where
  "both_ready = two_fds\<lparr>pFDs := [new_pfd 3 POLLIN, (new_pfd 5 POLLIN)\<lparr>pfd_revents := POLLIN\<rparr>,
     (new_pfd 6 POLLIN)\<lparr>pfd_revents := POLLIN\<rparr>]\<rparr>"

definition leaver :: "nat \<Rightarrow> callback \<Rightarrow> nat EventLoop \<times> string \<Rightarrow> nat EventLoop \<times> string" where
  "leaver h cb s = (snd (delFD 5 (fst s)), snd s)"

theorem delFD_in_handler_loses_event_witness:
  "\<exists>st'. run_fds \<lparr>invoke = leaver, pollf = poll_6\<rparr> 5 1 (both_ready, []) =
     run_fds \<lparr>invoke = leaver, pollf = poll_6\<rparr> 4 2 (st', []) \<and> pfd_revents (pFDs st' ! 1) = 0 \<and>
     watched st' = [(6, Some 2)]"
proof -
  have "watch_inv both_ready" "handlers_set both_ready"
    by (simp_all add: watch_inv_def both_ready_def two_fds_def live_pfds_def new_pfd_def
        handlers_set_def blank_loop_def)
  from delFD_in_handler_loses_event [OF this, of 1 5 POLLIN "\<lparr>invoke = leaver, pollf = poll_6\<rparr>" "[]" "[]" 4]
  show ?thesis
    by (auto simp: both_ready_def two_fds_def new_pfd_def watched_def cleared_def numeral_eq_Suc leaver_def
          simp del: run_fds.simps)
qed

text \<open>No iteration of the event loop reads the self-pipe: the bytes that the signal handler
  has written to it stay there, so after the first signal \<open>poll\<close> finds it readable for ever.\<close>

theorem self_pipe_never_drained:
  assumes "quiet_handlers e act" "loop e fuel ts (st, w) = Some (r, st', w')"
  shows "pipeBytes st \<le> pipeBytes st'"
  using quiet_handlers.loop_from_pipe [OF assms(1), of fuel ts False 0 "(st, w)" r "(st', w')"] assms(2)
  by (simp add: loop_def)

theorem self_pipe_never_drained_witness:
  "\<exists>r st' w'. loop \<lparr>invoke = default_invoke, pollf = poll_6\<rparr> 10 None (two_fds\<lparr>pipeBytes := 1\<rparr>, []) = Some (r, st', w') \<and>
     1 \<le> pipeBytes st'"
proof -
  let ?e = "\<lparr>invoke = default_invoke, pollf = poll_6\<rparr>" and ?st = "two_fds\<lparr>pipeBytes := 1\<rparr>"
  have "watch_inv ?st" "timer_inv ?st" "handlers_set ?st"
    using two_fds_inv by (simp_all add: watch_inv_def timer_inv_def handlers_set_def live_pfds_def)
  moreover have "nPFDs ?st = 3" "sigSources ?st = []" by (simp_all add: two_fds_def blank_loop_def)
  ultimately obtain r st' w' where "loop ?e 10 None (?st, []) = Some (r, st', w')"
    using default_quiet.loop_exact [of ?st poll_6 None "[]"] by (auto simp: poll_6_def)
  with self_pipe_never_drained [OF default_quiet.quiet_handlers_axioms this] show ?thesis by auto
qed

section \<open>The life of an event loop\<close>

text \<open>
  The states of a loop between \<open>init\<close> and any interleaving of its operations, of signals that
  arrive, and of iterations whose handlers are those of the base class. The guards are what the
  callers and the kernel provide: a descriptor is watched once, the self-pipe is left alone, and
  a timer is only added while an entry is free.
\<close>

definition steady_poll :: "(pollfd list \<Rightarrow> int \<Rightarrow> string \<Rightarrow> poll_answer \<times> string) \<Rightarrow> bool" where
  "steady_poll pf \<longleftrightarrow> (\<forall>ps ms w. pa_signals (fst (pf ps ms w)) = [] \<and> pa_ret (fst (pf ps ms w)) \<noteq> -1 \<and>
     length (pa_revents (fst (pf ps ms w))) = length ps)"

inductive ev_step :: "'h EventLoop \<Rightarrow> 'h EventLoop \<Rightarrow> bool" where
  watch: "fd \<noteq> fst (sigPipe st) \<Longrightarrow> fd \<notin> fst ` set (watched st) \<Longrightarrow> ev_step st (snd (addFD True True h fd ev st))"
| watch_nomem: "ev_step st (snd (addFD False a h fd ev st))"
| unwatch: "fd \<noteq> fst (sigPipe st) \<Longrightarrow> ev_step st (snd (delFD fd st))"
| signal_source: "ev_step st (snd (addSignal True sa h sig st))"
| start_timer: "\<exists>i < NTIMERS. \<not> te_valid (timers st ! i) \<Longrightarrow>
    ev_step st (snd (addTimer True (Inr tim) None del h ts st))"
| stop_timer: "ev_step st (snd (delTimer d i st))"
| signal: "ev_step st (sigHandler sig v written st)"
| iterate: "handlers_set st \<Longrightarrow> steady_poll pf \<Longrightarrow> nat (nPFDs st) + length (sigSources st) + 1 < fuel \<Longrightarrow>
    loop \<lparr>invoke = default_invoke, pollf = pf\<rparr> fuel ts (st, w) = Some (r, st', w') \<Longrightarrow> ev_step st st'"

inductive reachable :: "'h EventLoop \<Rightarrow> bool" where
  start: "length (timers st) = NTIMERS \<Longrightarrow> fdSources st = [] \<Longrightarrow> timerSources st = [] \<Longrightarrow>
    reachable (snd (init (Inr p) True None None st))"
| step: "reachable st \<Longrightarrow> ev_step st st' \<Longrightarrow> reachable st'"

lemma watch_inv_cong:
  assumes "nPFDs st' = nPFDs st" "map pfd_fd (pFDs st') = map pfd_fd (pFDs st)"
    "fdSources st' = fdSources st" "sigPipe st' = sigPipe st"
  shows "watch_inv st' = watch_inv st"
proof -
  have "length (pFDs st') = length (pFDs st)" using arg_cong [OF assms(2), of length] by simp
  then show ?thesis using assms by (simp add: watch_inv_def live_pfds_def take_map [symmetric])
qed

lemma timer_inv_cong:
  assumes "map te_valid (timers st') = map te_valid (timers st)"
    "timerSources st' = timerSources st" "nextNode st \<le> nextNode st'"
  shows "timer_inv st \<Longrightarrow> timer_inv st'"
proof -
  assume inv: "timer_inv st"
  have len: "length (timers st') = length (timers st)" using arg_cong [OF assms(1), of length] by simp
  have "te_valid (timers st' ! i) = te_valid (timers st ! i)" if "i < length (timers st)" for i
    using arg_cong [OF assms(1), of "\<lambda>l. l ! i"] that len by simp
  then show "timer_inv st'"
    using timer_invD [OF inv] assms(2,3) len by (auto simp: timer_inv_def)
qed

lemma addTimer_frame:
  "nPFDs (snd (addTimer a c s d h ts st)) = nPFDs st" "pFDs (snd (addTimer a c s d h ts st)) = pFDs st"
  "fdSources (snd (addTimer a c s d h ts st)) = fdSources st" "sigPipe (snd (addTimer a c s d h ts st)) = sigPipe st"
  by (simp_all add: addTimer_def Let_def scan_timers_def split: option.split sum.split)

lemma delTimer_frame:
  "nPFDs (snd (delTimer d i st)) = nPFDs st" "pFDs (snd (delTimer d i st)) = pFDs st"
  "fdSources (snd (delTimer d i st)) = fdSources st" "sigPipe (snd (delTimer d i st)) = sigPipe st"
  by (simp_all add: delTimer_def Let_def split: option.split)

lemma sigHandler_frame:
  "nPFDs (sigHandler sig v b st) = nPFDs st" "pFDs (sigHandler sig v b st) = pFDs st"
  "fdSources (sigHandler sig v b st) = fdSources st" "sigPipe (sigHandler sig v b st) = sigPipe st"
  "timerSources (sigHandler sig v b st) = timerSources st" "nextNode (sigHandler sig v b st) = nextNode st"
  by (simp_all add: sigHandler_def Let_def)

lemma sigHandler_valid: "map te_valid (timers (sigHandler sig v b st)) = map te_valid (timers st)"
proof -
  have "map te_valid (timers (timer_set v (te_fired_update (\<lambda>_. True)) st)) = map te_valid (timers st)"
    by (intro nth_equalityI) (simp_all add: timer_set_nth)
  then show ?thesis by (simp add: sigHandler_def Let_def)
qed

lemma addSignal_frame:
  "nPFDs (snd (addSignal True sa h sig st)) = nPFDs st" "pFDs (snd (addSignal True sa h sig st)) = pFDs st"
  "fdSources (snd (addSignal True sa h sig st)) = fdSources st" "sigPipe (snd (addSignal True sa h sig st)) = sigPipe st"
  "timerSources (snd (addSignal True sa h sig st)) = timerSources st" "timers (snd (addSignal True sa h sig st)) = timers st"
  "nextNode (snd (addSignal True sa h sig st)) = nextNode st + 1"
  by (simp_all add: addSignal_def Let_def split: option.split)

lemma fd_ops_timers:
  "timers (snd (addFD a b h fd ev st)) = timers st" "timerSources (snd (addFD a b h fd ev st)) = timerSources st"
  "nextNode st \<le> nextNode (snd (addFD a b h fd ev st))"
  "timers (snd (delFD fd st)) = timers st" "timerSources (snd (delFD fd st)) = timerSources st"
  "nextNode (snd (delFD fd st)) = nextNode st"
  by (simp_all add: addFD_def delFD_def Let_def split: option.split)

lemma delivered_inv: "timer_inv st \<Longrightarrow> timer_inv (delivered st)"
proof -
  assume "timer_inv st"
  moreover have "timer_inv st \<Longrightarrow> timer_inv (fold deliver is st)" for "is" and st :: "'a EventLoop"
    by (induction "is" arbitrary: st) (simp_all add: deliver_inv)
  ultimately show ?thesis by (simp add: delivered_def Let_def del: upt_rec_numeral)
qed

lemma iterate_inv:
  assumes "watch_inv st" "timer_inv st" "handlers_set st" "steady_poll pf"
    "nat (nPFDs st) + length (sigSources st) + 1 < fuel"
    "loop \<lparr>invoke = default_invoke, pollf = pf\<rparr> fuel ts (st, w) = Some (r, st', w')"
  shows "watch_inv st' \<and> timer_inv st'"
proof -
  let ?w = "fold (\<lambda>(h, cb) w. w @ default_text cb) (pending_calls st) w"
  obtain a w2 where a: "pf (live_pfds st) (timeSpecToMSecs ts) ?w = (a, w2)" by (rule prod.exhaust)
  note inv = watch_invD [OF assms(1)]
  have len: "length (live_pfds st) = nat (nPFDs st)" using inv(1,2) by (simp add: live_pfds_def)
  have ok: "pa_signals a = []" "pa_ret a \<noteq> -1" "length (pa_revents a) = nat (nPFDs st)"
    using assms(4) a len by (metis steady_poll_def fst_conv)+
  let ?st = "(delivered st)\<lparr>pFDs := map cleared (live_pfds st) @ drop (nat (nPFDs st)) (pFDs st)\<rparr>"
  have poll: "pollf \<lparr>invoke = default_invoke, pollf = pf\<rparr> (live_pfds st) (timeSpecToMSecs ts) ?w = (a, w2)"
    using a by simp
  have "st' = ?st"
    using default_quiet.loop_exact [OF assms(1-3) poll ok assms(5)] unfolding assms(6) by (simp only: option.inject prod.inject)
  moreover have "watch_inv ?st = watch_inv st"
  proof (rule watch_inv_cong)
    have "map pfd_fd (map cleared (live_pfds st)) = map pfd_fd (live_pfds st)" by (simp add: cleared_def)
    moreover have "pFDs ?st = map cleared (live_pfds st) @ drop (nat (nPFDs st)) (pFDs st)" by simp
    ultimately have "map pfd_fd (pFDs ?st) = map pfd_fd (live_pfds st @ drop (nat (nPFDs st)) (pFDs st))"
      by (simp only: map_append)
    then show "map pfd_fd (pFDs ?st) = map pfd_fd (pFDs st)"
      by (simp only: live_pfds_def append_take_drop_id)
  qed simp_all
  moreover have "timer_inv ?st"
    by (rule timer_inv_cong [OF _ _ _ delivered_inv [OF assms(2)]]) simp_all
  ultimately show ?thesis using assms(1) by simp
qed

lemma ev_step_inv:
  assumes "ev_step st st'" "watch_inv st" "timer_inv st"
  shows "watch_inv st' \<and> timer_inv st'"
  using assms(1)
proof (cases rule: ev_step.cases)
  case (watch fd h ev)
  then show ?thesis
    using assms(2,3) addFD_watch_inv [OF assms(2)] timer_inv_cong [of st' st] by (simp add: fd_ops_timers)
next
  case (watch_nomem a h fd ev)
  have "watch_inv st' = watch_inv st"
    unfolding watch_nomem by (rule watch_inv_cong) (simp_all add: addFD_def Let_def)
  with watch_nomem assms(2,3) show ?thesis
    using timer_inv_cong [of st' st] by (simp add: fd_ops_timers)
next
  case (unwatch fd)
  then show ?thesis
    using assms(2,3) delFD_watch_inv [OF assms(2)] timer_inv_cong [of st' st] by (simp add: fd_ops_timers)
next
  case (signal_source sa h sig)
  then show ?thesis
    using assms(2,3) watch_inv_cong [of st' st] timer_inv_cong [of st' st] by (simp add: addSignal_frame)
next
  case (start_timer tim del h ts)
  obtain i where "i < NTIMERS" "\<not> te_valid (timers st ! i)" "\<forall>j < i. te_valid (timers st ! j)"
    using start_timer(2) by (rule least_free)
  with start_timer assms(2,3) show ?thesis
    using watch_inv_cong [of st' st] by (simp add: addTimer_frame addTimer_inv)
next
  case (stop_timer d i)
  with assms(2,3) show ?thesis
    using watch_inv_cong [of st' st] by (simp add: delTimer_frame delTimer_inv(1))
next
  case (signal sig v written)
  with assms(2,3) show ?thesis
    using watch_inv_cong [of st' st] timer_inv_cong [of st' st] by (simp add: sigHandler_frame sigHandler_valid)
next
  case (iterate pf fuel ts w r w')
  with assms(2,3) show ?thesis by (auto dest: iterate_inv)
qed



end
