(* ===== verification/Manager.thy ===== *)
theory Manager
  imports Wsrpc_Listener Event_Props
begin

text \<open>
  The service manager of \<^verbatim>\<open>cmd/manager/Manager.cc\<close>: start-up, the handlers it registers with
  the event loop, and the delegate methods by which its RPC listener tells it about clients. The
  world of the event loop is the manager with its listener and the sockets; the listener's
  delegate state is the event loop. The generated request handler of the manager's RPC interface
  is the service value \<open>svc\<close>; the backend that start-up opens last is modelled on its own.
\<close>

section \<open>State\<close>

text \<open>The manager is the only handler.\<close>

datatype handler = TheManager

record ('o, 'v, 'd) Manager =
  m_listener :: "('o, 'v, 'd) WSRPCListener"
  listenFD :: int
  shouldRun :: bool
  reattaching :: bool

datatype mgr_exit = Die string | Edie int string | ExitFailure | AbortCall

section \<open>Options\<close>

text \<open>
  The results of \<open>getopt\<close>: an option character with its argument, if any; \<open>?\<close> is an unknown
  option. \<open>pathSocket\<close> has no initial value: \<open>stack\<close> is what the variable holds.
\<close>

record settings =
  pathPersistentDb :: "string option"
  pathVolatileDb :: "string option"
  pathSocket :: "string option"
  recreatePersistentDb :: bool
  readOnly :: bool
  systemMode :: bool
  reattach :: bool

definition initial_settings :: "string option \<Rightarrow> settings" where
  "initial_settings stack =
     \<lparr>pathPersistentDb = None, pathVolatileDb = None, pathSocket = stack,
      recreatePersistentDb = False, readOnly = False, systemMode = False, reattach = False\<rparr>"

fun getopt_loop :: "(char \<times> string option) list \<Rightarrow> settings \<Rightarrow> mgr_exit + settings" where
  "getopt_loop [] st = Inr st"
| "getopt_loop ((c, optarg) # opts) st =
     (if c = CHR ''c'' then getopt_loop opts (st\<lparr>recreatePersistentDb := True\<rparr>)
      else if c = CHR ''p'' then getopt_loop opts (st\<lparr>pathPersistentDb := optarg\<rparr>)
      else if c = CHR ''q'' then getopt_loop opts (st\<lparr>pathVolatileDb := optarg\<rparr>)
      else if c = CHR ''r'' then getopt_loop opts (st\<lparr>reattach := True\<rparr>)
      else if c = CHR ''s'' then getopt_loop opts (st\<lparr>systemMode := True, readOnly := True\<rparr>)
      else if c = CHR ''t'' then getopt_loop opts (st\<lparr>pathSocket := optarg\<rparr>)
      else if c = CHR ''?'' then Inl ExitFailure
      else Inl AbortCall)"

definition check_settings :: "settings \<Rightarrow> mgr_exit + settings" where
  "check_settings st =
     (if pathSocket st = None then Inl (Die ''No path given for listener socket.'')
      else if pathPersistentDb st = None then Inl (Die ''No path given for persistent repository.'')
      else if pathVolatileDb st = None \<and> reattach st then
        Inl (Die ''Asked to reattach, but no path given for volatile repository.'')
      else if pathVolatileDb st = None \<and> \<not> readOnly st then
        Inl (Die ''No path given for volatile repository.'')
      else Inr (if systemMode st then st\<lparr>readOnly := True\<rparr> else st))"

section \<open>Start-up\<close>

text \<open>What the system calls of \<open>Manager::init\<close> returned; an \<open>errno\<close> where they failed.\<close>

record mgr_sys =
  s_pipe :: "int + int \<times> int"
  s_alrm :: "bool \<times> int option"
  s_malloc :: "int option"
  s_int :: "bool \<times> int option"
  s_usr1 :: "bool \<times> int option"
  s_socket :: "int + int"
  s_bind :: "int option"
  s_listen :: "int option"
  s_addfd :: "bool \<times> bool"

text \<open>The loop, the signals and the options. \<open>SetIf\<close> compares with \<open>-1\<close>; the operations of the loop return \<open>-errno\<close>.\<close>

definition mgr_configure ::
  "mgr_sys \<Rightarrow> string option \<Rightarrow> (char \<times> string option) list \<Rightarrow> handler EventLoop \<Rightarrow> mgr_exit + handler EventLoop \<times> settings" where
  "mgr_configure sys stack opts lp =
     (let (r1, lp1) = init (s_pipe sys) (fst (s_alrm sys)) (snd (s_alrm sys)) (s_malloc sys) lp;
          (r2, lp2) = addSignal (fst (s_int sys)) (snd (s_int sys)) (Some TheManager) SIGINT lp1;
          (r3, lp3) = addSignal (fst (s_usr1 sys)) (snd (s_usr1 sys)) (Some TheManager) SIGUSR1 lp2
      in if r1 = -1 \<or> r2 = -1 \<or> r3 = -1 then Inl (Die ''Failed to initialise runloop.'')
         else case getopt_loop opts (initial_settings stack) of
                Inl ex \<Rightarrow> Inl ex
              | Inr st \<Rightarrow> (case check_settings st of Inl ex \<Rightarrow> Inl ex | Inr st1 \<Rightarrow> Inr (lp3, st1)))"

text \<open>The listening socket.\<close>

definition mgr_listen ::
  "mgr_sys \<Rightarrow> 'v \<Rightarrow> settings \<Rightarrow> handler EventLoop \<times> ('o, 'v, 'd) Manager \<Rightarrow> mgr_exit + handler EventLoop \<times> ('o, 'v, 'd) Manager" where
  "mgr_listen sys svc st s =
     (let (lp, m) = s
      in case s_socket sys of
           Inl er \<Rightarrow> Inl (Edie er ''Failed to create listener socket'')
         | Inr fd \<Rightarrow>
             (case s_bind sys of
                Some er \<Rightarrow> Inl (Edie er ''Failed to bind listener socket'')
              | None \<Rightarrow>
                  (case s_listen sys of
                     Some er \<Rightarrow> Inl (Edie er ''Failed to listen on listener socket'')
                   | None \<Rightarrow>
                       (let (r, lp1) = addFD (fst (s_addfd sys)) (snd (s_addfd sys)) (Some TheManager) fd (POLLIN OR POLLHUP) lp
                        in if r \<noteq> 0 then Inl (Edie (- r) ''Failed to add listener socket to the event loop'')
                           else Inr (lp1, m\<lparr>listenFD := fd, reattaching := reattach st,
                             m_listener := listener_addService svc (listener_attach fd (m_listener m))\<rparr>)))))"

text \<open>\<open>Manager::init\<close> without the files: the old socket that is removed in between, and the repositories at the end.\<close>

definition mgr_init ::
  "mgr_sys \<Rightarrow> string option \<Rightarrow> (char \<times> string option) list \<Rightarrow> 'v \<Rightarrow> handler EventLoop \<times> ('o, 'v, 'd) Manager
     \<Rightarrow> mgr_exit + handler EventLoop \<times> ('o, 'v, 'd) Manager \<times> settings" where
  "mgr_init sys stack opts svc s =
     (case mgr_configure sys stack opts (fst s) of
        Inl ex \<Rightarrow> Inl ex
      | Inr (lp, st) \<Rightarrow>
          (case mgr_listen sys svc st (lp, snd s) of Inl ex \<Rightarrow> Inl ex | Inr (lp1, m1) \<Rightarrow> Inr (lp1, m1, st)))"

lemmas mgr_init_defs = mgr_init_def mgr_configure_def mgr_listen_def

definition new_manager :: "('o, 'v, 'd) Manager" where
  "new_manager =
     \<lparr>m_listener = \<lparr>l_fd = -1, l_svcs = [], clientXprts = []\<rparr>, listenFD = 0, shouldRun = True, reattaching = False\<rparr>"

section \<open>Handlers\<close>

text \<open>The delegate methods; \<open>mem\<close> tells whether the allocations of \<open>addFD\<close> succeed.\<close>

definition mgr_clientConnected ::
  "bool \<times> bool \<Rightarrow> ('o, 'v, 'd) WSRPCTransport \<Rightarrow> handler EventLoop \<Rightarrow> handler EventLoop" where
  "mgr_clientConnected mem x lp =
     snd (addFD (fst mem) (snd mem) (Some TheManager) (x_fd x) (POLLIN OR POLLHUP) lp)"

definition mgr_clientDisconnected ::
  "('o, 'v, 'd) WSRPCTransport \<Rightarrow> handler EventLoop \<Rightarrow> handler EventLoop" where
  "mgr_clientDisconnected x lp = snd (delFD (x_fd x) lp)"

definition mgr_env ::
  "bool \<times> bool \<Rightarrow> (int \<Rightarrow> 'w \<Rightarrow> int \<times> 'w) \<Rightarrow> (int \<Rightarrow> 'w \<Rightarrow> 'w) \<Rightarrow> ('o, 'v, 'd, handler EventLoop, 'w) listener_env" where
  "mgr_env mem acc cls =
     \<lparr>clientConnected = mgr_clientConnected mem, clientDisconnected = mgr_clientDisconnected,
      sys_accept = acc, sys_close = cls\<rparr>"

definition mgr_fdEvent ::
  "'o ucl_api \<Rightarrow> ('o, 'v, 'd, 'w) rpc_env \<Rightarrow> ('o, 'v, 'd, handler EventLoop, 'w) listener_env \<Rightarrow> nat \<Rightarrow> int \<Rightarrow> int
     \<Rightarrow> handler EventLoop \<times> ('o, 'v, 'd) Manager \<times> 'w \<Rightarrow> (handler EventLoop \<times> ('o, 'v, 'd) Manager \<times> 'w) rpc_run" where
  "mgr_fdEvent u e le n fd revents s =
     (let (lp, m, w) = s
      in case listener_fdEvent u e le n fd revents (m_listener m, lp, w) of
           Aborted a \<Rightarrow> Aborted a
         | Unfinished \<Rightarrow> Unfinished
         | Done (l, lp1, w1) \<Rightarrow> Done (lp1, m\<lparr>m_listener := l\<rparr>, w1))"

definition mgr_signalEvent :: "int \<Rightarrow> ('o, 'v, 'd) Manager \<Rightarrow> ('o, 'v, 'd) Manager" where
  "mgr_signalEvent signum m = (if signum = SIGINT then m\<lparr>shouldRun := False\<rparr> else m)"

text \<open>
  The virtual calls of the event loop on the manager. A failed assertion ends the process: the
  flag stays set and nothing is done afterwards.
\<close>

definition mgr_invoke ::
  "'o ucl_api \<Rightarrow> ('o, 'v, 'd, 'w) rpc_env \<Rightarrow> ('o, 'v, 'd, handler EventLoop, 'w) listener_env \<Rightarrow> nat \<Rightarrow> handler \<Rightarrow> callback
     \<Rightarrow> handler EventLoop \<times> (('o, 'v, 'd) Manager \<times> 'w) \<times> bool \<Rightarrow> handler EventLoop \<times> (('o, 'v, 'd) Manager \<times> 'w) \<times> bool" where
  "mgr_invoke u e le n h cb s =
     (let (lp, (m, w), dead) = s
      in if dead then s
         else case cb of
                FdEvent fd revents \<Rightarrow>
                  (case mgr_fdEvent u e le n fd revents (lp, m, w) of
                     Done (lp1, m1, w1) \<Rightarrow> (lp1, (m1, w1), False)
                   | _ \<Rightarrow> (lp, (m, w), True))
              | SignalEvent signum \<Rightarrow> (lp, (mgr_signalEvent signum m, w), False)
              | TimerEvent i \<Rightarrow> s)"

text \<open>\<open>Manager::run\<close>: iterations of the loop until \<open>SIGINT\<close> has been handled.\<close>

fun mgr_run ::
  "(handler, (('o, 'v, 'd) Manager \<times> 'w) \<times> bool) env \<Rightarrow> nat \<Rightarrow> handler EventLoop \<times> (('o, 'v, 'd) Manager \<times> 'w) \<times> bool
     \<Rightarrow> (handler EventLoop \<times> (('o, 'v, 'd) Manager \<times> 'w) \<times> bool) option" where
  "mgr_run ev 0 s = None"
| "mgr_run ev (Suc n) s =
     (if shouldRun (fst (fst (snd s))) then
        (case loop ev n None s of None \<Rightarrow> None | Some (r, s1) \<Rightarrow> mgr_run ev n s1)
      else Some s)"

section \<open>The event loop and the clients\<close>

text \<open>
  The manager watches its listening socket and exactly the descriptors of its clients, each for
  itself, and all clients use the listener's services.
\<close>

definition mgr_inv :: "handler EventLoop \<Rightarrow> ('o, 'v, 'd) Manager \<Rightarrow> bool" where
  "mgr_inv lp m \<longleftrightarrow>
     watch_inv lp \<and>
     watched lp = map (\<lambda>fd. (fd, Some TheManager)) (listenFD m # map x_fd (clientXprts (m_listener m))) \<and>
     l_fd (m_listener m) = listenFD m \<and> shares_services (m_listener m)"

lemma mgr_inv_fds:
  assumes "mgr_inv lp m"
  shows "distinct (fst (sigPipe lp) # listenFD m # map x_fd (clientXprts (m_listener m)))"
    and "fst ` set (watched lp) = set (listenFD m # map x_fd (clientXprts (m_listener m)))"
proof -
  have "map fst (watched lp) = listenFD m # map x_fd (clientXprts (m_listener m))"
    using assms by (simp add: mgr_inv_def comp_def)
  moreover have "map fst (watched lp) = map fs_fd (fdSources lp)" by (simp add: watched_def comp_def)
  ultimately have fds: "map fs_fd (fdSources lp) = listenFD m # map x_fd (clientXprts (m_listener m))" by simp
  show "distinct (fst (sigPipe lp) # listenFD m # map x_fd (clientXprts (m_listener m)))"
    using watch_invD(4) [of lp] assms unfolding fds [symmetric] by (simp add: mgr_inv_def)
  show "fst ` set (watched lp) = set (listenFD m # map x_fd (clientXprts (m_listener m)))"
    by (simp only: watched_fds fds)
qed

lemma mgr_hangup:
  assumes "mgr_inv lp m" "find (\<lambda>x. x_fd x = fd) (clientXprts (m_listener m)) = Some x" "revents AND POLLHUP \<noteq> 0"
  shows "mgr_fdEvent u e (mgr_env mem acc cls) n fd revents (lp, m, w) =
    Done (snd (delFD fd lp),
      m\<lparr>m_listener := (m_listener m)\<lparr>clientXprts := filter (\<lambda>x. x_fd x \<noteq> fd) (clientXprts (m_listener m))\<rparr>\<rparr>,
      cls fd w)"
    and "mgr_inv (snd (delFD fd lp))
      (m\<lparr>m_listener := (m_listener m)\<lparr>clientXprts := filter (\<lambda>x. x_fd x \<noteq> fd) (clientXprts (m_listener m))\<rparr>\<rparr>)"
proof -
  note fds = mgr_inv_fds [OF assms(1)]
  let ?cs = "clientXprts (m_listener m)"
  have x: "x_fd x = fd" "fd \<in> set (map x_fd ?cs)" using find_SomeD [OF assms(2)] by auto
  then have ne: "fd \<noteq> fst (sigPipe lp)" "fd \<noteq> listenFD m" using fds(1) by auto
  have "remove_first (\<lambda>x. x_fd x = fd) ?cs = filter (\<lambda>x. x_fd x \<noteq> fd) ?cs"
    using fds(1) by (intro remove_first_distinct) simp
  then show "mgr_fdEvent u e (mgr_env mem acc cls) n fd revents (lp, m, w) =
    Done (snd (delFD fd lp), m\<lparr>m_listener := (m_listener m)\<lparr>clientXprts := filter (\<lambda>x. x_fd x \<noteq> fd) ?cs\<rparr>\<rparr>, cls fd w)"
    using assms(2,3) x(1)
    by (simp add: mgr_fdEvent_def listener_fdEvent_def mgr_env_def mgr_clientDisconnected_def)
  have w: "watch_inv lp" using assms(1) by (simp add: mgr_inv_def)
  have "watched (snd (delFD fd lp)) = filter (\<lambda>y. fst y \<noteq> fd) (watched lp)"
    using poll_watch.watched_del_filter [OF w, of fd] ne(1) by simp
  then have "watched (snd (delFD fd lp)) =
      map (\<lambda>fd. (fd, Some TheManager)) (listenFD m # map x_fd (filter (\<lambda>x. x_fd x \<noteq> fd) ?cs))"
    using assms(1) ne(2) by (simp add: mgr_inv_def filter_map comp_def)
  then show "mgr_inv (snd (delFD fd lp))
      (m\<lparr>m_listener := (m_listener m)\<lparr>clientXprts := filter (\<lambda>x. x_fd x \<noteq> fd) ?cs\<rparr>\<rparr>)"
    using assms(1) delFD_watch_inv [OF w ne(1)] by (auto simp: mgr_inv_def shares_services_def)
qed

lemma server_transport_fd [simp]: "x_fd (server_transport fd sv) = fd"
  by (simp add: server_transport_def)

lemma mgr_accept:
  assumes "mgr_inv lp m" "acc (listenFD m) w = (clFd, w1)" "clFd \<noteq> -1"
    and "clFd \<noteq> fst (sigPipe lp)" "clFd \<notin> fst ` set (watched lp)"
    and "revents AND POLLHUP = 0"
  shows "\<exists>lp1 m1. mgr_fdEvent u e (mgr_env (True, True) acc cls) n (listenFD m) revents (lp, m, w) = Done (lp1, m1, w1) \<and>
    mgr_inv lp1 m1 \<and> map x_fd (clientXprts (m_listener m1)) = map x_fd (clientXprts (m_listener m)) @ [clFd]"
proof -
  let ?x = "server_transport clFd (Some (l_svcs (m_listener m)))"
  let ?lp = "snd (addFD True True (Some TheManager) clFd (POLLIN OR POLLHUP) lp)"
  let ?m = "m\<lparr>m_listener := (m_listener m)\<lparr>clientXprts := clientXprts (m_listener m) @ [?x]\<rparr>\<rparr>"
  have l: "l_fd (m_listener m) = listenFD m" and w: "watch_inv lp" using assms(1) by (simp_all add: mgr_inv_def)
  have "mgr_fdEvent u e (mgr_env (True, True) acc cls) n (listenFD m) revents (lp, m, w) = Done (?lp, ?m, w1)"
    using assms(2,3,6) l
    by (simp add: mgr_fdEvent_def listener_fdEvent_def mgr_env_def mgr_clientConnected_def Let_def)
  moreover have "watched ?lp = watched lp @ [(clFd, Some TheManager)]" by (simp add: watched_def)
  then have "mgr_inv ?lp ?m"
    using assms(1) addFD_watch_inv [OF w assms(4,5)]
    by (auto simp: mgr_inv_def shares_services_def) (simp_all add: server_transport_def)
  ultimately show ?thesis by auto
qed

lemma mgr_read:
  assumes "mgr_inv lp m" "quiet_services e f g" "fd \<noteq> listenFD m" "revents AND POLLHUP = 0"
    and "length (l_svcs (m_listener m)) < n"
  shows "mgr_fdEvent u e le n fd revents (lp, m, w) \<noteq> Unfinished"
    and "mgr_fdEvent u e le n fd revents (lp, m, w) = Done (lp1, m1, w1) \<Longrightarrow> lp1 = lp \<and> mgr_inv lp1 m1"
proof -
  let ?cs = "clientXprts (m_listener m)"
  have l: "l_fd (m_listener m) = listenFD m" and sh: "shares_services (m_listener m)"
    using assms(1) by (simp_all add: mgr_inv_def)
  have "read_clients u e n fd ?cs w \<noteq> Unfinished"
    using sh assms(5) by (intro quiet_services.read_clients_finishes [OF assms(2)]) (auto simp: shares_services_def)
  then show "mgr_fdEvent u e le n fd revents (lp, m, w) \<noteq> Unfinished"
    using assms(3,4) l
    by (auto simp: mgr_fdEvent_def listener_fdEvent_def Let_def split: rpc_run.splits prod.splits if_splits)
  assume run: "mgr_fdEvent u e le n fd revents (lp, m, w) = Done (lp1, m1, w1)"
  show "lp1 = lp \<and> mgr_inv lp1 m1"
  proof (cases "revents AND POLLIN = 0")
    case True
    then show ?thesis using run assms(1,3,4) l
      by (auto simp: mgr_fdEvent_def listener_fdEvent_def)
  next
    case False
    then obtain xs where xs: "read_clients u e n fd ?cs w = Done (xs, w1)"
      and eq: "lp1 = lp" "m1 = m\<lparr>m_listener := (m_listener m)\<lparr>clientXprts := xs\<rparr>\<rparr>"
      using run assms(3,4) l
      by (auto simp: mgr_fdEvent_def listener_fdEvent_def Let_def split: rpc_run.splits prod.splits if_splits)
    note a = map_anchor [OF quiet_services.read_clients_anchor [OF assms(2) xs]]
    show ?thesis
      using assms(1) a(1) a(2) [of "Some (l_svcs (m_listener m))"] unfolding eq
      by (simp add: mgr_inv_def shares_services_def)
  qed
qed

section \<open>Properties\<close>

text \<open>C5: whatever happens on a descriptor (a new connection, a request, a hangup, an event on an
  unknown descriptor), the handler of the manager finishes or ends in the assertion of the receiver, and afterwards the event
  loop watches the listening socket and exactly the descriptors of the manager's clients, and every client uses
  the listener's services. It relies on the kernel handing out a descriptor that is not in use.\<close>

theorem manager_tracks_clients:
  assumes "mgr_inv lp m" "quiet_services e f g" "length (l_svcs (m_listener m)) < n"
    and "fst (acc (listenFD m) w) \<noteq> fst (sigPipe lp)" "fst (acc (listenFD m) w) \<notin> fst ` set (watched lp)"
  shows "mgr_fdEvent u e (mgr_env (True, True) acc cls) n fd revents (lp, m, w) \<noteq> Unfinished \<and>
    (\<forall>lp1 m1 w1. mgr_fdEvent u e (mgr_env (True, True) acc cls) n fd revents (lp, m, w) = Done (lp1, m1, w1) \<longrightarrow>
       mgr_inv lp1 m1)"
proof (cases "revents AND POLLHUP = 0")
  case False
  show ?thesis
  proof (cases "find (\<lambda>x. x_fd x = fd) (clientXprts (m_listener m))")
    case None
    with False assms(1) show ?thesis by (simp add: mgr_fdEvent_def listener_fdEvent_def)
  next
    case (Some x)
    show ?thesis
      using mgr_hangup(1) [OF assms(1) Some False, of u e "(True, True)" acc cls n w]
        mgr_hangup(2) [OF assms(1) Some False] by simp
  qed
next
  case noHup: True
  show ?thesis
  proof (cases "fd = listenFD m")
    case True
    obtain clFd w1 where acc: "acc (listenFD m) w = (clFd, w1)" by (rule prod.exhaust)
    show ?thesis
    proof (cases "clFd = -1")
      case True
      then show ?thesis using assms(1) acc noHup \<open>fd = listenFD m\<close>
        by (simp add: mgr_fdEvent_def listener_fdEvent_def mgr_env_def mgr_inv_def)
    next
      case False
      show ?thesis
        using mgr_accept [where acc = acc and u = u and e = e and cls = cls and n = n, OF assms(1) acc False _ _ noHup]
          assms(4,5) acc \<open>fd = listenFD m\<close> by auto
    qed
  next
    case False
    show ?thesis using mgr_read [OF assms(1,2) False noHup assms(3)] by blast
  qed
qed

text \<open>For the witnesses: a manager listening on descriptor 5 with the clients 6 and 7; the next
  connection gets descriptor 8.\<close>

definition demo_manager :: "(utree, string, unit) Manager" where
  "demo_manager = new_manager\<lparr>listenFD := 5, m_listener :=
     \<lparr>l_fd = 5, l_svcs = [''ping''], clientXprts = [server_transport 6 (Some [''ping'']), server_transport 7 (Some [''ping''])]\<rparr>\<rparr>"

definition demo_loop :: "handler EventLoop" where
  "demo_loop = blank_loop\<lparr>nPFDs := 4, sigPipe := (3, 4), nextNode := 3,
     pFDs := [new_pfd 3 POLLIN, new_pfd 5 17, (new_pfd 6 17)\<lparr>pfd_revents := 16\<rparr>, (new_pfd 7 17)\<lparr>pfd_revents := 1\<rparr>],
     fdSources := [\<lparr>fs_node = 0, fs_handler = Some TheManager, fs_fd = 5\<rparr>,
       \<lparr>fs_node = 1, fs_handler = Some TheManager, fs_fd = 6\<rparr>, \<lparr>fs_node = 2, fs_handler = Some TheManager, fs_fd = 7\<rparr>]\<rparr>"

definition demo_accept :: "int \<Rightarrow> string \<Rightarrow> int \<times> string" where
  "demo_accept fd w = (8, w)"

definition demo_close :: "int \<Rightarrow> string \<Rightarrow> string" where
  "demo_close fd w = w"

lemma demo_manager_inv: "mgr_inv demo_loop demo_manager" "handlers_set demo_loop"
proof -
  have "watch_inv demo_loop"
    by (simp add: watch_inv_def demo_loop_def live_pfds_def new_pfd_def)
  then show "mgr_inv demo_loop demo_manager"
    by (simp add: mgr_inv_def demo_manager_def demo_loop_def watched_def shares_services_def server_transport_def)
  show "handlers_set demo_loop" by (simp add: handlers_set_def demo_loop_def blank_loop_def)
qed

theorem manager_tracks_clients_witness:
  "\<exists>lp1 m1 w1. mgr_fdEvent tree_ucl demo_env (mgr_env (True, True) demo_accept demo_close) 5 5 POLLIN
     (demo_loop, demo_manager, []) = Done (lp1, m1, w1) \<and> mgr_inv lp1 m1"
proof -
  have "length (l_svcs (m_listener demo_manager)) < 5" "fst (demo_accept (listenFD demo_manager) []) \<noteq> fst (sigPipe demo_loop)"
    "fst (demo_accept (listenFD demo_manager) []) \<notin> fst ` set (watched demo_loop)"
    by (simp_all add: demo_manager_def demo_accept_def demo_loop_def watched_def)
  from manager_tracks_clients [where acc = demo_accept and w = "[]", OF demo_manager_inv(1) demo_quiet this]
  have "mgr_inv lp1 m1" if "mgr_fdEvent tree_ucl demo_env (mgr_env (True, True) demo_accept demo_close) 5 5 POLLIN
     (demo_loop, demo_manager, []) = Done (lp1, m1, w1)" for lp1 m1 w1
    using that by blast
  moreover have "\<exists>lp1 m1 w1. mgr_fdEvent tree_ucl demo_env (mgr_env (True, True) demo_accept demo_close) 5 5 POLLIN
     (demo_loop, demo_manager, []) = Done (lp1, m1, w1)"
    by (simp add: mgr_fdEvent_def listener_fdEvent_def mgr_env_def demo_manager_def demo_accept_def Let_def)
  ultimately show ?thesis by blast
qed

text \<open>When the system calls succeed and the options give the paths that the mode of operation
  needs, \<open>Manager::init\<close> succeeds, with a manager that has no clients, offers its service on the listening
  socket, and whose event loop watches just that socket; a missing path or an unknown option ends the
  process before any socket is made.\<close>

theorem manager_starts:
  fixes svc :: 'v
  assumes "length (timers lp) = NTIMERS" "fdSources lp = []" "timerSources lp = []"
    and "s_pipe sys = Inr p" "s_alrm sys = (True, None)" "s_malloc sys = None" "s_int sys = (True, None)"
    and "s_usr1 sys = (True, None)" "s_socket sys = Inr fd" "s_bind sys = None" "s_listen sys = None"
    and "s_addfd sys = (True, True)" "fd \<noteq> fst p"
  shows "(case getopt_loop opts (initial_settings stack) of
            Inl ex \<Rightarrow> mgr_init sys stack opts svc (lp, new_manager :: ('o, 'v, 'd) Manager) = Inl ex
          | Inr st \<Rightarrow>
              (case check_settings st of
                 Inl ex \<Rightarrow> mgr_init sys stack opts svc (lp, new_manager :: ('o, 'v, 'd) Manager) = Inl ex
               | Inr st1 \<Rightarrow> \<exists>lp1 m1. mgr_init sys stack opts svc (lp, new_manager :: ('o, 'v, 'd) Manager) = Inr (lp1, m1, st1) \<and>
                   mgr_inv lp1 m1 \<and> watched lp1 = [(fd, Some TheManager)] \<and>
                   l_svcs (m_listener m1) = [svc] \<and> clientXprts (m_listener m1) = []))"
proof -
  obtain ts where init: "init (Inr p) True None None lp =
     (0, lp\<lparr>nPFDs := 1, pFDs := [new_pfd (fst p) POLLIN], sigPipe := p, pipeBytes := 0,
            sigSources := sigSources lp @ [\<lparr>ss_node = nextNode lp, ss_handler = None, ss_sigNum = SIGALRM\<rparr>],
            nextNode := nextNode lp + 1, installed := installed lp @ [SIGALRM],
            signalsFired := replicate NSIG False, timers := ts,
            timersBehind := (timersBehind lp)\<lparr>te_valid := False\<rparr>,
            faults := faults lp @ [OutOfBounds ''timers'' (int NTIMERS)]\<rparr>)" (is "_ = (0, ?lp1)")
    using init_state [OF assms(1)] by blast
  let ?lp3 = "snd (addSignal True None (Some TheManager) SIGUSR1 (snd (addSignal True None (Some TheManager) SIGINT ?lp1)))"
  have lp3: "nPFDs ?lp3 = 1" "pFDs ?lp3 = [new_pfd (fst p) POLLIN]" "fdSources ?lp3 = []" "sigPipe ?lp3 = p"
    using assms(2) by (simp_all add: addSignal_frame)
  then have w: "watch_inv ?lp3" and none: "watched ?lp3 = []"
    by (simp_all add: watch_inv_def live_pfds_def new_pfd_def watched_def)
  let ?lp4 = "snd (addFD True True (Some TheManager) fd (POLLIN OR POLLHUP) ?lp3)"
  have "watch_inv ?lp4" using lp3(4) none assms(13) by (intro addFD_watch_inv [OF w]) simp_all
  moreover have watched: "watched ?lp4 = [(fd, Some TheManager)]" using lp3(3) by (simp add: watched_def)
  let ?m = "\<lambda>st1. (new_manager :: ('o, 'v, 'd) Manager)\<lparr>listenFD := fd, reattaching := reattach st1,
     m_listener := listener_addService svc (listener_attach fd (m_listener new_manager))\<rparr>"
  have "mgr_inv ?lp4 (?m st1)" for st1
    using \<open>watch_inv ?lp4\<close> watched
    by (simp add: mgr_inv_def listener_addService_def listener_attach_def new_manager_def shares_services_def)
  moreover have ok: "fst (addSignal True None (Some TheManager) sig x) = 0" for sig x
    by (simp add: addSignal_def Let_def)
  ultimately show ?thesis
    using assms(4-12) init watched
    by (auto simp: mgr_init_defs case_prod_beta Let_def listener_addService_def listener_attach_def new_manager_def
        split: sum.split)
qed

definition demo_sys :: mgr_sys where
  "demo_sys = \<lparr>s_pipe = Inr (3, 4), s_alrm = (True, None), s_malloc = None, s_int = (True, None),
     s_usr1 = (True, None), s_socket = Inr 5, s_bind = None, s_listen = None, s_addfd = (True, True)\<rparr>"

definition demo_opts :: "(char \<times> string option) list" where
  "demo_opts = [(CHR ''p'', Some ''p.db''), (CHR ''q'', Some ''v.db''), (CHR ''t'', Some ''sock'')]"

theorem manager_starts_witness:
  "\<exists>lp1 m1 st1. mgr_init demo_sys None demo_opts () (blank_loop, new_manager :: (nat, unit, unit) Manager) = Inr (lp1, m1, st1) \<and>
     watched lp1 = [(5, Some TheManager)] \<and> readOnly st1 = False"
proof -
  have "getopt_loop demo_opts (initial_settings None) = Inr \<lparr>pathPersistentDb = Some ''p.db'', pathVolatileDb = Some ''v.db'',
      pathSocket = Some ''sock'', recreatePersistentDb = False, readOnly = False, systemMode = False, reattach = False\<rparr>"
    by (simp add: demo_opts_def initial_settings_def)
  with manager_starts [where 'o = nat and 'd = unit and lp = blank_loop and sys = demo_sys and p = "(3, 4)" and fd = 5 and opts = demo_opts
      and stack = None and svc = "()"]
  show ?thesis by (auto simp: demo_sys_def blank_loop_def check_settings_def)
qed

text \<open>\<open>Manager::init\<close> takes only \<open>-1\<close> for a failure of the event loop, which reports \<open>-errno\<close>: if the
  self-pipe cannot be made (for want of descriptors, say), start-up goes on and succeeds, the listening socket takes the
  place of the self-pipe in the array handed to \<open>poll\<close>, and no event on it is ever dispatched.\<close>

theorem failed_loop_goes_unnoticed:
  fixes svc :: 'v
  assumes "s_pipe sys = Inl er" "1 < er" "length (timers lp) = NTIMERS" "nPFDs lp = 0" "pFDs lp = []" "fdSources lp = []"
    and "s_int sys = (True, None)" "s_usr1 sys = (True, None)" "s_socket sys = Inr fd" "s_bind sys = None"
    and "s_listen sys = None" "s_addfd sys = (True, True)"
    and "getopt_loop opts (initial_settings stack) = Inr st" "check_settings st = Inr st1"
  shows "\<exists>lp1 m1. mgr_init sys stack opts svc (lp, new_manager :: ('o, 'v, 'd) Manager) = Inr (lp1, m1, st1) \<and>
    live_pfds lp1 = [new_pfd fd (POLLIN OR POLLHUP)] \<and>
    run_fds ev (Suc n) 1 (pipe_event lp1, w) = Some (pipe_event lp1, w)"
proof -
  obtain ts where clear: "clear_timers (lp\<lparr>signalsFired := replicate NSIG False\<rparr>) =
      fault (OutOfBounds ''timers'' (int NTIMERS)) (lp\<lparr>signalsFired := replicate NSIG False, timers := ts,
        timersBehind := (timersBehind lp)\<lparr>te_valid := False\<rparr>\<rparr>)"
    using clear_timers_state [of "lp\<lparr>signalsFired := replicate NSIG False\<rparr>"] assms(3) by auto
  let ?lp1 = "snd (init (s_pipe sys) (fst (s_alrm sys)) (snd (s_alrm sys)) (s_malloc sys) lp)"
  have r1: "fst (init (s_pipe sys) (fst (s_alrm sys)) (snd (s_alrm sys)) (s_malloc sys) lp) = - er"
    and lp1: "nPFDs ?lp1 = 0" "pFDs ?lp1 = []" "fdSources ?lp1 = []"
    using assms(1,4-6) by (simp_all add: init_def Let_def clear)
  have ok: "fst (addSignal True None (Some TheManager) sig x) = 0" for sig x
    by (simp add: addSignal_def Let_def)
  let ?lp3 = "snd (addSignal True None (Some TheManager) SIGUSR1 (snd (addSignal True None (Some TheManager) SIGINT ?lp1)))"
  have lp3: "nPFDs ?lp3 = 0" "pFDs ?lp3 = []" using lp1 by (simp_all add: addSignal_frame)
  let ?lp4 = "snd (addFD True True (Some TheManager) fd (POLLIN OR POLLHUP) ?lp3)"
  have live: "live_pfds ?lp4 = [new_pfd fd (POLLIN OR POLLHUP)]" "nPFDs ?lp4 = 1"
    using addFD_live(1) [of ?lp3 "Some TheManager" fd "POLLIN OR POLLHUP"] lp3 by (simp_all add: live_pfds_def)
  have "nPFDs (pipe_event ?lp4) = 1" using live(2) by (simp add: pipe_event_def clear_revents_def)
  then have "run_fds ev (Suc n) 1 (pipe_event ?lp4, w) = Some (pipe_event ?lp4, w)" by simp
  moreover have "\<exists>m1. mgr_init sys stack opts svc (lp, new_manager :: ('o, 'v, 'd) Manager) = Inr (?lp4, m1, st1)"
    using assms(2,7-14) r1 ok by (simp add: mgr_init_defs case_prod_beta Let_def)
  ultimately show ?thesis using live(1) by blast
qed

theorem failed_loop_goes_unnoticed_witness:
  "\<exists>lp1 m1 st1. mgr_init (demo_sys\<lparr>s_pipe := Inl 24\<rparr>) None demo_opts () (blank_loop, new_manager :: (nat, unit, unit) Manager) =
      Inr (lp1, m1, st1) \<and> live_pfds lp1 = [new_pfd 5 (POLLIN OR POLLHUP)]"
proof -
  let ?st = "\<lparr>pathPersistentDb = Some ''p.db'', pathVolatileDb = Some ''v.db'',
      pathSocket = Some ''sock'', recreatePersistentDb = False, readOnly = False, systemMode = False, reattach = False\<rparr>"
  have st: "getopt_loop demo_opts (initial_settings None) = Inr ?st" "check_settings ?st = Inr ?st"
    by (simp_all add: demo_opts_def initial_settings_def check_settings_def)
  have "length (timers (blank_loop :: handler EventLoop)) = NTIMERS" "nPFDs (blank_loop :: handler EventLoop) = 0"
    "pFDs (blank_loop :: handler EventLoop) = []" "fdSources (blank_loop :: handler EventLoop) = []"
    by (simp_all add: blank_loop_def)
  from failed_loop_goes_unnoticed [where sys = "demo_sys\<lparr>s_pipe := Inl 24\<rparr>" and er = 24 and fd = 5 and svc = "()"
      and n = 0 and w = "()" and ev = "\<lparr>invoke = (\<lambda>h cb s. s), pollf = (\<lambda>_ _ w. (\<lparr>pa_ret = 0, pa_errno = 0, pa_revents = [], pa_signals = []\<rparr>, w))\<rparr>", OF _ _ this _ _ _ _ _ _ st]
  show ?thesis by (auto simp: demo_sys_def simp del: run_fds.simps)
qed

text \<open>When a client hangs up in the same round of \<open>poll\<close> in which the client behind it in the
  array has sent a request, the manager stops watching the first, as it must, and the dispatch then skips the second:
  its event is cleared without the manager being called for it.\<close>

theorem hangup_hides_request:
  assumes "mgr_inv lp m" "handlers_set lp" "0 < i" "Suc i < nat (nPFDs lp)"
    and "pfd_fd (pFDs lp ! i) = fd" "pfd_revents (pFDs lp ! i) = revs" "revs AND POLLHUP \<noteq> 0"
    and "fd \<in> x_fd ` set (clientXprts (m_listener m))"
    and "invoke ev = mgr_invoke u e (mgr_env mem acc cls) k"
  shows "\<exists>lp1 m1. run_fds ev (Suc n) i (lp, (m, w), False) = run_fds ev n (Suc i) (lp1, (m1, cls fd w), False) \<and>
    mgr_inv (snd (delFD fd lp)) m1 \<and> watched lp1 = watched (snd (delFD fd lp)) \<and>
    pFDs lp1 ! i = cleared (pFDs lp ! Suc i)"
proof -
  obtain x where x: "find (\<lambda>x. x_fd x = fd) (clientXprts (m_listener m)) = Some x"
    using assms(8) by (cases "find (\<lambda>x. x_fd x = fd) (clientXprts (m_listener m))") (auto simp: find_None_iff)
  let ?m = "m\<lparr>m_listener := (m_listener m)\<lparr>clientXprts := filter (\<lambda>x. x_fd x \<noteq> fd) (clientXprts (m_listener m))\<rparr>\<rparr>"
  note hup = mgr_hangup(1) [OF assms(1) x assms(7), of u e mem acc cls k w] mgr_hangup(2) [OF assms(1) x assms(7)]
  have w: "watch_inv lp" using assms(1) by (simp add: mgr_inv_def)
  have ne: "fd \<noteq> fst (sigPipe lp)" using assms(8) mgr_inv_fds(1) [OF assms(1)] by force
  have "\<forall>h. invoke ev h (FdEvent fd revs) (lp, (m, w), False) = (snd (delFD fd lp), (?m, cls fd w), False)"
    by (simp add: assms(9) mgr_invoke_def hup(1))
  moreover have "revs \<noteq> 0" using assms(7) by auto
  ultimately obtain lp1 where "run_fds ev (Suc n) i (lp, (m, w), False) = run_fds ev n (Suc i) (lp1, (?m, cls fd w), False)"
    "pFDs lp1 ! i = cleared (pFDs lp ! Suc i)" "watched lp1 = filter (\<lambda>x. fst x \<noteq> fd) (watched lp)"
    using run_fds_leaver [OF w assms(2-6)] by metis
  moreover have "watched (snd (delFD fd lp)) = filter (\<lambda>x. fst x \<noteq> fd) (watched lp)"
    using poll_watch.watched_del_filter [OF w] ne by simp
  ultimately show ?thesis using hup(2) by (intro exI [of _ lp1] exI [of _ ?m]) simp
qed

lemma cleared_revents: "pfd_revents (cleared p) = 0"
  by (simp add: cleared_def)

theorem hangup_hides_request_witness:
  "\<exists>lp1 m1. run_fds \<lparr>invoke = mgr_invoke tree_ucl demo_env (mgr_env (True, True) demo_accept demo_close) 5,
       pollf = (\<lambda>_ _ w. (\<lparr>pa_ret = 0, pa_errno = 0, pa_revents = [], pa_signals = []\<rparr>, w))\<rparr> (Suc 4) 2
       (demo_loop, (demo_manager, []), False) =
     run_fds \<lparr>invoke = mgr_invoke tree_ucl demo_env (mgr_env (True, True) demo_accept demo_close) 5,
       pollf = (\<lambda>_ _ w. (\<lparr>pa_ret = 0, pa_errno = 0, pa_revents = [], pa_signals = []\<rparr>, w))\<rparr> 4 (Suc 2)
       (lp1, (m1, demo_close 6 []), False) \<and> pfd_revents (pFDs lp1 ! 2) = 0"
proof -
  have "0 < (2::nat)" "Suc 2 < nat (nPFDs demo_loop)" "pfd_fd (pFDs demo_loop ! 2) = 6" "pfd_revents (pFDs demo_loop ! 2) = 16"
    "(16::int) AND POLLHUP \<noteq> 0" "(6::int) \<in> x_fd ` set (clientXprts (m_listener demo_manager))"
    by (simp_all add: demo_loop_def demo_manager_def new_pfd_def)
  then show ?thesis
    using hangup_hides_request [OF demo_manager_inv, of 2 6 16
      "\<lparr>invoke = mgr_invoke tree_ucl demo_env (mgr_env (True, True) demo_accept demo_close) 5,
       pollf = (\<lambda>_ _ w. (\<lparr>pa_ret = 0, pa_errno = 0, pa_revents = [], pa_signals = []\<rparr>, w))\<rparr>"
      tree_ucl demo_env "(True, True)" demo_accept demo_close 5 4 "[]"]
      cleared_revents by (metis (no_types, lifting) env.select_convs(1))
qed

end
