(* ===== verification/Manager_Live.thy ===== *)
theory Manager_Live
  imports Manager
begin

text \<open>
  The main loop of the manager comes to its end: \<open>SIGINT\<close>, caught by the signal handler of the event
  loop, reaches the manager in the next iteration and stops it.
\<close>

section \<open>Iterations in which little happens\<close>

lemma run_signals_append:
  "run_signals e n (is @ js) s = (case run_signals e n is s of None \<Rightarrow> None | Some s1 \<Rightarrow> run_signals e n js s1)"
  by (induction e n "is" s rule: run_signals.induct) (auto simp: Let_def split: option.split)

lemma run_signals_none: "(\<And>i. i \<in> set is \<Longrightarrow> \<not> signalsFired (fst s) ! i) \<Longrightarrow> run_signals e n is s = Some s"
  by (induction "is") auto

lemma run_fds_none:
  assumes "\<And>j. i \<le> j \<Longrightarrow> int j < nPFDs (fst s) \<Longrightarrow> pfd_revents (pfd_get j (fst s)) = 0" "nat (nPFDs (fst s)) - i < n"
  shows "run_fds e n i s = Some s"
  using assms
proof (induction n arbitrary: i)
  case (Suc n)
  have "pfd_revents (pfd_get i (fst s)) = 0" if "int i < nPFDs (fst s)" using that Suc.prems(1) by simp
  moreover have "run_fds e n (Suc i) s = Some s" if "int i < nPFDs (fst s)"
    using that Suc.prems by (intro Suc.IH) auto
  ultimately show ?case by simp
qed simp

text \<open>No entry but the self-pipe reports an event.\<close>

definition quiet_entries :: "'h EventLoop \<Rightarrow> bool" where
  "quiet_entries st \<longleftrightarrow> (\<forall>j \<ge> 1. int j < nPFDs st \<longrightarrow> pfd_revents (pfd_get j st) = 0)"

lemma quiet_set_revents:
  assumes "watch_inv lp" "nPFDs st = nPFDs lp" "pFDs st = set_revents rs (nat (nPFDs lp)) (pFDs lp)"
    and "\<And>j. 0 < j \<Longrightarrow> j < length rs \<Longrightarrow> rs ! j = 0"
  shows "quiet_entries st"
  unfolding quiet_entries_def
proof (intro allI impI)
  fix j assume "1 \<le> j" "int j < nPFDs st"
  then have j: "0 < j" "j < nat (nPFDs lp)" "j < length (pFDs lp)"
    using watch_invD(2) [OF assms(1)] assms(2) by auto
  have "pFDs st ! j = (pFDs lp ! j)\<lparr>pfd_revents := 0\<rparr>" "length (pFDs st) = length (pFDs lp)"
    using j assms(4) [of j] by (auto simp: assms(3) set_revents_def nth_enumerate_eq)
  then show "pfd_revents (pfd_get j st) = 0" using j(3) by (simp add: pfd_get_def)
qed

lemma quiet_pipe_event: "quiet_entries st \<Longrightarrow> quiet_entries (pipe_event st)"
  by (auto simp: quiet_entries_def pipe_event_def clear_revents_def pfd_get_def)

lemma run_fds_quiet: "quiet_entries (fst s) \<Longrightarrow> nat (nPFDs (fst s)) \<le> n \<Longrightarrow> run_fds e (Suc n) 1 s = Some s"
  by (rule run_fds_none) (auto simp: quiet_entries_def)

lemma pipe_event_frame [simp]:
  "nPFDs (pipe_event st) = nPFDs st" "fdSources (pipe_event st) = fdSources st" "signalFired (pipe_event st) = signalFired st"
  "signalsFired (pipe_event st) = signalsFired st" "sigSources (pipe_event st) = sigSources st"
  "watched (pipe_event st) = watched st"
  by (simp_all add: pipe_event_def clear_revents_def watched_def)

text \<open>The manager takes \<open>SIGINT\<close> from any number of sources.\<close>

definition mgr_ev where
  "mgr_ev u e le n pf = \<lparr>invoke = mgr_invoke u e le n, pollf = pf\<rparr>"

lemma run_sources_sigint:
  assumes "\<And>src. src \<in> set (sigSources lp) \<Longrightarrow> ss_sigNum src = SIGINT \<Longrightarrow> ss_handler src = Some TheManager"
    and "length (sigSources lp) - k < fuel"
  shows "run_sources (mgr_ev u e le n pf) fuel k SIGINT (lp, (m, w), False) =
    Some (lp, (if \<exists>src \<in> set (drop k (sigSources lp)). ss_sigNum src = SIGINT then m\<lparr>shouldRun := False\<rparr> else m, w), False)"
  using assms(2)
proof (induction fuel arbitrary: k m)
  case (Suc fuel)
  show ?case
  proof (cases "k < length (sigSources lp)")
    case True
    let ?src = "sigSources lp ! k"
    have drop: "drop k (sigSources lp) = ?src # drop (Suc k) (sigSources lp)" using True by (simp add: Cons_nth_drop_Suc)
    note IH = Suc.IH [of "Suc k"]
    have fuel: "length (sigSources lp) - Suc k < fuel" using Suc.prems True by simp
    show ?thesis
    proof (cases "ss_sigNum ?src = SIGINT")
      case True
      with assms(1) [of ?src] \<open>k < length (sigSources lp)\<close> have h: "ss_handler ?src = Some TheManager" by simp
      have "call (mgr_ev u e le n pf) (ss_handler ?src) (SignalEvent SIGINT) (lp, (m, w), False) = (lp, (m\<lparr>shouldRun := False\<rparr>, w), False)"
        by (simp add: call_def h mgr_ev_def mgr_invoke_def mgr_signalEvent_def)
      with True \<open>k < length (sigSources lp)\<close> show ?thesis
        using IH [OF fuel, of "m\<lparr>shouldRun := False\<rparr>"] by (simp add: drop)
    next
      case False
      with \<open>k < length (sigSources lp)\<close> show ?thesis using IH [OF fuel, of m] by (simp add: drop)
    qed
  qed simp
qed simp

section \<open>SIGINT\<close>

lemma run_signals_sigint:
  assumes "\<And>src. src \<in> set (sigSources lp) \<Longrightarrow> ss_sigNum src = SIGINT \<Longrightarrow> ss_handler src = Some TheManager"
    and "\<exists>src \<in> set (sigSources lp). ss_sigNum src = SIGINT"
    and "signalsFired lp = (replicate NSIG False)[nat SIGINT := True]" "length (sigSources lp) < fuel"
  shows "run_signals (mgr_ev u e le n pf) fuel [0..<NSIG] (lp, (m, w), False) =
    Some (lp\<lparr>signalsFired := replicate NSIG False\<rparr>, (m\<lparr>shouldRun := False\<rparr>, w), False)"
proof -
  let ?lp = "lp\<lparr>signalsFired := replicate NSIG False\<rparr>"
  have upt: "[0..<NSIG] = [0, 1] @ [2] @ [3..<NSIG]" by (simp add: upt_rec)
  have "run_sources (mgr_ev u e le n pf) fuel 0 SIGINT (?lp, (m, w), False) = Some (?lp, (m\<lparr>shouldRun := False\<rparr>, w), False)"
    using run_sources_sigint [of ?lp 0 fuel u e le n pf m w] assms(1,2,4) by simp
  moreover have "(signalsFired lp)[2 := False] = replicate NSIG False" "signalsFired lp ! 2"
    "\<not> signalsFired lp ! 0" "\<not> signalsFired lp ! 1"
    by (simp_all add: assms(3) list_update_same_conv)
  ultimately have two: "run_signals (mgr_ev u e le n pf) fuel [2] (lp, (m, w), False) = Some (?lp, (m\<lparr>shouldRun := False\<rparr>, w), False)"
    "run_signals (mgr_ev u e le n pf) fuel [0, 1] (lp, (m, w), False) = Some (lp, (m, w), False)"
    by simp_all
  have "run_signals (mgr_ev u e le n pf) fuel [3..<NSIG] (?lp, (m\<lparr>shouldRun := False\<rparr>, w), False) = Some (?lp, (m\<lparr>shouldRun := False\<rparr>, w), False)"
    by (rule run_signals_none) auto
  with two show ?thesis unfolding upt run_signals_append by simp
qed

text \<open>C12: the manager stops. When \<open>SIGINT\<close> arrives while no other signal is pending and the manager is registered for it,
  and the following \<open>poll\<close> reports nothing but the self-pipe, then \<open>run\<close> returns after that iteration, with fuel for
  the entries of the loop and the sources of signals, and without having touched the clients.\<close>

theorem sigint_stops:
  assumes "watch_inv lp" "signalsFired lp = replicate NSIG False"
    and "\<And>src. src \<in> set (sigSources lp) \<Longrightarrow> ss_sigNum src = SIGINT \<Longrightarrow> ss_handler src = Some TheManager"
    and "\<exists>src \<in> set (sigSources lp). ss_sigNum src = SIGINT" "shouldRun m"
    and "pf (live_pfds lp) (-1) ((m\<lparr>shouldRun := False\<rparr>, w), False) = (a, (m\<lparr>shouldRun := False\<rparr>, w1), False)"
    and "pa_signals a = []" "pa_ret a \<noteq> -1" "\<And>j. 0 < j \<Longrightarrow> j < length (pa_revents a) \<Longrightarrow> pa_revents a ! j = 0"
    and "nat (nPFDs lp) + length (sigSources lp) + 3 < fuel"
  shows "\<exists>lp'. mgr_run \<lparr>invoke = mgr_invoke u e le n, pollf = pf\<rparr> fuel (sigHandler SIGINT v True lp, (m, w), False) =
      Some (lp', (m\<lparr>shouldRun := False\<rparr>, w1), False) \<and> watched lp' = watched lp"
proof -
  let ?ev = "mgr_ev u e le n pf" and ?m = "m\<lparr>shouldRun := False\<rparr>" and ?s = "sigHandler SIGINT v True lp"
  have "fuel = Suc (Suc (Suc (fuel - 3)))" using assms(10) by simp
  then obtain k where k: "fuel = Suc (Suc (Suc k))" by blast
  define lp1 where "lp1 = ?s\<lparr>signalFired := False, signalsFired := replicate NSIG False\<rparr>"
  define lp2 where "lp2 = lp1\<lparr>pFDs := set_revents (pa_revents a) (nat (nPFDs lp)) (pFDs lp)\<rparr>"
  define lp3 where "lp3 = pipe_event lp2"
  have same: "nPFDs ?s = nPFDs lp" "pFDs ?s = pFDs lp" "sigSources ?s = sigSources lp" "fdSources ?s = fdSources lp"
    "signalFired ?s" "signalsFired ?s = (replicate NSIG False)[nat SIGINT := True]"
    by (simp_all add: sigHandler_def Let_def assms(2))
  have "run_signals ?ev (Suc k) [0..<NSIG] (?s\<lparr>signalFired := False\<rparr>, (m, w), False) = Some (lp1, (?m, w), False)"
    using run_signals_sigint [of "?s\<lparr>signalFired := False\<rparr>" "Suc k" u e le n pf m w] assms(3,4,10) k
    by (simp add: same lp1_def)
  moreover have "run_poll ?ev (Suc k) None False 0 (lp1, (?m, w), False) = Some (pa_ret a, lp2, (?m, w1), False)"
    using assms(6-8) by (simp add: do_poll_def mgr_ev_def timeSpecToMSecs_def live_pfds_def lp1_def lp2_def same)
  moreover have "run_fds ?ev (Suc k) 1 (lp3, (?m, w1), False) = Some (lp3, (?m, w1), False)"
  proof (rule run_fds_quiet)
    have "quiet_entries lp2"
      using assms(9) by (intro quiet_set_revents [OF assms(1)]) (simp_all add: lp2_def lp1_def same)
    then show "quiet_entries (fst (lp3, (?m, w1), False))" by (simp add: lp3_def quiet_pipe_event)
    show "nat (nPFDs (fst (lp3, (?m, w1), False))) \<le> k"
      using assms(10) k by (simp add: lp3_def lp2_def lp1_def same)
  qed
  moreover have flag: "\<not> signalFired lp3" "watched lp3 = watched lp"
    by (simp_all add: lp3_def lp2_def lp1_def same watched_def)
  ultimately have "loop ?ev (Suc (Suc k)) None (?s, (m, w), False) = Some (pa_ret a, lp3, (?m, w1), False)"
    by (simp add: loop_def same lp3_def del: run_fds.simps run_poll.simps run_signals.simps)
  then show ?thesis using flag(2) assms(5) unfolding k mgr_ev_def by simp
qed

text \<open>A manager with two clients, registered for \<open>SIGINT\<close>, whose next \<open>poll\<close> sees the byte in the self-pipe.\<close>

definition sigint_loop :: "handler EventLoop" where
  "sigint_loop = demo_loop\<lparr>sigSources := [\<lparr>ss_node = 9, ss_handler = Some TheManager, ss_sigNum = SIGINT\<rparr>]\<rparr>"

definition pipe_poll :: "pollfd list \<Rightarrow> int \<Rightarrow> 'w \<Rightarrow> poll_answer \<times> 'w" where
  "pipe_poll ps ms w = (\<lparr>pa_ret = 1, pa_errno = 0, pa_revents = [POLLIN, 0, 0, 0], pa_signals = []\<rparr>, w)"

theorem sigint_stops_witness:
  "\<exists>lp'. mgr_run \<lparr>invoke = mgr_invoke tree_ucl demo_env (mgr_env (True, True) demo_accept demo_close) 5, pollf = pipe_poll\<rparr> 9
     (sigHandler SIGINT 0 True sigint_loop, (demo_manager, []), False) =
     Some (lp', (demo_manager\<lparr>shouldRun := False\<rparr>, []), False)"
proof -
  have inv: "watch_inv sigint_loop"
    using demo_manager_inv(1) by (simp add: sigint_loop_def mgr_inv_def watch_inv_def live_pfds_def)
  have "\<exists>lp'. mgr_run \<lparr>invoke = mgr_invoke tree_ucl demo_env (mgr_env (True, True) demo_accept demo_close) 5, pollf = pipe_poll\<rparr> 9
      (sigHandler SIGINT 0 True sigint_loop, (demo_manager, []), False) =
      Some (lp', (demo_manager\<lparr>shouldRun := False\<rparr>, []), False) \<and> watched lp' = watched sigint_loop"
  proof (rule sigint_stops [OF inv])
    show "0 < j \<Longrightarrow> j < length (pa_revents \<lparr>pa_ret = 1, pa_errno = 0, pa_revents = [POLLIN, 0, 0, 0], pa_signals = []\<rparr>) \<Longrightarrow>
        pa_revents \<lparr>pa_ret = 1, pa_errno = 0, pa_revents = [POLLIN, 0, 0, 0], pa_signals = []\<rparr> ! j = 0" for j
      by (auto simp: less_Suc_eq)
  qed (auto simp: sigint_loop_def demo_loop_def demo_manager_def new_manager_def blank_loop_def pipe_poll_def)
  then show ?thesis by blast
qed

section \<open>SIGINT while the manager waits\<close>

text \<open>\<open>SIGINT\<close> interrupts \<open>poll\<close>; the repeated call sees the byte in the self-pipe, and the signal is delivered before
  the iteration ends.\<close>

lemma sigint_in_poll:
  assumes "watch_inv lp" "\<not> signalFired lp" "signalsFired lp = replicate NSIG False"
    and "\<And>src. src \<in> set (sigSources lp) \<Longrightarrow> ss_sigNum src = SIGINT \<Longrightarrow> ss_handler src = Some TheManager"
    and "\<exists>src \<in> set (sigSources lp). ss_sigNum src = SIGINT" "shouldRun m"
    and "pf (live_pfds lp) (-1) ((m, w), False) = (a1, (m, w1), False)"
    and "pa_ret a1 = -1" "pa_errno a1 = EINTR" "pa_signals a1 = [(SIGINT, v)]"
    and "pf (live_pfds lp) (-1) ((m, w1), False) = (a2, (m, w2), False)"
    and "pa_ret a2 \<noteq> -1" "pa_signals a2 = []" "\<And>j. 0 < j \<Longrightarrow> j < length (pa_revents a2) \<Longrightarrow> pa_revents a2 ! j = 0"
    and "nat (nPFDs lp) + length (sigSources lp) + 4 < fuel"
  shows "\<exists>lp'. mgr_run \<lparr>invoke = mgr_invoke u e le n, pollf = pf\<rparr> fuel (lp, (m, w), False) =
      Some (lp', (m\<lparr>shouldRun := False\<rparr>, w2), False)"
proof -
  let ?ev = "mgr_ev u e le n pf" and ?m = "m\<lparr>shouldRun := False\<rparr>"
  obtain k where k: "fuel = Suc (Suc (Suc (Suc k)))" "nat (nPFDs lp) + length (sigSources lp) < k"
    using assms(15) by (intro that [of "fuel - 4"]) simp_all
  define lp1 where "lp1 = (sigHandler SIGINT v True lp)\<lparr>errno := EINTR\<rparr>"
  define lp2 where "lp2 = lp1\<lparr>pFDs := set_revents (pa_revents a2) (nat (nPFDs lp)) (pFDs lp)\<rparr>"
  define lp3 where "lp3 = pipe_event lp2"
  define lp4 where "lp4 = lp3\<lparr>signalFired := False, signalsFired := replicate NSIG False\<rparr>"
  have lp1: "nPFDs lp1 = nPFDs lp" "pFDs lp1 = pFDs lp" "sigSources lp1 = sigSources lp" "signalFired lp1"
    "signalsFired lp1 = (replicate NSIG False)[nat SIGINT := True]" "errno lp1 = EINTR"
    by (simp_all add: lp1_def sigHandler_def Let_def assms(3))
  have start: "lp\<lparr>signalFired := False\<rparr> = lp" using assms(2) by (cases lp) simp
  have "quiet_entries lp2"
    using assms(14) by (intro quiet_set_revents [OF assms(1)]) (simp_all add: lp2_def lp1)
  then have q: "quiet_entries lp3" by (simp add: lp3_def quiet_pipe_event)
  then have "quiet_entries lp4" by (auto simp: lp4_def quiet_entries_def pfd_get_def)
  with q have quiet: "quiet_entries lp3" "quiet_entries (pipe_event lp4)" by (simp_all add: quiet_pipe_event)
  have n: "nPFDs lp3 = nPFDs lp" "nPFDs (pipe_event lp4) = nPFDs lp" "sigSources lp3 = sigSources lp" "signalFired lp3"
    "signalsFired lp3 = (replicate NSIG False)[nat SIGINT := True]" "\<not> signalFired (pipe_event lp4)"
    by (simp_all add: lp3_def lp4_def lp2_def lp1)
  have p1: "do_poll ?ev None (lp, (m, w), False) = (-1, lp1, (m, w1), False)"
    using assms(7-10) by (simp add: do_poll_def mgr_ev_def timeSpecToMSecs_def live_pfds_def lp1_def)
  have p2: "do_poll ?ev None (lp1, (m, w1), False) = (pa_ret a2, lp2, (m, w2), False)"
    using assms(11-13) by (simp add: do_poll_def mgr_ev_def timeSpecToMSecs_def live_pfds_def lp2_def lp1)
  have poll: "run_poll ?ev (Suc (Suc k)) None False 0 (lp, (m, w), False) = Some (pa_ret a2, lp2, (m, w2), False)"
    using p1 p2 lp1(6) assms(12) by simp
  have fds: "run_fds ?ev (Suc (Suc k)) 1 (lp3, (m, w2), False) = Some (lp3, (m, w2), False)"
    "run_fds ?ev (Suc k) 1 (pipe_event lp4, (?m, w2), False) = Some (pipe_event lp4, (?m, w2), False)"
    using quiet n(1,2) k(2) by (intro run_fds_quiet; simp)+
  have sigs: "run_signals ?ev (Suc k) [0..<NSIG] (lp3\<lparr>signalFired := False\<rparr>, (m, w2), False) = Some (lp4, (?m, w2), False)"
    using run_signals_sigint [of "lp3\<lparr>signalFired := False\<rparr>" "Suc k" u e le n pf m w2] assms(4,5) n k(2)
    by (simp add: lp4_def)
  have again: "run_poll ?ev (Suc k) None True (pa_ret a2) (lp4, (?m, w2), False) = Some (pa_ret a2, lp4, (?m, w2), False)"
    using assms(12) by simp
  have "loop_from ?ev (Suc (Suc k)) None True (pa_ret a2) (lp3, (m, w2), False) =
      Some (pa_ret a2, pipe_event lp4, (?m, w2), False)"
    using sigs again fds(2) n(4,6) by (simp del: run_fds.simps run_poll.simps run_signals.simps)
  note again = this
  have "loop ?ev (Suc (Suc (Suc k))) None (lp, (m, w), False) = Some (pa_ret a2, pipe_event lp4, (?m, w2), False)"
    unfolding loop_def
    by (subst loop_from.simps(2))
      (simp add: poll fds(1) [unfolded One_nat_def] n(4) again assms(2) start lp3_def [symmetric]
        del: run_fds.simps run_poll.simps run_signals.simps loop_from.simps)
  then show ?thesis using assms(6) unfolding k(1) mgr_ev_def by simp
qed

end
