(* ===== verification/Sqlite.thy ===== *)
theory Sqlite
  imports Eci_Prelude
begin

text \<open>
  The additions to SQLite of \<^verbatim>\<open>lib/eci/SQLite.c\<close>: statements made with \<open>printf\<close> formats, and queries
  for one or two numbers. SQLite itself is not part of the repository: the record \<open>sqlite_api\<close> of its
  functions is an argument of everything that calls it. A statement handle is a value that \<open>sqlite3_step\<close>
  advances; the database connection is threaded through.
\<close>

section \<open>The functions of SQLite\<close>

abbreviation (input) SQLITE_OK :: int where "SQLITE_OK \<equiv> 0"
abbreviation (input) SQLITE_NOMEM :: int where "SQLITE_NOMEM \<equiv> 7"
abbreviation (input) SQLITE_ROW :: int where "SQLITE_ROW \<equiv> 100"
abbreviation (input) SQLITE_DONE :: int where "SQLITE_DONE \<equiv> 101"

text \<open>\<open>sq_malloc\<close> tells whether the buffer for a formatted text can be allocated.\<close>

record ('db, 's) sqlite_api =
  sq_exec :: "string \<Rightarrow> 'db \<Rightarrow> int \<times> 'db"
  sq_prepare :: "string \<Rightarrow> 'db \<Rightarrow> int \<times> 's \<times> 'db"
  sq_bind_int :: "nat \<Rightarrow> int \<Rightarrow> 's \<Rightarrow> int \<times> 's"
  sq_step :: "'s \<Rightarrow> 'db \<Rightarrow> int \<times> 's \<times> 'db"
  sq_reset :: "'s \<Rightarrow> 's"
  sq_column_int :: "'s \<Rightarrow> nat \<Rightarrow> int"
  sq_column_count :: "'s \<Rightarrow> nat"
  sq_finalize :: "'s \<Rightarrow> 'db \<Rightarrow> 'db"
  sq_last_insert_rowid :: "'db \<Rightarrow> int"
  sq_malloc :: "string \<Rightarrow> bool"

section \<open>Runs\<close>

text \<open>A run returns, ends the program (\<open>die\<close> and failed assertions, with their message), or has not
  ended with the fuel it was given.\<close>

datatype 'a sql_run = Ret 'a | Died string | Spinning

type_synonym ('db, 'a) sql = "'db \<Rightarrow> 'a sql_run \<times> 'db"

definition sql_return :: "'a \<Rightarrow> ('db, 'a) sql" where
  "sql_return x db = (Ret x, db)"

definition die :: "string \<Rightarrow> ('db, 'a) sql" where
  "die msg db = (Died msg, db)"

definition sql_bind :: "('db, 'a) sql \<Rightarrow> ('a \<Rightarrow> ('db, 'b) sql) \<Rightarrow> ('db, 'b) sql" where
  "sql_bind m f db =
     (case m db of (Ret x, db1) \<Rightarrow> f x db1 | (Died msg, db1) \<Rightarrow> (Died msg, db1) | (Spinning, db1) \<Rightarrow> (Spinning, db1))"

definition sql_lift :: "('db \<Rightarrow> 'a \<times> 'db) \<Rightarrow> ('db, 'a) sql" where
  "sql_lift f db = (case f db of (x, db1) \<Rightarrow> (Ret x, db1))"

text \<open>\<open>if (res != SQLITE_OK) die(...)\<close>.\<close>

definition sql_check :: "string \<Rightarrow> int \<Rightarrow> ('db, unit) sql" where
  "sql_check msg res = (if res \<noteq> SQLITE_OK then die msg else sql_return ())"

fun sql_each :: "('x \<Rightarrow> ('db, unit) sql) \<Rightarrow> 'x list \<Rightarrow> ('db, unit) sql" where
  "sql_each f [] = sql_return ()"
| "sql_each f (x # xs) = sql_bind (f x) (\<lambda>_. sql_each f xs)"

section \<open>Formatted statements\<close>

text \<open>\<open>eciVASPrintF\<close>: the text, or \<open>-ENOMEM\<close> for an empty text or a failed allocation.\<close>

definition eciVASPrintF :: "('db, 's) sqlite_api \<Rightarrow> string \<Rightarrow> fmt_arg list \<Rightarrow> int + string" where
  "eciVASPrintF A fmt args =
     (let t = fmt_text fmt args in if t = [] \<or> \<not> sq_malloc A t then Inl (- ENOMEM) else Inr t)"

definition sqlite3_execf :: "('db, 's) sqlite_api \<Rightarrow> string \<Rightarrow> fmt_arg list \<Rightarrow> 'db \<Rightarrow> int \<times> 'db" where
  "sqlite3_execf A fmt args db =
     (case eciVASPrintF A fmt args of Inl e \<Rightarrow> (SQLITE_NOMEM, db) | Inr query \<Rightarrow> sq_exec A query db)"

text \<open>The statement is unspecified when its text could not be made: \<open>None\<close>.\<close>

definition sqlite3_prepare_v2f ::
  "('db, 's) sqlite_api \<Rightarrow> string \<Rightarrow> fmt_arg list \<Rightarrow> 'db \<Rightarrow> (int \<times> 's option) \<times> 'db" where
  "sqlite3_prepare_v2f A fmt args db =
     (case eciVASPrintF A fmt args of
        Inl e \<Rightarrow> ((SQLITE_NOMEM, None), db)
      | Inr query \<Rightarrow> (case sq_prepare A query db of (res, stmt, db1) \<Rightarrow> ((res, Some stmt), db1)))"

text \<open>A formatted statement that is executed and checked.\<close>

definition exec_or_die :: "('db, 's) sqlite_api \<Rightarrow> string \<Rightarrow> string \<Rightarrow> fmt_arg list \<Rightarrow> ('db, unit) sql" where
  "exec_or_die A msg fmt args = sql_bind (sql_lift (sqlite3_execf A fmt args)) (sql_check msg)"

section \<open>Queries for numbers\<close>

text \<open>The result is set only if there is a row; \<open>None\<close> is "not set".\<close>

definition sqlite3_get_single_int :: "('db, 's) sqlite_api \<Rightarrow> string \<Rightarrow> 'db \<Rightarrow> (int \<times> int option) \<times> 'db" where
  "sqlite3_get_single_int A query db =
     (let (res, stmt, db1) = sq_prepare A query db
      in if res \<noteq> SQLITE_OK then ((res, None), db1)
         else (let (res2, stmt2, db2) = sq_step A stmt db1
               in ((res2, if res2 = SQLITE_ROW then Some (sq_column_int A stmt2 0) else None), sq_finalize A stmt2 db2)))"

definition sqlite3_get_single_intf ::
  "('db, 's) sqlite_api \<Rightarrow> string \<Rightarrow> fmt_arg list \<Rightarrow> 'db \<Rightarrow> (int \<times> int option) \<times> 'db" where
  "sqlite3_get_single_intf A fmt args db =
     (case eciVASPrintF A fmt args of
        Inl e \<Rightarrow> ((SQLITE_NOMEM, None), db)
      | Inr query \<Rightarrow> sqlite3_get_single_int A query db)"

definition sqlite3_get_two_int :: "('db, 's) sqlite_api \<Rightarrow> string \<Rightarrow> ('db, int \<times> (int \<times> int) option) sql" where
  "sqlite3_get_two_int A query db =
     (let (res, stmt, db1) = sq_prepare A query db
      in if res \<noteq> SQLITE_OK then (Ret (res, None), db1)
         else (let (res2, stmt2, db2) = sq_step A stmt db1
               in if res2 = SQLITE_ROW then
                    (if sq_column_count A stmt2 < 2 then (Died ''assertion failed'', db2)
                     else (Ret (res2, Some (sq_column_int A stmt2 0, sq_column_int A stmt2 1)), sq_finalize A stmt2 db2))
                  else (Ret (res2, None), sq_finalize A stmt2 db2)))"

definition sqlite3_get_two_intf ::
  "('db, 's) sqlite_api \<Rightarrow> string \<Rightarrow> fmt_arg list \<Rightarrow> ('db, int \<times> (int \<times> int) option) sql" where
  "sqlite3_get_two_intf A fmt args =
     (case eciVASPrintF A fmt args of
        Inl e \<Rightarrow> sql_return (SQLITE_NOMEM, None)
      | Inr query \<Rightarrow> sqlite3_get_two_int A query)"

section \<open>Lemmas\<close>

lemma sql_run_simps [simp]:
  "sql_bind (sql_return x) f = f x" "sql_bind (die msg) f = die msg"
  "sql_bind (sql_bind m f) g = sql_bind m (\<lambda>x. sql_bind (f x) g)"
  by (auto simp: sql_bind_def sql_return_def die_def fun_eq_iff split: sql_run.splits prod.splits)

text \<open>The calls of \<open>sqlite3_exec\<close> with what they returned, recorded beside a database.\<close>

definition traced :: "('db, 's) sqlite_api \<Rightarrow> ((string \<times> int) list \<times> 'db, 's) sqlite_api" where
  "traced A =
     \<lparr>sq_exec = (\<lambda>q (l, db). case sq_exec A q db of (res, db1) \<Rightarrow> (res, l @ [(q, res)], db1)),
      sq_prepare = (\<lambda>q (l, db). case sq_prepare A q db of (res, s, db1) \<Rightarrow> (res, s, l, db1)),
      sq_bind_int = sq_bind_int A,
      sq_step = (\<lambda>s (l, db). case sq_step A s db of (res, s1, db1) \<Rightarrow> (res, s1, l, db1)),
      sq_reset = sq_reset A, sq_column_int = sq_column_int A, sq_column_count = sq_column_count A,
      sq_finalize = (\<lambda>s (l, db). (l, sq_finalize A s db)),
      sq_last_insert_rowid = (\<lambda>(l, db). sq_last_insert_rowid A db),
      sq_malloc = sq_malloc A\<rparr>"

text \<open>
  \<open>writes P m\<close>: the statements that \<open>m\<close> executes all satisfy \<open>P\<close>, and have all succeeded if \<open>m\<close> returns.
\<close>

definition writes :: "(string \<Rightarrow> bool) \<Rightarrow> ((string \<times> int) list \<times> 'db, 'a) sql \<Rightarrow> bool" where
  "writes P m \<longleftrightarrow> (\<forall>l db. \<exists>mid. fst (snd (m (l, db))) = l @ mid \<and> (\<forall>(q, res) \<in> set mid. P q) \<and>
     (\<forall>x. fst (m (l, db)) = Ret x \<longrightarrow> (\<forall>(q, res) \<in> set mid. res = SQLITE_OK)))"

lemma writesI:
  assumes "\<And>l db. \<exists>mid. fst (snd (m (l, db))) = l @ mid \<and> (\<forall>(q, res) \<in> set mid. P q) \<and>
     (\<forall>x. fst (m (l, db)) = Ret x \<longrightarrow> (\<forall>(q, res) \<in> set mid. res = SQLITE_OK))"
  shows "writes P m"
  using assms unfolding writes_def by blast

lemma writesD:
  assumes "writes P m" "m (l, db) = (r, l1, db1)"
  obtains mid where "l1 = l @ mid" "\<forall>(q, res) \<in> set mid. P q"
    "\<And>x. r = Ret x \<Longrightarrow> \<forall>(q, res) \<in> set mid. res = SQLITE_OK"
proof -
  from assms(1) have "\<exists>mid. fst (snd (m (l, db))) = l @ mid \<and> (\<forall>(q, res) \<in> set mid. P q) \<and>
     (\<forall>x. fst (m (l, db)) = Ret x \<longrightarrow> (\<forall>(q, res) \<in> set mid. res = SQLITE_OK))"
    unfolding writes_def by blast
  with that show ?thesis unfolding assms(2) by auto
qed

lemma writes_return [simp]: "writes P (sql_return x)" "writes P (die msg)" "writes P (sql_check msg res)"
  by (auto intro!: writesI simp: sql_return_def die_def sql_check_def)

lemma writes_bind:
  assumes "writes P m" "\<And>x. writes P (f x)"
  shows "writes P (sql_bind m f)"
proof (rule writesI)
  fix l db
  obtain r l1 db1 where m: "m (l, db) = (r, l1, db1)" by (metis prod.collapse)
  from writesD [OF assms(1) m] obtain mid where mid: "l1 = l @ mid" "\<forall>(q, res) \<in> set mid. P q"
    "\<And>x. r = Ret x \<Longrightarrow> \<forall>(q, res) \<in> set mid. res = SQLITE_OK" by blast
  show "\<exists>mid. fst (snd (sql_bind m f (l, db))) = l @ mid \<and> (\<forall>(q, res) \<in> set mid. P q) \<and>
     (\<forall>x. fst (sql_bind m f (l, db)) = Ret x \<longrightarrow> (\<forall>(q, res) \<in> set mid. res = SQLITE_OK))"
  proof (cases r)
    case (Ret x)
    from assms(2) [of x] obtain mid' where "fst (snd (f x (l1, db1))) = l1 @ mid'" "\<forall>(q, res) \<in> set mid'. P q"
      "\<And>y. fst (f x (l1, db1)) = Ret y \<Longrightarrow> \<forall>(q, res) \<in> set mid'. res = SQLITE_OK"
      unfolding writes_def by meson
    with mid Ret show ?thesis by (intro exI [of _ "mid @ mid'"]) (auto simp: sql_bind_def m)
  qed (use mid in \<open>auto simp: sql_bind_def m\<close>)
qed

lemma writes_each: "(\<And>x. x \<in> set xs \<Longrightarrow> writes P (f x)) \<Longrightarrow> writes P (sql_each f xs)"
  by (induction xs) (auto intro!: writes_bind)

lemma writes_reads [simp]:
  "writes P (sql_lift (sqlite3_get_single_intf (traced A) fmt args))"
  "writes P (sqlite3_get_two_intf (traced A) fmt args)"
  "writes P (sql_lift (sqlite3_prepare_v2f (traced A) fmt args))"
  by (auto intro!: writesI simp: sql_lift_def sqlite3_get_single_intf_def sqlite3_get_single_int_def sqlite3_get_two_intf_def
      sqlite3_get_two_int_def sqlite3_prepare_v2f_def sql_return_def traced_def Let_def split: sum.splits prod.splits)

lemma writes_exec:
  assumes "P (fmt_text fmt args)"
  shows "writes P (exec_or_die (traced A) msg fmt args)"
  using assms
  by (auto intro!: writesI simp: exec_or_die_def sql_bind_def sql_lift_def sqlite3_execf_def eciVASPrintF_def traced_def Let_def
      sql_check_def die_def sql_return_def split: sum.splits prod.splits)

end
