(* ===== verification/Logger.thy ===== *)
theory Logger
  imports Eci_Prelude
begin

text \<open>
  The logger of \<^verbatim>\<open>lib/eci/Logger.cc\<close>, from which the classes of the program inherit. A logger is the name of its
  subsystem; every function is the text it prints. The local time and \<open>strerror\<close> are arguments. \<open>die\<close> and \<open>edie\<close>
  end the process: their result is the text and the exit status.
\<close>

section \<open>Loggers\<close>

datatype LogLevel = kDebug | kInfo | kWarn | kErr | kFatal

record Logger =
  subsys :: string

definition new_Logger :: "string \<Rightarrow> Logger option \<Rightarrow> Logger" where
  "new_Logger subsysName parent =
     \<lparr>subsys = (case parent of Some p \<Rightarrow> subsys p @ ''/'' @ subsysName | None \<Rightarrow> subsysName)\<rparr>"

section \<open>Text\<close>

abbreviation (input) ESC :: char where "ESC \<equiv> CHR 0x1B"

definition KNRM :: string where "KNRM = ESC # ''[0m''"
definition KRED :: string where "KRED = ESC # ''[31m''"
definition KYEL :: string where "KYEL = ESC # ''[33m''"
definition KBLU :: string where "KBLU = ESC # ''[34m''"
definition KWHT :: string where "KWHT = ESC # ''[37m''"

definition level_pfx :: "LogLevel \<Rightarrow> string" where
  "level_pfx level =
     (if level = kErr then KRED @ ''ERROR: '' @ KNRM
      else if level = kFatal then KRED @ ''FATAL ERROR: '' @ KNRM
      else if level = kWarn then KYEL @ ''WARNING: '' @ KNRM
      else [])"

text \<open>\<^verbatim>\<open>%.2d\<close>: at least two digits.\<close>

definition show_two :: "int \<Rightarrow> string" where
  "show_two i =
     (let ds = show_nat (nat \<bar>i\<bar>)
      in (if i < 0 then ''-'' else []) @ (if length ds < 2 then ''0'' @ ds else ds))"

text \<open>\<open>snprintf\<close> into the buffer of 26 bytes keeps 25 characters.\<close>

definition time_str :: "int \<times> int \<times> int \<Rightarrow> string" where
  "time_str tm =
     (case tm of (tm_hour, tm_min, tm_sec) \<Rightarrow>
        take 25 (show_two tm_hour @ '':'' @ show_two tm_min @ '':'' @ show_two tm_sec))"

definition printPrefix :: "Logger \<Rightarrow> int \<times> int \<times> int \<Rightarrow> LogLevel \<Rightarrow> string option \<Rightarrow> string" where
  "printPrefix lg now level optExtra =
     (case optExtra of
        Some extra \<Rightarrow>
          KWHT @ ''['' @ time_str now @ ''] '' @ subsys lg @ (''/'' @ KBLU) @ extra @ KNRM @ '': '' @ level_pfx level
      | None \<Rightarrow> KWHT @ ''['' @ time_str now @ ''] '' @ KNRM @ subsys lg @ '': '' @ KNRM @ level_pfx level)"

definition logger_logi :: "Logger \<Rightarrow> int \<times> int \<times> int \<Rightarrow> LogLevel \<Rightarrow> string option \<Rightarrow> string \<Rightarrow> fmt_arg list \<Rightarrow> string" where
  "logger_logi lg now level extra fmt args = printPrefix lg now level extra @ fmt_text fmt args"

definition logger_log :: "Logger \<Rightarrow> int \<times> int \<times> int \<Rightarrow> LogLevel \<Rightarrow> string \<Rightarrow> fmt_arg list \<Rightarrow> string" where
  "logger_log lg now level fmt args = printPrefix lg now level None @ fmt_text fmt args"

definition logger_loge ::
  "(int \<Rightarrow> string) \<Rightarrow> Logger \<Rightarrow> int \<times> int \<times> int \<Rightarrow> LogLevel \<Rightarrow> int \<Rightarrow> string \<Rightarrow> fmt_arg list \<Rightarrow> string" where
  "logger_loge strerror lg now level eNo fmt args =
     printPrefix lg now level None @ fmt_text fmt args @ '': '' @ strerror eNo @ ''\<newline>''"

definition logger_ilog :: "Logger \<Rightarrow> int \<times> int \<times> int \<Rightarrow> LogLevel \<Rightarrow> string option \<Rightarrow> string \<Rightarrow> fmt_arg list \<Rightarrow> string" where
  "logger_ilog lg now level extra fmt args = logger_logi lg now level extra fmt args"

definition logger_die :: "Logger \<Rightarrow> int \<times> int \<times> int \<Rightarrow> string \<Rightarrow> fmt_arg list \<Rightarrow> string \<times> int" where
  "logger_die lg now fmt args = (printPrefix lg now kFatal None @ fmt_text fmt args, 1)"

definition logger_edie ::
  "(int \<Rightarrow> string) \<Rightarrow> Logger \<Rightarrow> int \<times> int \<times> int \<Rightarrow> int \<Rightarrow> string \<Rightarrow> fmt_arg list \<Rightarrow> string \<times> int" where
  "logger_edie strerror lg now eNo fmt args =
     (printPrefix lg now kFatal None @ fmt_text fmt args @ '': '' @ strerror eNo @ ''\<newline>'', 1)"

section \<open>The terminal\<close>

text \<open>What a terminal makes of the text: the characters it shows and the rendition in force, an escape sequence
  being in progress or not.\<close>

datatype term_mode = Plain string | Escaped string | InCode string string

fun term_step :: "term_mode \<times> string \<Rightarrow> char \<Rightarrow> term_mode \<times> string" where
  "term_step (Plain r, shown) c = (if c = ESC then (Escaped r, shown) else (Plain r, shown @ [c]))"
| "term_step (Escaped r, shown) c = (if c = CHR ''['' then (InCode r [], shown) else (Plain r, shown))"
| "term_step (InCode r ds, shown) c = (if c = CHR ''m'' then (Plain ds, shown) else (InCode r (ds @ [c]), shown))"

definition render :: "term_mode \<times> string \<Rightarrow> string \<Rightarrow> term_mode \<times> string" where
  "render = foldl term_step"

lemma render_append: "render t (xs @ ys) = render (render t xs) ys"
  by (simp add: render_def)

lemma render_Cons [simp]:
  "render t [] = t" "c \<noteq> ESC \<Longrightarrow> render (Plain r, shown) (c # cs) = render (Plain r, shown @ [c]) cs"
  by (simp_all add: render_def)

lemma render_plain: "ESC \<notin> set xs \<Longrightarrow> render (Plain r, shown) xs = (Plain r, shown @ xs)"
  by (induction xs arbitrary: shown) (auto simp: render_def)

lemma render_codes [simp]:
  "render (Plain r, shown) KNRM = (Plain ''0'', shown)" "render (Plain r, shown) KRED = (Plain ''31'', shown)"
  "render (Plain r, shown) KYEL = (Plain ''33'', shown)" "render (Plain r, shown) KBLU = (Plain ''34'', shown)"
  "render (Plain r, shown) KWHT = (Plain ''37'', shown)"
  by (simp_all add: render_def KNRM_def KRED_def KYEL_def KBLU_def KWHT_def)

definition level_text :: "LogLevel \<Rightarrow> string" where
  "level_text level =
     (case level of kErr \<Rightarrow> ''ERROR: '' | kFatal \<Rightarrow> ''FATAL ERROR: '' | kWarn \<Rightarrow> ''WARNING: '' | _ \<Rightarrow> [])"

lemma render_level: "render (Plain ''0'', shown) (level_pfx level) = (Plain ''0'', shown @ level_text level)"
  by (cases level) (simp_all add: level_pfx_def level_text_def render_append)

lemma esc_not_digit: "ESC \<notin> set (show_nat n)"
proof
  assume "ESC \<in> set (show_nat n)"
  with show_nat_digits [of n] have "ESC \<in> set ''0123456789''" by blast
  then show False by simp
qed

lemma esc_not_in_time: "ESC \<notin> set (time_str now)"
proof -
  have "ESC \<notin> set (show_two i)" for i using esc_not_digit by (simp add: show_two_def Let_def)
  then show ?thesis by (cases now) (auto simp: time_str_def dest!: in_set_takeD)
qed

text \<open>C37: what a reader sees in front of a message is the time, the path of the subsystem with the extra name, and
  the level if it is a warning or worse; and the terminal is back in its normal rendition when the message begins,
  whatever it was before. This holds if the names contain no escape character.\<close>

theorem prefix_rendered:
  assumes "ESC \<notin> set (subsys lg)" "optExtra \<noteq> None \<longrightarrow> ESC \<notin> set (the optExtra)"
  shows "render (Plain r, shown) (printPrefix lg now level optExtra) =
    (Plain ''0'', shown @ ''['' @ time_str now @ ''] '' @ subsys lg @
       (case optExtra of None \<Rightarrow> [] | Some extra \<Rightarrow> ''/'' @ extra) @ '': '' @ level_text level)"
  using assms esc_not_in_time [of now]
  by (cases optExtra) (simp_all add: printPrefix_def render_append render_plain render_level)

theorem prefix_rendered_witness:
  "render (Plain ''31'', []) (printPrefix (new_Logger ''evloop'' (Some (new_Logger ''mgr'' None))) (9, 5, 7) kWarn None) =
     (Plain ''0'', ''[09:05:07] mgr/evloop: WARNING: '')"
proof -
  have "time_str (9, 5, 7) = ''09:05:07''" by code_simp
  then show ?thesis
    using prefix_rendered [of "new_Logger ''evloop'' (Some (new_Logger ''mgr'' None))" None "''31''" "[]" "(9, 5, 7)" kWarn]
    by (simp add: new_Logger_def level_text_def)
qed

text \<open>A logger with a parent is named by the path from the outermost one.\<close>

lemma nested_subsys:
  "subsys (foldl (\<lambda>p name. new_Logger name (Some p)) (new_Logger root None) names) = root @ concat (map (\<lambda>n. ''/'' @ n) names)"
proof (induction names rule: rev_induct)
  case (snoc n ns)
  then show ?case by (simp add: new_Logger_def)
qed (simp add: new_Logger_def)

end
