(* ===== verification/Backend.thy ===== *)
theory Backend
  imports Sqlite Logger
begin

text \<open>
  The repository of the manager, \<^verbatim>\<open>cmd/manager/Backend.cc\<close>, and the two methods of the manager's RPC
  interface that use it, \<^verbatim>\<open>cmd/manager/RPC.cc\<close>. A connection is the state of a database; opening one and
  deleting a file are functions of the environment. The schemas and the query that the build embeds
  from \<^verbatim>\<open>.sql\<close> files are its strings. Of the console output only the log callback is modelled.
\<close>

abbreviation (input) SCHEMA_VERSION :: int where "SCHEMA_VERSION \<equiv> 1"

abbreviation (input) OPEN_READONLY :: int where "OPEN_READONLY \<equiv> 1"
abbreviation (input) OPEN_READWRITE :: int where "OPEN_READWRITE \<equiv> 2"
abbreviation (input) OPEN_CREATE :: int where "OPEN_CREATE \<equiv> 4"
abbreviation (input) OPEN_NOMUTEX :: int where "OPEN_NOMUTEX \<equiv> 32768"

record ('db, 'w) backend_env =
  be_unlink :: "string \<Rightarrow> 'w \<Rightarrow> int option \<times> 'w"
  be_open :: "string option \<Rightarrow> int \<Rightarrow> 'w \<Rightarrow> (int \<times> 'db) \<times> 'w"
  be_close :: "'db \<Rightarrow> 'w \<Rightarrow> 'w"
  be_schema :: string
  be_volatileSchema :: string
  be_query :: string

record ('db, 's) Backend =
  connPersistent :: 'db
  connVolatile :: 'db
  permNstCurProps :: 's
  bk_pathPersistentDb :: string
  bk_pathVolatileDb :: "string option"
  bk_readOnly :: bool

record InstanceName =
  nm_type :: string
  nm_svc :: string
  nm_nst :: string

section \<open>Metadata\<close>

definition metadataInit :: "('db, 's) sqlite_api \<Rightarrow> 'db \<Rightarrow> int \<times> 'db" where
  "metadataInit A = sq_exec A ''INSERT INTO \"METADATA\"VALUES (1);''"

definition metadataValidate :: "('db, 's) sqlite_api \<Rightarrow> 'db \<Rightarrow> int \<times> 'db" where
  "metadataValidate A db =
     (let ((res, ver), db1) = sqlite3_get_single_int A ''SELECT Version FROM Metadata;'' db
      in case (if res \<noteq> SQLITE_ROW then None else ver) of None \<Rightarrow> (-1, db1) | Some v \<Rightarrow> (v, db1))"

definition repositoryInit :: "('db, 's) sqlite_api \<Rightarrow> string \<Rightarrow> 'db \<Rightarrow> int \<times> 'db" where
  "repositoryInit A schema db =
     (let (res, db1) = sq_exec A schema db in if res \<noteq> SQLITE_OK then (res, db1) else metadataInit A db1)"

section \<open>Instances\<close>

definition persistentInstanceLookup :: "('db, 's) sqlite_api \<Rightarrow> InstanceName \<Rightarrow> 'db \<Rightarrow> int \<times> 'db" where
  "persistentInstanceLookup A name db =
     (let ((res, svcId), db1) = sqlite3_get_single_intf A ''SELECT ServiceID FROM ServicesWHERE Type = '%s' AND Name = '%s';''
            [ArgS (nm_type name), ArgS (nm_svc name)] db
      in case (if res \<noteq> SQLITE_ROW then None else svcId) of
           None \<Rightarrow> (- ENOENT, db1)
         | Some svc \<Rightarrow>
             (let ((res2, instId), db2) = sqlite3_get_single_intf A
                    ''SELECT InstanceID FROM InstancesWHERE FK_Parent_ServiceID = %dAND Name = '%s';'' [ArgD svc, ArgS (nm_nst name)] db1
              in case (if res2 \<noteq> SQLITE_ROW then None else instId) of None \<Rightarrow> (- ENOENT, db2) | Some i \<Rightarrow> (i, db2)))"

text \<open>The loop over the rows of the composed properties.\<close>

fun snapshot_rows :: "('db, 's) sqlite_api \<Rightarrow> nat \<Rightarrow> 's \<Rightarrow> ('db, 's) sql" where
  "snapshot_rows A 0 stmt = (\<lambda>db. (Spinning, db))"
| "snapshot_rows A (Suc n) stmt =
     sql_bind (sql_lift (\<lambda>db. case sq_step A stmt db of (res, stmt1, db1) \<Rightarrow> ((res, stmt1), db1))) (\<lambda>(res, stmt1).
       if res = SQLITE_DONE then sql_return stmt1 else snapshot_rows A n stmt1)"

definition persistentInstanceSnapshotCreate ::
  "('db, 's) sqlite_api \<Rightarrow> nat \<Rightarrow> int \<Rightarrow> string \<Rightarrow> ('db, 's) Backend \<Rightarrow> int sql_run \<times> ('db, 's) Backend" where
  "persistentInstanceSnapshotCreate A n instanceID name b =
     (let (res, stmt) = sq_bind_int A 1 instanceID (permNstCurProps b)
      in if res \<noteq> SQLITE_OK then (Died ''Failed to bind composed property lookup statement'', b\<lparr>permNstCurProps := stmt\<rparr>)
         else case snapshot_rows A n stmt (connPersistent b) of
                (Ret stmt1, db) \<Rightarrow> (Ret 0, b\<lparr>permNstCurProps := sq_reset A stmt1, connPersistent := db\<rparr>)
              | (Died msg, db) \<Rightarrow> (Died msg, b\<lparr>connPersistent := db\<rparr>)
              | (Spinning, db) \<Rightarrow> (Spinning, b\<lparr>connPersistent := db\<rparr>))"

section \<open>Start-up\<close>

text \<open>\<open>unlink\<close> a file, unless there is none, and open it anew.\<close>

definition recreate :: "('db, 'w) backend_env \<Rightarrow> string \<Rightarrow> string \<Rightarrow> string \<Rightarrow> ('w, 'db) sql" where
  "recreate e path unlinkMsg openMsg =
     sql_bind (sql_lift (be_unlink e path)) (\<lambda>er.
       if er \<noteq> None \<and> er \<noteq> Some ENOENT then die unlinkMsg
       else sql_bind (sql_lift (be_open e (Some path) (OPEN_READWRITE OR OPEN_CREATE OR OPEN_NOMUTEX))) (\<lambda>(res, db).
              if res \<noteq> SQLITE_OK then die openMsg else sql_return db))"

definition attach_repo ::
  "('db, 's) sqlite_api \<Rightarrow> ('db, 'w) backend_env \<Rightarrow> string option \<Rightarrow> int \<Rightarrow> string \<Rightarrow> string \<Rightarrow> string \<Rightarrow> ('w, 'db) sql" where
  "attach_repo A e path flags openMsg badMsg versionMsg =
     sql_bind (sql_lift (be_open e path flags)) (\<lambda>(res, db).
       if res \<noteq> SQLITE_OK then die openMsg
       else (let (ver, db1) = metadataValidate A db
             in if ver = -1 then die badMsg
                else if ver \<noteq> SCHEMA_VERSION then die versionMsg
                else sql_return db1))"

definition init_repo :: "('db, 's) sqlite_api \<Rightarrow> string \<Rightarrow> string \<Rightarrow> 'db \<Rightarrow> ('w, 'db) sql" where
  "init_repo A schema msg db =
     (let (res, db1) = repositoryInit A schema db in if res \<noteq> SQLITE_OK then die msg else sql_return db1)"

definition init_persistent :: "('db, 's) sqlite_api \<Rightarrow> ('db, 'w) backend_env \<Rightarrow> string \<Rightarrow> bool \<Rightarrow> bool \<Rightarrow> ('w, 'db) sql" where
  "init_persistent A e path startReadOnly recreatePersistentDb =
     (if recreatePersistentDb then
        sql_bind (recreate e path ''Failed to delete old persistent repository'' ''Failed to create persistent repository'')
          (init_repo A (be_schema e) ''Failed to initialise persistent repository'')
      else attach_repo A e (Some path) ((if startReadOnly then OPEN_READONLY else OPEN_READWRITE) OR OPEN_NOMUTEX)
             ''Failed to attach persistent repository'' ''Persistent repository has invalid metadata.''
             ''Persistent repository has mismatched schema version.'')"

definition init_volatile ::
  "('db, 's) sqlite_api \<Rightarrow> ('db, 'w) backend_env \<Rightarrow> string option \<Rightarrow> bool \<Rightarrow> bool \<Rightarrow> ('w, 'db) sql" where
  "init_volatile A e path startReadOnly reattachVolatileRepository =
     (if reattachVolatileRepository then
        attach_repo A e path (OPEN_READWRITE OR OPEN_NOMUTEX)
          ''Failed to attach to volatile repository'' ''Volatile repository has invalid metadata.''
          ''Volatile repository has mismatched schema version.''
      else case (if startReadOnly then None else path) of
             None \<Rightarrow>
               sql_bind (sql_lift (be_open e (Some '':memory:'') (OPEN_READWRITE OR OPEN_NOMUTEX))) (\<lambda>(res, db).
                 if res \<noteq> SQLITE_OK then die ''Failed to create in-memory volatile repository''
                 else init_repo A (be_volatileSchema e) ''Failed to initialise in-memory volatile repository'' db)
           | Some p \<Rightarrow>
               sql_bind (recreate e p ''Failed to delete old volatile repository'' ''Failed to create volatile repository'')
                 (init_repo A (be_volatileSchema e) ''Failed to initialise volatile repository''))"

definition backend_init ::
  "('db, 's) sqlite_api \<Rightarrow> ('db, 'w) backend_env \<Rightarrow> string \<Rightarrow> string option \<Rightarrow> bool \<Rightarrow> bool \<Rightarrow> bool \<Rightarrow> ('w, ('db, 's) Backend) sql" where
  "backend_init A e aPathPersistentDb aPathVolatileDb startReadOnly recreatePersistentDb reattachVolatileRepository =
     sql_bind (init_persistent A e aPathPersistentDb startReadOnly recreatePersistentDb) (\<lambda>dbP.
     sql_bind (init_volatile A e aPathVolatileDb startReadOnly reattachVolatileRepository) (\<lambda>dbV.
     (let (res, stmt, dbP1) = sq_prepare A (be_query e) dbP
      in if res \<noteq> SQLITE_OK then die ''Failed to ready prepared statements''
         else sql_return \<lparr>connPersistent = dbP1, connVolatile = dbV, permNstCurProps = stmt,
                bk_pathPersistentDb = aPathPersistentDb, bk_pathVolatileDb = aPathVolatileDb, bk_readOnly = startReadOnly\<rparr>)))"

definition backend_shutdown :: "('db, 'w) backend_env \<Rightarrow> ('db, 's) Backend \<Rightarrow> 'w \<Rightarrow> 'w" where
  "backend_shutdown e b w = be_close e (connPersistent b) (be_close e (connVolatile b) w)"

text \<open>The logger of the backend and what SQLite reports through it.\<close>

definition new_Backend_logger :: "Logger \<Rightarrow> Logger" where
  "new_Backend_logger mgr = new_Logger ''db-backend'' (Some mgr)"

definition sqliteLog :: "Logger \<Rightarrow> int \<times> int \<times> int \<Rightarrow> int \<Rightarrow> string \<Rightarrow> string" where
  "sqliteLog userData now errCode errMsg = logger_log userData now kWarn ''SQLite: %s\<newline>'' [ArgS errMsg]"

section \<open>The RPC methods\<close>

text \<open>A method returns whether it succeeded, and the new value of \<open>*rval\<close>.\<close>

definition subscribe_v1 :: "int \<Rightarrow> string \<Rightarrow> bool \<times> string" where
  "subscribe_v1 hello rval = (True, ''Hello'')"

definition snapshot_v1 ::
  "('db, 's) sqlite_api \<Rightarrow> nat \<Rightarrow> int \<Rightarrow> string \<Rightarrow> int \<times> ('db, 's) Backend \<Rightarrow> (bool \<times> int) sql_run \<times> ('db, 's) Backend" where
  "snapshot_v1 A n instanceID name s =
     (case persistentInstanceSnapshotCreate A n instanceID name (snd s) of
        (Ret _, b) \<Rightarrow> (Ret (True, fst s), b)
      | (Died msg, b) \<Rightarrow> (Died msg, b)
      | (Spinning, b) \<Rightarrow> (Spinning, b))"

section \<open>Properties\<close>

text \<open>A database is ready: it has been set up with the schema, or its metadata name the right version.\<close>

definition set_up :: "('db, 's) sqlite_api \<Rightarrow> string \<Rightarrow> 'db \<Rightarrow> 'db \<Rightarrow> bool" where
  "set_up A schema db db1 \<longleftrightarrow> repositoryInit A schema db = (SQLITE_OK, db1)"

definition checked :: "('db, 's) sqlite_api \<Rightarrow> 'db \<Rightarrow> 'db \<Rightarrow> bool" where
  "checked A db db1 \<longleftrightarrow> metadataValidate A db = (SCHEMA_VERSION, db1)"

lemma sql_bind_Ret: "sql_bind m f w = (Ret y, w') \<longleftrightarrow> (\<exists>x w1. m w = (Ret x, w1) \<and> f x w1 = (Ret y, w'))"
  by (auto simp: sql_bind_def split: prod.splits sql_run.splits)

lemma sql_lift_Ret: "sql_lift f w = (Ret y, w') \<longleftrightarrow> f w = (y, w')"
  by (simp add: sql_lift_def split: prod.split)

lemma die_Ret [simp]: "die msg w = (Ret y, w') \<longleftrightarrow> False"
  by (simp add: die_def)

lemma return_Ret [simp]: "sql_return x w = (Ret y, w') \<longleftrightarrow> x = y \<and> w = w'"
  by (auto simp: sql_return_def)

lemmas ret_simps = sql_bind_Ret sql_lift_Ret

lemma recreate_Ret:
  "recreate e path m1 m2 w = (Ret db, w') \<Longrightarrow>
     \<exists>w1. be_open e (Some path) (OPEN_READWRITE OR OPEN_CREATE OR OPEN_NOMUTEX) w1 = ((SQLITE_OK, db), w')"
  by (auto simp: recreate_def ret_simps split: if_splits)

lemma attach_Ret:
  "attach_repo A e path flags m1 m2 m3 w = (Ret db1, w') \<Longrightarrow> \<exists>db. be_open e path flags w = ((SQLITE_OK, db), w') \<and> checked A db db1"
  by (auto simp: attach_repo_def ret_simps checked_def Let_def split: if_splits prod.splits)

lemma init_repo_Ret: "init_repo A schema msg db w = (Ret db1, w') \<longleftrightarrow> set_up A schema db db1 \<and> w = w'"
  by (auto simp: init_repo_def set_up_def Let_def split: prod.splits if_splits)


text \<open>Databases whose queries have one row with the number 1; a database is the list of statements executed on it.\<close>

definition log_sqlite :: "(string list, unit) sqlite_api" where
  "log_sqlite =
     \<lparr>sq_exec = (\<lambda>q l. (SQLITE_OK, l @ [q])), sq_prepare = (\<lambda>q l. (SQLITE_OK, (), l)), sq_bind_int = (\<lambda>i v s. (SQLITE_OK, s)),
      sq_step = (\<lambda>s l. (SQLITE_ROW, s, l)), sq_reset = (\<lambda>s. s), sq_column_int = (\<lambda>s i. 1), sq_column_count = (\<lambda>s. 1),
      sq_finalize = (\<lambda>s l. l), sq_last_insert_rowid = (\<lambda>l. 1), sq_malloc = (\<lambda>t. True)\<rparr>"

definition log_files :: "(string list, unit) backend_env" where
  "log_files = \<lparr>be_unlink = (\<lambda>p w. (None, w)), be_open = (\<lambda>p f w. ((SQLITE_OK, []), w)), be_close = (\<lambda>db w. w), be_schema = ''P'', be_volatileSchema = ''V'',
     be_query = ''Q''\<rparr>"


end
