(* ===== verification/Manager_Main.thy ===== *)
theory Manager_Main
  imports Manager_Live Backend
begin

text \<open>
  The manager as a whole: \<open>main\<close> of \<^verbatim>\<open>cmd/manager/Manager.cc\<close>, which starts the event loop, the listener and the
  repository, runs until \<open>SIGINT\<close>, and shuts the repository down. The world of the running manager is its backend
  and what lies outside the process (files, sockets); request handlers may change both.
\<close>

section \<open>Start-up\<close>

datatype 'a mgr_outcome = Exited mgr_exit | Ended 'a | StillRunning

text \<open>\<open>Manager::init\<close>: the old socket is removed, whether or not there is one, before the new one is made.\<close>

definition mgr_start ::
  "('db, 's) sqlite_api \<Rightarrow> ('db, 'f) backend_env \<Rightarrow> mgr_sys \<Rightarrow> string option \<Rightarrow> (char \<times> string option) list \<Rightarrow> 'v
     \<Rightarrow> handler EventLoop \<times> ('o, 'v, 'd) Manager \<Rightarrow> 'f
     \<Rightarrow> (handler EventLoop \<times> ('o, 'v, 'd) Manager \<times> ('db, 's) Backend) mgr_outcome \<times> 'f" where
  "mgr_start A be sys stack opts svc s f =
     (case mgr_configure sys stack opts (fst s) of
        Inl ex \<Rightarrow> (Exited ex, f)
      | Inr (lp, st) \<Rightarrow>
          (let f1 = snd (be_unlink be (the (pathSocket st)) f)
           in case mgr_listen sys svc st (lp, snd s) of
                Inl ex \<Rightarrow> (Exited ex, f1)
              | Inr (lp1, m1) \<Rightarrow>
                  (case backend_init A be (the (pathPersistentDb st)) (pathVolatileDb st) (readOnly st)
                          (recreatePersistentDb st) (reattaching m1) f1 of
                     (Ret b, f2) \<Rightarrow> (Ended (lp1, m1, b), f2)
                   | (Died msg, f2) \<Rightarrow> (Exited (Die msg), f2)
                   | (Spinning, f2) \<Rightarrow> (StillRunning, f2))))"

section \<open>The program\<close>

text \<open>A failed assertion of a request ends the process where it is.\<close>

definition mgr_finish ::
  "('db, 'f) backend_env \<Rightarrow> (handler EventLoop \<times> (('o, 'v, 'd) Manager \<times> ('db, 's) Backend \<times> 'f) \<times> bool) option \<Rightarrow> 'f
     \<Rightarrow> unit mgr_outcome \<times> 'f" where
  "mgr_finish be res f =
     (case res of
        None \<Rightarrow> (StillRunning, f)
      | Some (lp, (m, b, f1), dead) \<Rightarrow> if dead then (Exited AbortCall, f1) else (Ended (), backend_shutdown be b f1))"

definition mgr_main ::
  "('db, 's) sqlite_api \<Rightarrow> ('db, 'f) backend_env \<Rightarrow> (handler, (('o, 'v, 'd) Manager \<times> ('db, 's) Backend \<times> 'f) \<times> bool) env \<Rightarrow> nat
     \<Rightarrow> mgr_sys \<Rightarrow> string option \<Rightarrow> (char \<times> string option) list \<Rightarrow> 'v \<Rightarrow> handler EventLoop \<Rightarrow> 'f \<Rightarrow> unit mgr_outcome \<times> 'f" where
  "mgr_main A be ev fuel sys stack opts svc lp f =
     (case mgr_start A be sys stack opts svc (lp, new_manager) f of
        (Exited ex, f1) \<Rightarrow> (Exited ex, f1)
      | (StillRunning, f1) \<Rightarrow> (StillRunning, f1)
      | (Ended (lp1, m1, b), f1) \<Rightarrow> mgr_finish be (mgr_run ev fuel (lp1, (m1, b, f1), False)) f1)"

section \<open>What start-up leaves behind\<close>

definition calls_succeed :: "mgr_sys \<Rightarrow> int \<times> int \<Rightarrow> int \<Rightarrow> bool" where
  "calls_succeed sys p fd \<longleftrightarrow>
     s_pipe sys = Inr p \<and> s_alrm sys = (True, None) \<and> s_malloc sys = None \<and> s_int sys = (True, None) \<and>
     s_usr1 sys = (True, None) \<and> s_socket sys = Inr fd \<and> s_bind sys = None \<and> s_listen sys = None \<and>
     s_addfd sys = (True, True) \<and> fd \<noteq> fst p"

text \<open>The loop of a process that has just been started.\<close>

definition fresh_loop :: "handler EventLoop \<Rightarrow> bool" where
  "fresh_loop lp \<longleftrightarrow>
     length (timers lp) = NTIMERS \<and> fdSources lp = [] \<and> timerSources lp = [] \<and> sigSources lp = [] \<and> \<not> signalFired lp"

lemma configure_success:
  assumes "fresh_loop lp" "calls_succeed sys p fd"
    and "getopt_loop opts (initial_settings stack) = Inr st" "check_settings st = Inr st1"
  shows "\<exists>lp1. mgr_configure sys stack opts lp = Inr (lp1, st1) \<and> watch_inv lp1 \<and> watched lp1 = [] \<and> nPFDs lp1 = 1 \<and>
    live_pfds lp1 = [new_pfd (fst p) POLLIN] \<and> sigPipe lp1 = p \<and> \<not> signalFired lp1 \<and> signalsFired lp1 = replicate NSIG False \<and>
    map (\<lambda>src. (ss_handler src, ss_sigNum src)) (sigSources lp1) =
      [(None, SIGALRM), (Some TheManager, SIGINT), (Some TheManager, SIGUSR1)]"
proof -
  have "length (timers lp) = NTIMERS" using assms(1) by (simp add: fresh_loop_def)
  from init_state [OF this, of p] obtain ts where
    init: "init (Inr p) True None None lp =
     (0, lp\<lparr>nPFDs := 1, pFDs := [new_pfd (fst p) POLLIN], sigPipe := p, pipeBytes := 0,
            sigSources := sigSources lp @ [\<lparr>ss_node = nextNode lp, ss_handler = None, ss_sigNum = SIGALRM\<rparr>],
            nextNode := nextNode lp + 1, installed := installed lp @ [SIGALRM],
            signalsFired := replicate NSIG False, timers := ts,
            timersBehind := (timersBehind lp)\<lparr>te_valid := False\<rparr>,
            faults := faults lp @ [OutOfBounds ''timers'' (int NTIMERS)]\<rparr>)"
    by blast
  then show ?thesis
    using assms
    by (simp add: mgr_configure_def calls_succeed_def fresh_loop_def addSignal_def new_SignalSource_def watch_inv_def
        live_pfds_def new_pfd_def watched_def)
qed

lemma start_success:
  fixes svc :: 'v
  assumes "fresh_loop lp" "calls_succeed sys p fd"
    and "getopt_loop opts (initial_settings stack) = Inr st" "check_settings st = Inr st1"
  shows "\<exists>lp1 m1. (\<exists>lp0. mgr_configure sys stack opts lp = Inr (lp0, st1) \<and>
      mgr_listen sys svc st1 (lp0, new_manager :: ('o, 'v, 'd) Manager) = Inr (lp1, m1)) \<and>
    watch_inv lp1 \<and> watched lp1 = [(fd, Some TheManager)] \<and> nPFDs lp1 = 2 \<and>
    live_pfds lp1 = [new_pfd (fst p) POLLIN, new_pfd fd (POLLIN OR POLLHUP)] \<and>
    \<not> signalFired lp1 \<and> signalsFired lp1 = replicate NSIG False \<and>
    map (\<lambda>src. (ss_handler src, ss_sigNum src)) (sigSources lp1) =
      [(None, SIGALRM), (Some TheManager, SIGINT), (Some TheManager, SIGUSR1)] \<and>
    shouldRun m1 \<and> reattaching m1 = reattach st1 \<and> l_svcs (m_listener m1) = [svc]"
proof -
  obtain lp0 where c: "mgr_configure sys stack opts lp = Inr (lp0, st1)"
    and lp0: "watch_inv lp0" "watched lp0 = []" "nPFDs lp0 = 1" "live_pfds lp0 = [new_pfd (fst p) POLLIN]" "sigPipe lp0 = p"
      "\<not> signalFired lp0" "signalsFired lp0 = replicate NSIG False"
      "map (\<lambda>src. (ss_handler src, ss_sigNum src)) (sigSources lp0) =
        [(None, SIGALRM), (Some TheManager, SIGINT), (Some TheManager, SIGUSR1)]"
    by (insert configure_success [OF assms], elim exE conjE, rule that, assumption+)
  let ?add = "addFD True True (Some TheManager) fd (POLLIN OR POLLHUP) lp0"
  have fd: "fd \<noteq> fst p" using assms(2) by (simp add: calls_succeed_def)
  have n: "0 \<le> nPFDs lp0" "nPFDs lp0 \<le> int (length (pFDs lp0))" using watch_invD(2) [OF lp0(1)] lp0(3) by simp_all
  have "fst ?add = 0" "signalFired (snd ?add) = signalFired lp0" "signalsFired (snd ?add) = signalsFired lp0"
    "sigSources (snd ?add) = sigSources lp0" "nPFDs (snd ?add) = 2" "watched (snd ?add) = watched lp0 @ [(fd, Some TheManager)]"
    using lp0(3) by (simp_all add: addFD_def Let_def watched_def new_FDSource_def)
  moreover have "watch_inv (snd ?add)" using fd lp0 by (intro addFD_watch_inv) simp_all
  moreover have "live_pfds (snd ?add) = [new_pfd (fst p) POLLIN, new_pfd fd (POLLIN OR POLLHUP)]"
    using addFD_live(1) [OF n, of "Some TheManager" fd "POLLIN OR POLLHUP"] lp0(4) by simp
  ultimately show ?thesis
    using c lp0 assms(2)
    by (auto simp: mgr_listen_def calls_succeed_def case_prod_beta new_manager_def listener_addService_def listener_attach_def)
qed


section \<open>The life of the manager\<close>


text \<open>A world that is the list of the databases closed, after a mark for an interrupted \<open>poll\<close>.\<close>

definition life_files :: "(string list, string list list) backend_env" where
  "life_files = \<lparr>be_unlink = (\<lambda>p w. (None, w)), be_open = (\<lambda>p fl w. ((SQLITE_OK, []), w)), be_close = (\<lambda>db w. w @ [db]),
     be_schema = ''P'', be_volatileSchema = ''V'', be_query = ''Q''\<rparr>"

definition life_poll :: "pollfd list \<Rightarrow> int \<Rightarrow> ('m \<times> 'b \<times> string list list) \<times> bool
    \<Rightarrow> poll_answer \<times> ('m \<times> 'b \<times> string list list) \<times> bool" where
  "life_poll ps ms s =
     (case s of ((m, b, f), d) \<Rightarrow>
        if f = [] then (\<lparr>pa_ret = -1, pa_errno = EINTR, pa_revents = [], pa_signals = [(SIGINT, 0)]\<rparr>, (m, b, [[''poll'']]), d)
        else (\<lparr>pa_ret = 1, pa_errno = 0, pa_revents = [POLLIN, 0], pa_signals = []\<rparr>, (m, b, f), d))"

lemma life_backend:
  "backend_init log_sqlite life_files ''p.db'' (Some ''v.db'') False False False [] =
     (Ret \<lparr>connPersistent = [], connVolatile = [''V'', ''INSERT INTO \"METADATA\"VALUES (1);''], permNstCurProps = (),
           bk_pathPersistentDb = ''p.db'', bk_pathVolatileDb = Some ''v.db'', bk_readOnly = False\<rparr>, [])"
  by (simp add: backend_init_def init_persistent_def init_volatile_def recreate_def attach_repo_def init_repo_def repositoryInit_def
      metadataInit_def metadataValidate_def sqlite3_get_single_int_def sql_bind_def sql_lift_def sql_return_def log_sqlite_def life_files_def)


section \<open>System mode\<close>

text \<open>The comment on the options says that system mode starts read-only unless the manager reattaches. It does so in any
  case: no option takes the flag back.\<close>

lemma system_mode_read_only:
  "getopt_loop opts st0 = Inr st \<Longrightarrow> (CHR ''s'', a) \<in> set opts \<or> readOnly st0 \<Longrightarrow> readOnly st"
  by (induction opts st0 rule: getopt_loop.induct) (auto split: if_splits)

end
