(* ===== verification/Manager_Serve.thy ===== *)
theory Manager_Serve
  imports Manager_Live
begin

text \<open>
  The running manager as a server. An abstract server keeps a queue of requests and a list of
  answers for every client; the event loop, the manager, its listener, the transports and the services
  together are shown to implement it, one round for each iteration of the main loop, so that every request
  that has arrived is answered.
\<close>

section \<open>Sockets\<close>

text \<open>
  The world of the manager while it serves: what its services keep (\<open>'db\<close>), and for every descriptor the
  bytes that have arrived and those that have been written. \<open>recv\<close> takes as much as is there, up to the number of
  bytes asked for.
\<close>

type_synonym 'db net = "'db \<times> (int \<Rightarrow> string \<times> string)"

definition sock_write :: "int \<Rightarrow> string \<Rightarrow> 'db net \<Rightarrow> int \<times> 'db net" where
  "sock_write fd bs w = (int (length bs), fst w, (snd w)(fd := (fst (snd w fd), snd (snd w fd) @ bs)))"

definition sock_recv :: "int \<Rightarrow> nat \<Rightarrow> 'db net \<Rightarrow> (int \<times> string) \<times> 'db net" where
  "sock_recv fd n w =
     (let bs = take n (fst (snd w fd))
      in ((int (length bs), bs), fst w, (snd w)(fd := (drop n (fst (snd w fd)), snd (snd w fd)))))"

text \<open>Services act on their own data, not on the sockets.\<close>

definition on_db ::
  "('v \<Rightarrow> 'o WSRPCReq \<Rightarrow> 'db \<Rightarrow> int \<times> 'o WSRPCReq \<times> 'db) \<Rightarrow> 'v \<Rightarrow> 'o WSRPCReq \<Rightarrow> 'db net \<Rightarrow> int \<times> 'o WSRPCReq \<times> 'db net" where
  "on_db h v req w = (let (r, q, db) = h v req (fst w) in (r, q, db, snd w))"

lemma offer_on_db: "offer (on_db h) l req w = (let (r, q, db) = offer h l req (fst w) in (r, q, db, snd w))"
  by (induction l arbitrary: req w) (auto simp: on_db_def Let_def split: prod.split)

section \<open>The abstract server\<close>

text \<open>
  What the manager promises its clients: for every client a queue of requests (method, parameters
  and identifier) and the list of answers it has been given. To serve a client is to take its oldest request, to offer it
  to the services in their order, and to append the answer, if the request has one.
\<close>

type_synonym 'o request = "string \<times> 'o \<times> int"
type_synonym ('o, 'db) server = "'db \<times> (int \<Rightarrow> 'o request list \<times> 'o list)"

definition the_request :: "'o ucl_api \<Rightarrow> 'o request \<Rightarrow> 'o WSRPCReq" where
  "the_request u rq = (case rq of (m, p, i) \<Rightarrow>
     \<lparr>rq_id = i, method_name = m, params = Some (ucl_keyed u ''params'' p), rq_result = None, rq_err = no_error\<rparr>)"

definition serve ::
  "'o ucl_api \<Rightarrow> ('v \<Rightarrow> 'o WSRPCReq \<Rightarrow> 'db \<Rightarrow> int \<times> 'o WSRPCReq \<times> 'db) \<Rightarrow> 'v list \<Rightarrow> int \<Rightarrow> ('o, 'db) server \<Rightarrow> ('o, 'db) server" where
  "serve u h l fd a =
     (case fst (snd a fd) of
        [] \<Rightarrow> a
      | rq # rqs \<Rightarrow>
          (let (r, q, db) = offer h l (the_request u rq) (fst a)
           in (db, (snd a)(fd := (rqs, snd (snd a fd) @ (case answer u r q of None \<Rightarrow> [] | Some ob \<Rightarrow> [ob]))))))"

text \<open>
  The state of the sockets that implements it. Requests and answers must get through: they are
  as \<open>sendMessage\<close> builds them, and libucl reads back what it has written.
\<close>

definition req_obj :: "'o ucl_api \<Rightarrow> 'o request \<Rightarrow> 'o" where
  "req_obj u rq = (case rq of (m, p, i) \<Rightarrow> request_obj u m p i)"

definition good_request :: "'o ucl_api \<Rightarrow> 'o request \<Rightarrow> bool" where
  "good_request u rq \<longleftrightarrow> (case rq of (m, p, i) \<Rightarrow>
     CHR 0x00 \<notin> set m \<and> ucl_object_type u p = UCL_OBJECT \<and> - (2 ^ 31) \<le> i \<and> i < 2 ^ 31 \<and> wire_safe u (request_obj u m p i))"

definition good_server :: "'o ucl_api \<Rightarrow> ('o, 'db) server \<Rightarrow> bool" where
  "good_server u a \<longleftrightarrow> (\<forall>fd. (\<forall>rq \<in> set (fst (snd a fd)). good_request u rq) \<and> (\<forall>ob \<in> set (snd (snd a fd)). wire_safe u ob))"

definition conc :: "'o ucl_api \<Rightarrow> ('o, 'db) server \<Rightarrow> 'db net" where
  "conc u a = (fst a, \<lambda>fd. (concat (map (\<lambda>rq. frame u (req_obj u rq)) (fst (snd a fd))), concat (map (frame u) (snd (snd a fd)))))"

lemma serve_grows: "set (snd (snd a fd')) \<subseteq> set (snd (snd (serve u h l fd a) fd'))"
  by (auto simp: serve_def Let_def split: list.split prod.split)

section \<open>One request\<close>

text \<open>The transport after one message has been read and processed.\<close>

definition after_read :: "'o ucl_api \<Rightarrow> 'o request \<Rightarrow> ('o, 'v, 'd) WSRPCTransport \<Rightarrow> ('o, 'v, 'd) WSRPCTransport" where
  "after_read u rq x = x\<lparr>curMsgOff := int (length (ucl_object_emit u (req_obj u rq))) + 1, curMsgBuf := None\<rparr>"

abbreviation net_env :: "('v \<Rightarrow> 'o WSRPCReq \<Rightarrow> 'db \<Rightarrow> int \<times> 'o WSRPCReq \<times> 'db) \<Rightarrow> ('d \<Rightarrow> nat \<Rightarrow> 'db net \<Rightarrow> 'db net)
    \<Rightarrow> (int \<Rightarrow> int \<Rightarrow> 'db net \<Rightarrow> (int \<times> int) \<times> 'db net) \<Rightarrow> ('db net \<Rightarrow> int \<times> 'db net) \<Rightarrow> ('o, 'v, 'd, 'db net) rpc_env" where
  "net_env h g pl rn \<equiv> service_env (on_db h) g sock_write sock_recv pl rn"

lemma doRecv_sock:
  assumes "wire_safe u ob" "curMsgLen x = 0" "fst (snd w (x_fd x)) = frame u ob @ rest"
  shows "doRecv (net_env h g pl rn) (x, w) =
    Done (True, x\<lparr>curMsgLen := 0, curMsgOff := int (length (ucl_object_emit u ob)) + 1,
      curMsgBuf := Some (ucl_object_emit u ob @ [CHR 0x00])\<rparr>, fst w, (snd w)(x_fd x := (rest, snd (snd w (x_fd x)))))"
proof -
  let ?t = "ucl_object_emit u ob" and ?fd = "x_fd x"
  let ?n = "int (length ?t) + 1" and ?body = "?t @ [CHR 0x00]"
  let ?w1 = "(fst w, (snd w)(?fd := (?body @ rest, snd (snd w ?fd))))"
  have nat: "nat ?n = length ?body" by simp
  have inb: "fst (snd w ?fd) = le32 ?n @ ?body @ rest" using assms(3) by (simp add: frame_def)
  show ?thesis
  proof (rule doRecv_frame [OF assms(2)])
    show "sys_recv (net_env h g pl rn) ?fd 4 w = ((4, le32 ?n), ?w1)" by (simp add: sock_recv_def inb Let_def)
    show "sys_recv (net_env h g pl rn) ?fd (nat ?n) ?w1 =
        ((?n, ?body), fst w, (snd w)(?fd := (rest, snd (snd w ?fd))))"
      unfolding nat by (simp add: sock_recv_def Let_def)
  qed (use assms(1) in \<open>auto simp: wire_safe_def\<close>)
qed

lemma writeObj_sock:
  assumes "wire_safe u ob"
  shows "writeObj u (net_env h g pl rn) ob (x, w) =
    (True, x, fst w, (snd w)(x_fd x := (fst (snd w (x_fd x)), snd (snd w (x_fd x)) @ frame u ob)))"
proof -
  have "int32 (int (length (ucl_object_emit u ob)) + 1) = int (length (ucl_object_emit u ob)) + 1"
    using assms by (intro int32_id) (auto simp: wire_safe_def)
  then show ?thesis by (simp add: writeObj_def Let_def sock_write_def frame_def)
qed

lemma readyForRead_serves:
  assumes "ucl_laws u" "good_server u (serve u h l fd a)" "good_server u a"
    and "x_fd x = fd" "curMsgLen x = 0" "svcs x = Some l" "length l < n" "fst (snd a fd) = rq # rqs"
  shows "readyForRead u (net_env h g pl rn) n (x, conc u a) = Done (after_read u rq x, conc u (serve u h l fd a))"
proof -
  let ?e = "net_env h g pl rn" and ?x = "after_read u rq x"
  obtain m p i where rq: "rq = (m, p, i)" by (rule prod_cases3)
  have good: "good_request u rq" using assms(3,8) unfolding good_server_def by (metis list.set_intros(1))
  then have safe: "wire_safe u (req_obj u rq)" by (simp add: good_request_def req_obj_def rq)
  define w where "w = (fst a, (snd (conc u a))(fd := (concat (map (\<lambda>rq. frame u (req_obj u rq)) rqs), snd (snd (conc u a) fd))))"
  have "fst (snd (conc u a) (x_fd x)) = frame u (req_obj u rq) @ concat (map (\<lambda>rq. frame u (req_obj u rq)) rqs)"
    using assms(4,8) by (simp add: conc_def)
  from doRecv_sock [OF safe assms(5) this]
  have "doRecv ?e (x, conc u a) = Done (True, x\<lparr>curMsgLen := 0, curMsgOff := int (length (ucl_object_emit u (req_obj u rq))) + 1,
      curMsgBuf := Some (ucl_object_emit u (req_obj u rq) @ [CHR 0x00])\<rparr>, w)"
    using assms(4) by (simp add: w_def conc_def)
  moreover have "x\<lparr>curMsgLen := 0\<rparr> = x" using assms(5) by simp
  ultimately have "readyForRead u ?e n (x, conc u a) = processMessage u ?e n (req_obj u rq) (?x, w)"
    using readyForRead_frame [of ?e x "conc u a" _ w "ucl_object_emit u (req_obj u rq)" "[]" u n] safe
    by (simp add: wire_safe_def after_read_def)
  moreover obtain r q db where off: "offer h l (the_request u rq) (fst a) = (r, q, db)" by (rule prod_cases3)
  then have "processMessage u ?e n (req_obj u rq) (?x, w) = Done (send_answer u ?e (answer u r q) (?x, db, snd w))"
    using services.dispatch_exact [OF assms(1) _ _ _ _ _ assms(7), of i m p ?x "on_db h" g sock_write sock_recv pl rn w]
      good assms(6)
    by (simp add: rq req_obj_def good_request_def after_read_def offer_on_db the_request_def w_def)
  moreover have nxt: "serve u h l fd a = (db, (snd a)(fd := (rqs, snd (snd a fd) @ (case answer u r q of None \<Rightarrow> [] | Some ob \<Rightarrow> [ob]))))"
    using assms(8) off by (simp add: serve_def)
  have "send_answer u ?e (answer u r q) (?x, db, snd w) = (?x, conc u (serve u h l fd a))"
  proof (cases "answer u r q")
    case None
    then show ?thesis unfolding nxt by (auto simp: send_answer_def conc_def w_def)
  next
    case (Some ob)
    then have "wire_safe u ob" using assms(2) unfolding nxt good_server_def by (auto dest!: spec [of _ fd])
    with Some assms(4) show ?thesis
      unfolding nxt by (auto simp: send_answer_def writeObj_sock conc_def w_def after_read_def)
  qed
  ultimately show ?thesis by simp
qed

section \<open>One event of the manager\<close>

lemma read_clients_other: "fd \<notin> set (map x_fd xs) \<Longrightarrow> read_clients u e n fd xs w = Done (xs, w)"
  by (induction xs arbitrary: w) auto

lemma read_clients_serves:
  assumes "ucl_laws u" "good_server u (serve u h l fd a)" "good_server u a" "length l < n" "fst (snd a fd) = rq # rqs"
    and "distinct (map x_fd xs)" "fd \<in> set (map x_fd xs)" "\<forall>x \<in> set xs. curMsgLen x = 0 \<and> svcs x = Some l"
  shows "read_clients u (net_env h g pl rn) n fd xs (conc u a) =
    Done (map (\<lambda>x. if x_fd x = fd then after_read u rq x else x) xs, conc u (serve u h l fd a))"
  using assms(6-8)
proof (induction xs)
  case (Cons x xs)
  show ?case
  proof (cases "x_fd x = fd")
    case True
    then have "fd \<notin> set (map x_fd xs)" using Cons.prems(1) by auto
    moreover from this have "map (\<lambda>x. if x_fd x = fd then after_read u rq x else x) xs = xs"
      by (intro map_idI) auto
    moreover have "readyForRead u (net_env h g pl rn) n (x, conc u a) = Done (after_read u rq x, conc u (serve u h l fd a))"
      using Cons.prems(3) True by (intro readyForRead_serves [OF assms(1-3) _ _ _ assms(4,5)]) auto
    ultimately show ?thesis using True by (simp add: read_clients_other)
  next
    case False
    with Cons show ?thesis by simp
  qed
qed simp

text \<open>Between two messages: no client is in the middle of receiving, and all have the services \<open>l\<close>.\<close>

definition ready :: "'v list \<Rightarrow> ('o, 'v, 'd) Manager \<Rightarrow> bool" where
  "ready l m \<longleftrightarrow> distinct (l_fd (m_listener m) # map x_fd (clientXprts (m_listener m))) \<and>
     (\<forall>x \<in> set (clientXprts (m_listener m)). curMsgLen x = 0 \<and> svcs x = Some l)"

text \<open>What a virtual call on the manager does to the world, when it is one that reads from a client.\<close>

definition mgr_act ::
  "'o ucl_api \<Rightarrow> ('o, 'v, 'd, 'w) rpc_env \<Rightarrow> ('o, 'v, 'd, handler EventLoop, 'w) listener_env \<Rightarrow> nat \<Rightarrow> handler \<Rightarrow> callback
     \<Rightarrow> (('o, 'v, 'd) Manager \<times> 'w) \<times> bool \<Rightarrow> (('o, 'v, 'd) Manager \<times> 'w) \<times> bool" where
  "mgr_act u e le n h cb s = snd (mgr_invoke u e le n h cb (blank_loop, s))"

fun only_reads :: "(('o, 'v, 'd) Manager \<times> 'w) \<times> bool \<Rightarrow> callback \<Rightarrow> bool" where
  "only_reads s (FdEvent fd r) \<longleftrightarrow> r AND POLLHUP = 0 \<and> fd \<noteq> l_fd (m_listener (fst (fst s)))"
| "only_reads s cb \<longleftrightarrow> False"

lemma only_reads_steady:
  assumes "only_reads s cb"
  shows "invoke (mgr_ev u e le n pf) h cb (st, s) = (st, mgr_act u e le n h cb s)"
proof -
  obtain m w dead where s: "s = ((m, w), dead)" by (metis surj_pair)
  show ?thesis using assms unfolding s
    by (cases cb)
      (auto simp: mgr_ev_def mgr_act_def mgr_invoke_def mgr_fdEvent_def listener_fdEvent_def Let_def
        split: rpc_run.splits prod.splits)
qed

interpretation reading: steady_handlers "mgr_ev u e le n pf" "mgr_act u e le n" only_reads for u e le n pf
  by unfold_locales (rule only_reads_steady)

lemma mgr_act_serves:
  assumes "ucl_laws u" "good_server u (serve u h l fd a)" "good_server u a" "length l < n" "fst (snd a fd) \<noteq> []"
    and "ready l m" "fd \<in> set (map x_fd (clientXprts (m_listener m)))"
  shows "\<exists>cs. mgr_act u (net_env h g pl rn) le n k (FdEvent fd POLLIN) ((m, conc u a), False) =
      ((m\<lparr>m_listener := (m_listener m)\<lparr>clientXprts := cs\<rparr>\<rparr>, conc u (serve u h l fd a)), False) \<and>
    map anchor cs = map anchor (clientXprts (m_listener m)) \<and> map curMsgLen cs = map curMsgLen (clientXprts (m_listener m))"
proof -
  obtain rq rqs where rq: "fst (snd a fd) = rq # rqs" using assms(5) by (cases "fst (snd a fd)") auto
  let ?cs = "map (\<lambda>x. if x_fd x = fd then after_read u rq x else x) (clientXprts (m_listener m))"
  have "read_clients u (net_env h g pl rn) n fd (clientXprts (m_listener m)) (conc u a) = Done (?cs, conc u (serve u h l fd a))"
    using assms(6,7) by (intro read_clients_serves [OF assms(1-4) rq]) (simp_all add: ready_def)
  moreover have "fd \<noteq> l_fd (m_listener m)" using assms(6,7) by (auto simp: ready_def simp del: set_map)
  ultimately have "mgr_act u (net_env h g pl rn) le n k (FdEvent fd POLLIN) ((m, conc u a), False) =
      ((m\<lparr>m_listener := (m_listener m)\<lparr>clientXprts := ?cs\<rparr>\<rparr>, conc u (serve u h l fd a)), False)"
    by (simp add: mgr_act_def mgr_invoke_def mgr_fdEvent_def listener_fdEvent_def)
  moreover have "map anchor ?cs = map anchor (clientXprts (m_listener m))"
    "map curMsgLen ?cs = map curMsgLen (clientXprts (m_listener m))"
    by (simp_all add: after_read_def)
  ultimately show ?thesis by blast
qed

section \<open>One round of events\<close>

lemma serve_other [simp]: "fd' \<noteq> fd \<Longrightarrow> snd (serve u h l fd a) fd' = snd a fd'"
  by (simp add: serve_def Let_def split: list.split prod.split)

lemma serve_pending: "fst (snd (serve u h l fd a) fd) = tl (fst (snd a fd))"
  by (simp add: serve_def Let_def split: list.split prod.split)

lemma fold_serve_other: "fd \<notin> set fds \<Longrightarrow> snd (fold (serve u h l) fds a) fd = snd a fd"
  by (induction fds arbitrary: a) auto

lemma fold_serve_grows: "set (snd (snd a fd)) \<subseteq> set (snd (snd (fold (serve u h l) fds a) fd))"
proof (induction fds arbitrary: a)
  case (Cons f fds)
  then show ?case using serve_grows [of a fd u h l f] by fastforce
qed simp

lemma good_between:
  assumes "good_server u a" "good_server u (fold (serve u h l) fds (serve u h l fd a))"
  shows "good_server u (serve u h l fd a)"
  unfolding good_server_def
proof (intro allI conjI ballI)
  fix fd' rq assume "rq \<in> set (fst (snd (serve u h l fd a) fd'))"
  then have "rq \<in> set (fst (snd a fd'))"
    by (cases "fd' = fd"; cases "fst (snd a fd)") (simp_all add: serve_pending)
  then show "good_request u rq" using assms(1) by (auto simp: good_server_def)
next
  fix fd' ob assume "ob \<in> set (snd (snd (serve u h l fd a) fd'))"
  then show "wire_safe u ob" using assms(2) fold_serve_grows [of "serve u h l fd a" fd' u h l fds]
    unfolding good_server_def by blast
qed

lemma ready_anchor:
  assumes "ready l m" "map anchor cs = map anchor (clientXprts (m_listener m))"
    and "map curMsgLen cs = map curMsgLen (clientXprts (m_listener m))"
  shows "ready l (m\<lparr>m_listener := (m_listener m)\<lparr>clientXprts := cs\<rparr>\<rparr>)"
proof -
  note fds = map_anchor(1) [OF assms(2)]
  have len: "length cs = length (clientXprts (m_listener m))" using assms(2) by (rule map_eq_imp_length_eq)
  have "curMsgLen x = 0 \<and> svcs x = Some l" if mem: "x \<in> set cs" for x
  proof -
    obtain i where i: "i < length cs" "x = cs ! i" using mem unfolding in_set_conv_nth by blast
    let ?y = "clientXprts (m_listener m) ! i"
    have "anchor x = anchor ?y" "curMsgLen x = curMsgLen ?y"
      using i len assms(2,3) by (metis nth_map)+
    moreover have "?y \<in> set (clientXprts (m_listener m))" using i len by simp
    ultimately show ?thesis using assms(1) by (auto simp: ready_def anchor_def)
  qed
  then show ?thesis using assms(1) fds by (simp add: ready_def del: set_map)
qed

lemma round_serves:
  assumes "ucl_laws u" "good_server u (fold (serve u h l) fds a)" "good_server u a" "length l < n"
    and "ready l m" "distinct fds" "\<forall>fd \<in> set fds. fst (snd a fd) \<noteq> [] \<and> fd \<in> set (map x_fd (clientXprts (m_listener m)))"
    and act: "act = mgr_act u (net_env h g pl rn) le n"
  defines "calls \<equiv> map (\<lambda>fd. (TheManager, FdEvent fd POLLIN)) fds"
  shows "steady_along only_reads act calls ((m, conc u a), False) \<and>
    (\<exists>cs. fold (\<lambda>(h, cb). act h cb) calls ((m, conc u a), False) =
        ((m\<lparr>m_listener := (m_listener m)\<lparr>clientXprts := cs\<rparr>\<rparr>, conc u (fold (serve u h l) fds a)), False) \<and>
      map anchor cs = map anchor (clientXprts (m_listener m)) \<and> map curMsgLen cs = map curMsgLen (clientXprts (m_listener m)))"
  using assms(2,3,5-7) unfolding calls_def
proof (induction fds arbitrary: a m)
  case Nil
  then show ?case by (intro conjI exI [of _ "clientXprts (m_listener m)"]) simp_all
next
  case (Cons fd fds)
  let ?a = "serve u h l fd a"
  have good: "good_server u ?a" using Cons.prems(1,2) by (intro good_between) simp_all
  obtain cs where step: "act TheManager (FdEvent fd POLLIN) ((m, conc u a), False) =
      ((m\<lparr>m_listener := (m_listener m)\<lparr>clientXprts := cs\<rparr>\<rparr>, conc u ?a), False)"
    and cs: "map anchor cs = map anchor (clientXprts (m_listener m))" "map curMsgLen cs = map curMsgLen (clientXprts (m_listener m))"
    using mgr_act_serves [OF assms(1) good Cons.prems(2) assms(4) _ Cons.prems(3), of g pl rn le TheManager] Cons.prems(5)
    unfolding act by auto
  let ?m = "m\<lparr>m_listener := (m_listener m)\<lparr>clientXprts := cs\<rparr>\<rparr>"
  note fds = map_anchor(1) [OF cs(1)]
  have "\<forall>fd' \<in> set fds. fst (snd ?a fd') \<noteq> [] \<and> fd' \<in> set (map x_fd (clientXprts (m_listener ?m)))"
  proof
    fix fd' assume fd': "fd' \<in> set fds"
    then have "fd' \<noteq> fd" using Cons.prems(4) by auto
    then show "fst (snd ?a fd') \<noteq> [] \<and> fd' \<in> set (map x_fd (clientXprts (m_listener ?m)))"
      using Cons.prems(5) fd' fds by (simp del: set_map)
  qed
  from Cons.IH [OF _ good ready_anchor [OF Cons.prems(3) cs] _ this] Cons.prems(1,4)
  obtain cs' where rest: "steady_along only_reads act (map (\<lambda>fd. (TheManager, FdEvent fd POLLIN)) fds) ((?m, conc u ?a), False)"
    "fold (\<lambda>(h, cb). act h cb) (map (\<lambda>fd. (TheManager, FdEvent fd POLLIN)) fds) ((?m, conc u ?a), False) =
        ((?m\<lparr>m_listener := (m_listener ?m)\<lparr>clientXprts := cs'\<rparr>\<rparr>, conc u (fold (serve u h l) fds ?a)), False)"
    "map anchor cs' = map anchor cs" "map curMsgLen cs' = map curMsgLen cs"
    by auto
  moreover have "fd \<noteq> l_fd (m_listener m)" using Cons.prems(3,5) by (auto simp: ready_def simp del: set_map)
  ultimately show ?case using step cs by auto
qed

section \<open>One iteration of the manager\<close>

lemma event_calls_watched:
  assumes "map (\<lambda>s. (fs_fd s, fs_handler s)) srcs = map (\<lambda>fd. (fd, Some k)) fds"
  shows "event_calls srcs (map r fds) = map (\<lambda>fd. (k, FdEvent fd (r fd))) (filter (\<lambda>fd. r fd \<noteq> 0) fds)"
  using assms
proof (induction srcs arbitrary: fds)
  case (Cons s srcs)
  then obtain fd fds' where "fds = fd # fds'" "fs_fd s = fd" "fs_handler s = Some k" by (cases fds) auto
  with Cons show ?case by (simp add: event_calls_def)
qed (simp add: event_calls_def)

text \<open>\<open>poll\<close> reports input exactly for the descriptors on which bytes wait.\<close>

definition net_poll ::
  "pollfd list \<Rightarrow> int \<Rightarrow> (('o, 'v, 'd) Manager \<times> 'db net) \<times> bool \<Rightarrow> poll_answer \<times> (('o, 'v, 'd) Manager \<times> 'db net) \<times> bool" where
  "net_poll ps ms s =
     (let rs = map (\<lambda>p. if fst (snd (snd (fst s)) (pfd_fd p)) \<noteq> [] then POLLIN else 0) ps
      in (\<lparr>pa_ret = int (length (filter (\<lambda>r. r \<noteq> 0) rs)), pa_errno = 0, pa_revents = rs, pa_signals = []\<rparr>, s))"

definition client_fds :: "('o, 'v, 'd) Manager \<Rightarrow> int list" where
  "client_fds m = map x_fd (clientXprts (m_listener m))"

text \<open>A round of the abstract server: each client with a request waiting is served once, in the order of the clients.\<close>

definition busy :: "int list \<Rightarrow> ('o, 'db) server \<Rightarrow> int list" where
  "busy fds a = filter (\<lambda>fd. fst (snd a fd) \<noteq> []) fds"

definition serve_round ::
  "'o ucl_api \<Rightarrow> ('v \<Rightarrow> 'o WSRPCReq \<Rightarrow> 'db \<Rightarrow> int \<times> 'o WSRPCReq \<times> 'db) \<Rightarrow> 'v list \<Rightarrow> int list \<Rightarrow> ('o, 'db) server \<Rightarrow> ('o, 'db) server" where
  "serve_round u h l fds a = fold (serve u h l) (busy fds a) a"

text \<open>The state in which the manager waits for its clients.\<close>

definition serving :: "'v list \<Rightarrow> handler EventLoop \<Rightarrow> ('o, 'v, 'd) Manager \<Rightarrow> ('o, 'db) server \<Rightarrow> bool" where
  "serving l lp m a \<longleftrightarrow> mgr_inv lp m \<and> handlers_set lp \<and> \<not> signalFired lp \<and> l_svcs (m_listener m) = l \<and>
     (\<forall>x \<in> set (clientXprts (m_listener m)). curMsgLen x = 0) \<and> (\<forall>fd. fst (snd a fd) \<noteq> [] \<longrightarrow> fd \<in> set (client_fds m))"

lemma conc_idle [simp]: "fst (snd (conc u a) fd) = [] \<longleftrightarrow> fst (snd a fd) = []"
  by (cases "fst (snd a fd)") (simp_all add: conc_def frame_def le32_def)

lemma serving_ready: "serving l lp m a \<Longrightarrow> ready l m"
  using mgr_inv_fds(1) [of lp m] by (auto simp: serving_def ready_def mgr_inv_def shares_services_def)

lemma mgr_inv_cong:
  assumes "mgr_inv lp m" "watch_inv lp'" "watched lp' = watched lp"
    and "map anchor cs = map anchor (clientXprts (m_listener m))"
  shows "mgr_inv lp' (m\<lparr>m_listener := (m_listener m)\<lparr>clientXprts := cs\<rparr>\<rparr>)"
  using assms(1-3) map_anchor(1) [OF assms(4)] map_anchor(2) [OF assms(4), of "Some (l_svcs (m_listener m))"]
  by (simp add: mgr_inv_def shares_services_def)

lemma fold_serve_pending:
  "distinct fds \<Longrightarrow> fst (snd (fold (serve u h l) fds a) fd) = (if fd \<in> set fds then tl (fst (snd a fd)) else fst (snd a fd))"
proof (induction fds arbitrary: a)
  case (Cons f fds)
  then show ?case by (cases "fd = f") (auto simp: serve_pending)
qed simp

lemma serve_round_pending:
  "distinct fds \<Longrightarrow> fst (snd (serve_round u h l fds a) fd) = (if fd \<in> set fds then tl (fst (snd a fd)) else fst (snd a fd))"
  by (auto simp: serve_round_def busy_def fold_serve_pending)

lemma serving_round:
  assumes "serving l lp m a" "map anchor cs = map anchor (clientXprts (m_listener m))"
    and "map curMsgLen cs = map curMsgLen (clientXprts (m_listener m))"
    and "lp' = lp\<lparr>pFDs := map cleared (live_pfds lp) @ drop (nat (nPFDs lp)) (pFDs lp)\<rparr>"
    and "m' = m\<lparr>m_listener := (m_listener m)\<lparr>clientXprts := cs\<rparr>\<rparr>"
  shows "serving l lp' m' (serve_round u h l (client_fds m) a)" "client_fds m' = client_fds m"
proof -
  show fds: "client_fds m' = client_fds m" using map_anchor(1) [OF assms(2)] by (simp add: client_fds_def assms(5))
  have w: "watch_inv lp" using assms(1) by (simp add: serving_def mgr_inv_def)
  have "mgr_inv lp' m'" unfolding assms(5)
    using assms(1,2) cleared_entries(2,3) [OF w] by (intro mgr_inv_cong [of lp]) (simp_all add: serving_def assms(4))
  moreover have "curMsgLen x = 0" if "x \<in> set cs" for x
  proof -
    have "curMsgLen x \<in> set (map curMsgLen cs)" using that by simp
    then show ?thesis using assms(1) unfolding assms(3) by (auto simp: serving_def)
  qed
  moreover have "distinct (client_fds m)" using serving_ready [OF assms(1)] by (simp add: ready_def client_fds_def)
  ultimately show "serving l lp' m' (serve_round u h l (client_fds m) a)"
    using assms(1) unfolding serving_def fds
    by (auto simp: assms(4,5) serve_round_pending handlers_set_def split: if_splits)
qed

text \<open>What \<open>poll\<close> reports, and the calls that it gives rise to.\<close>

lemma net_poll_calls:
  assumes "mgr_inv lp m" "fst (snd a (listenFD m)) = []"
  shows "event_calls (fdSources lp) (tl (pa_revents (fst (net_poll (live_pfds lp) ms ((m, conc u a), False))))) =
    map (\<lambda>fd. (TheManager, FdEvent fd POLLIN)) (busy (client_fds m) a)"
proof -
  let ?r = "\<lambda>fd. if fst (snd a fd) \<noteq> [] then POLLIN else 0" and ?fds = "listenFD m # client_fds m"
  have "map fst (watched lp) = ?fds" using assms(1) by (simp add: mgr_inv_def client_fds_def comp_def)
  moreover have "map fst (watched lp) = map fs_fd (fdSources lp)" by (simp add: watched_def comp_def)
  moreover have "watch_inv lp" using assms(1) by (simp add: mgr_inv_def)
  ultimately have fds: "map pfd_fd (live_pfds lp) = fst (sigPipe lp) # ?fds" using watch_invD(3) [of lp] by simp
  let ?ans = "fst (net_poll (live_pfds lp) ms ((m, conc u a), False))"
  have "pa_revents ?ans = map (\<lambda>p. ?r (pfd_fd p)) (live_pfds lp)" by (simp add: net_poll_def Let_def)
  also have "\<dots> = map ?r (fst (sigPipe lp) # ?fds)" unfolding fds [symmetric] by simp
  finally have tl: "tl (pa_revents ?ans) = map ?r ?fds" by simp
  have "event_calls (fdSources lp) (map ?r ?fds) = map (\<lambda>fd. (TheManager, FdEvent fd (?r fd))) (filter (\<lambda>fd. ?r fd \<noteq> 0) ?fds)"
    using assms(1) by (intro event_calls_watched) (simp add: mgr_inv_def client_fds_def watched_def)
  also have "filter (\<lambda>fd. ?r fd \<noteq> 0) ?fds = busy (client_fds m) a" using assms(2) by (simp add: busy_def)
  finally show ?thesis unfolding tl by (simp add: busy_def)
qed

lemma iteration_serves:
  fixes m :: "('o, 'v, 'd) Manager" and a :: "('o, 'db) server"
  assumes "ucl_laws u" "serving l lp m a" "good_server u a" "good_server u (serve_round u h l (client_fds m) a)"
    and "length l < n" "nat (nPFDs lp) + 1 < fuel"
  shows "\<exists>r lp' m'. loop (mgr_ev u (net_env h g pl rn) le n net_poll) fuel None (lp, (m, conc u a), False) =
      Some (r, lp', (m', conc u (serve_round u h l (client_fds m) a)), False) \<and>
    serving l lp' m' (serve_round u h l (client_fds m) a) \<and> client_fds m' = client_fds m \<and> shouldRun m' = shouldRun m \<and>
    nPFDs lp' = nPFDs lp"
proof -
  let ?e = "net_env h g pl rn" and ?s = "((m, conc u a), False)" and ?a = "serve_round u h l (client_fds m) a"
  let ?calls = "map (\<lambda>fd. (TheManager, FdEvent fd POLLIN)) (busy (client_fds m) a)"
  define lp' where "lp' = lp\<lparr>pFDs := map cleared (live_pfds lp) @ drop (nat (nPFDs lp)) (pFDs lp)\<rparr>"
  have inv: "mgr_inv lp m" and hs: "handlers_set lp" and fired: "\<not> signalFired lp" and watch: "watch_inv lp"
    using assms(2) by (auto simp: serving_def mgr_inv_def)
  have ready: "ready l m" using assms(2) by (rule serving_ready)
  then have dist: "distinct (busy (client_fds m) a)" by (simp add: ready_def busy_def client_fds_def)
  define ans where "ans = fst (net_poll (live_pfds lp) (timeSpecToMSecs None) ?s)"
  have poll: "pollf (mgr_ev u ?e le n net_poll) (live_pfds lp) (timeSpecToMSecs None) ?s = (ans, ?s)"
    and ans: "pa_signals ans = []" "pa_ret ans \<noteq> -1" "length (pa_revents ans) = nat (nPFDs lp)"
    using watch_invD(1,2) [OF watch] by (simp_all add: mgr_ev_def ans_def net_poll_def Let_def live_pfds_def)
  have "fst (snd a (listenFD m)) = []"
    using assms(2) mgr_inv_fds(1) [OF inv] by (auto simp: serving_def client_fds_def)
  note calls = net_poll_calls [OF inv this, of "timeSpecToMSecs None" u, folded ans_def]
  have "\<forall>fd \<in> set (busy (client_fds m) a). fst (snd a fd) \<noteq> [] \<and> fd \<in> set (map x_fd (clientXprts (m_listener m)))"
    by (simp add: busy_def client_fds_def)
  from round_serves [OF assms(1) assms(4) [unfolded serve_round_def] assms(3,5) ready dist this refl, of g pl rn le]
  obtain cs where steady: "steady_along only_reads (mgr_act u ?e le n) ?calls ?s"
    and fold: "fold (\<lambda>(h, cb). mgr_act u ?e le n h cb) ?calls ?s =
      ((m\<lparr>m_listener := (m_listener m)\<lparr>clientXprts := cs\<rparr>\<rparr>, conc u ?a), False)"
    and cs: "map anchor cs = map anchor (clientXprts (m_listener m))" "map curMsgLen cs = map curMsgLen (clientXprts (m_listener m))"
    by (auto simp: serve_round_def)
  let ?m = "m\<lparr>m_listener := (m_listener m)\<lparr>clientXprts := cs\<rparr>\<rparr>"
  have "loop (mgr_ev u ?e le n net_poll) fuel None (lp, ?s) = Some (pa_ret ans, lp', (?m, conc u ?a), False)"
    using reading.loop_steady [OF watch hs fired poll ans assms(6)] steady fold unfolding calls lp'_def by simp
  moreover have "serving l lp' ?m ?a" "client_fds ?m = client_fds m"
    using serving_round [OF assms(2) cs lp'_def refl] by simp_all
  ultimately show ?thesis by (intro exI [of _ "pa_ret ans"] exI [of _ lp'] exI [of _ ?m]) (simp add: lp'_def)
qed

lemma good_server_between:
  assumes "good_server u a" "good_server u c"
    and "\<And>fd. set (fst (snd b fd)) \<subseteq> set (fst (snd a fd))" "\<And>fd. set (snd (snd b fd)) \<subseteq> set (snd (snd c fd))"
  shows "good_server u b"
  using assms unfolding good_server_def by blast

lemma serve_round_grows: "set (snd (snd a fd)) \<subseteq> set (snd (snd ((serve_round u h l fds ^^ k) a) fd))"
proof (induction k)
  case (Suc k)
  let ?b = "(serve_round u h l fds ^^ k) a"
  have "set (snd (snd ?b fd)) \<subseteq> set (snd (snd (serve_round u h l fds ?b) fd))"
    unfolding serve_round_def [of u h l fds ?b] by (rule fold_serve_grows)
  with Suc show ?case by simp
qed simp

lemma rounds_pending:
  "distinct fds \<Longrightarrow> fst (snd ((serve_round u h l fds ^^ k) a) fd) = (if fd \<in> set fds then drop k (fst (snd a fd)) else fst (snd a fd))"
  by (induction k) (auto simp: serve_round_pending drop_Suc tl_drop)

section \<open>The run of the manager\<close>

lemma run_serves:
  fixes m :: "('o, 'v, 'd) Manager" and a :: "('o, 'db) server"
  assumes "ucl_laws u" "serving l lp m a" "shouldRun m" "good_server u a"
    and "good_server u ((serve_round u h l (client_fds m) ^^ k) a)"
    and "length l < n" "nat (nPFDs lp) + 1 < fuel"
  shows "\<exists>lp' m'. mgr_run (mgr_ev u (net_env h g pl rn) le n net_poll) (k + fuel) (lp, (m, conc u a), False) =
      mgr_run (mgr_ev u (net_env h g pl rn) le n net_poll) fuel
        (lp', (m', conc u ((serve_round u h l (client_fds m) ^^ k) a)), False) \<and>
    serving l lp' m' ((serve_round u h l (client_fds m) ^^ k) a) \<and> client_fds m' = client_fds m \<and> shouldRun m'"
  using assms(2-5,7)
proof (induction k arbitrary: lp m a)
  case 0
  then show ?case by auto
next
  case (Suc k)
  let ?fds = "client_fds m" and ?ev = "mgr_ev u (net_env h g pl rn) le n net_poll"
  let ?a = "serve_round u h l ?fds a"
  have dist: "distinct ?fds" using serving_ready [OF Suc.prems(1)] by (simp add: ready_def client_fds_def)
  have rounds: "(serve_round u h l ?fds ^^ Suc k) a = (serve_round u h l ?fds ^^ k) ?a" by (simp add: funpow_swap1)
  have good: "good_server u ?a"
  proof (rule good_server_between [OF Suc.prems(3) Suc.prems(4)])
    show "set (fst (snd ?a fd)) \<subseteq> set (fst (snd a fd))" for fd
      using dist by (cases "fst (snd a fd)") (auto simp: serve_round_pending)
    show "set (snd (snd ?a fd)) \<subseteq> set (snd (snd ((serve_round u h l ?fds ^^ Suc k) a) fd))" for fd
      unfolding rounds by (rule serve_round_grows)
  qed
  obtain r lp1 m1 where it: "loop ?ev (k + fuel) None (lp, (m, conc u a), False) = Some (r, lp1, (m1, conc u ?a), False)"
    and next_ok: "serving l lp1 m1 ?a" "client_fds m1 = ?fds" "shouldRun m1 = shouldRun m" "nPFDs lp1 = nPFDs lp"
    using iteration_serves [OF assms(1) Suc.prems(1,3) good assms(6), of "k + fuel" g pl rn le] Suc.prems(5) by auto
  have "mgr_run ?ev (Suc k + fuel) (lp, (m, conc u a), False) = mgr_run ?ev (k + fuel) (lp1, (m1, conc u ?a), False)"
    using it Suc.prems(2) by simp
  then show ?case using Suc.IH [OF next_ok(1) _ good] Suc.prems(2,4,5) next_ok(2-4) unfolding rounds by auto
qed

section \<open>The answers\<close>

text \<open>Services that leave the identifier of a request alone, and the identifiers of what was asked and answered.\<close>

definition keeps_id :: "('v \<Rightarrow> 'o WSRPCReq \<Rightarrow> 'db \<Rightarrow> int \<times> 'o WSRPCReq \<times> 'db) \<Rightarrow> bool" where
  "keeps_id h \<longleftrightarrow> (\<forall>v q db. rq_id (fst (snd (h v q db))) = rq_id q)"

lemma offer_id: "keeps_id h \<Longrightarrow> offer h l q db = (r, q', db') \<Longrightarrow> rq_id q' = rq_id q"
proof (induction l arbitrary: q db)
  case (Cons v l)
  obtain r1 q1 db1 where h: "h v q db = (r1, q1, db1)" by (rule prod_cases3)
  then have "rq_id q1 = rq_id q" using Cons.prems(1) unfolding keeps_id_def by (metis fst_conv snd_conv)
  with Cons h show ?case by (auto split: if_splits)
qed simp

definition answer_ids :: "'o ucl_api \<Rightarrow> ('o, 'db) server \<Rightarrow> int \<Rightarrow> int list" where
  "answer_ids u a fd = map (uclObjIsResponseForId u) (snd (snd a fd))"

definition request_ids :: "('o, 'db) server \<Rightarrow> int \<Rightarrow> int list" where
  "request_ids a fd = filter (\<lambda>i. i \<noteq> 0) (map (snd \<circ> snd) (fst (snd a fd)))"

lemma serve_ids:
  assumes "ucl_laws u" "keeps_id h" "good_server u a"
  shows "answer_ids u (serve u h l fd a) fd' @ request_ids (serve u h l fd a) fd' = answer_ids u a fd' @ request_ids a fd'"
proof (cases "fd' = fd \<and> fst (snd a fd) \<noteq> []")
  case True
  then obtain m p i rqs where rq: "fst (snd a fd) = (m, p, i) # rqs" by (cases "fst (snd a fd)") auto
  obtain r q db where off: "offer h l (the_request u (m, p, i)) (fst a) = (r, q, db)" by (rule prod_cases3)
  have "good_request u (m, p, i)" using assms(3) rq unfolding good_server_def by (metis list.set_intros(1))
  then have i: "- (2 ^ 31) \<le> i" "i < 2 ^ 31" by (simp_all add: good_request_def)
  have q: "rq_id q = i" using offer_id [OF assms(2) off] by (simp add: the_request_def)
  then have "map (uclObjIsResponseForId u) (case answer u r q of None \<Rightarrow> [] | Some ob \<Rightarrow> [ob]) = (if i = 0 then [] else [i])"
    using ucl_laws.classify(1,2) [OF assms(1) i] by (auto simp: answer_def split: option.splits)
  then show ?thesis using True rq off by (auto simp: serve_def answer_ids_def request_ids_def)
next
  case False
  then show ?thesis by (cases "fd' = fd") (simp_all add: answer_ids_def request_ids_def, simp add: serve_def)
qed

lemma fold_serve_ids:
  assumes "ucl_laws u" "keeps_id h" "good_server u a" "good_server u (fold (serve u h l) fds a)"
  shows "answer_ids u (fold (serve u h l) fds a) fd @ request_ids (fold (serve u h l) fds a) fd =
    answer_ids u a fd @ request_ids a fd"
  using assms(3,4)
proof (induction fds arbitrary: a)
  case (Cons f fds)
  then have "good_server u (serve u h l f a)" by (intro good_between) simp_all
  with Cons show ?case using serve_ids [OF assms(1,2) Cons.prems(1), of l f fd] by simp
qed simp

lemma rounds_ids:
  assumes "ucl_laws u" "keeps_id h" "distinct fds" "good_server u a" "good_server u ((serve_round u h l fds ^^ k) a)"
  shows "answer_ids u ((serve_round u h l fds ^^ k) a) fd @ request_ids ((serve_round u h l fds ^^ k) a) fd =
    answer_ids u a fd @ request_ids a fd"
  using assms(5)
proof (induction k)
  case (Suc k)
  let ?b = "(serve_round u h l fds ^^ k) a"
  have "good_server u ?b"
  proof (rule good_server_between [OF assms(4) Suc.prems])
    show "set (fst (snd ?b fd)) \<subseteq> set (fst (snd a fd))" for fd
      by (auto simp: rounds_pending [OF assms(3)] dest: in_set_dropD)
    show "set (snd (snd ?b fd)) \<subseteq> set (snd (snd ((serve_round u h l fds ^^ Suc k) a) fd))" for fd
      using serve_round_grows [where a = ?b and fd = fd and k = 1 and u = u and h = h and l = l and fds = fds] by simp
  qed
  with Suc show ?case
    using fold_serve_ids [OF assms(1,2), of ?b l "busy fds ?b" fd, folded serve_round_def] by simp
qed simp


text \<open>For the witness: a service that counts the requests it takes; two clients have three requests.\<close>

definition counting_service :: "string \<Rightarrow> utree WSRPCReq \<Rightarrow> nat \<Rightarrow> int \<times> utree WSRPCReq \<times> nat" where
  "counting_service v req db =
     (if method_name req \<noteq> v then (-1, req, db) else (0, req\<lparr>rq_result := Some (UNode None (UInt 42))\<rparr>, Suc db))"

definition demo_requests :: "(utree, nat) server" where
  "demo_requests = (0, (\<lambda>_. ([], []))(6 := ([(''ping'', ut_new UCL_OBJECT, 7), (''ping'', ut_new UCL_OBJECT, 7)], []),
     7 := ([(''ping'', ut_new UCL_OBJECT, 7)], [])))"

definition demo_answered :: "(utree, nat) server" where
  "demo_answered = (3, (\<lambda>_. ([], []))(6 := ([], [pong, pong]), 7 := ([], [pong])))"

lemma demo_rounds:
  "(serve_round tree_ucl counting_service [''ping''] (client_fds demo_manager) ^^ 2) demo_requests = demo_answered"
  by (auto simp: demo_answered_def numeral_2_eq_2 serve_round_def busy_def client_fds_def demo_manager_def demo_requests_def serve_def
      counting_service_def the_request_def answer_def)

lemma demo_good:
  "good_server tree_ucl demo_requests"
  "good_server tree_ucl demo_answered"
proof -
  have "ucl_object_type tree_ucl (ut_new UCL_OBJECT) = UCL_OBJECT" by (simp add: tree_ucl_def ut_type_def ut_new_def)
  then show "good_server tree_ucl demo_requests" using ping_safe
    by (auto simp: good_server_def demo_requests_def good_request_def)
  show "good_server tree_ucl demo_answered"
    using pong_safe by (auto simp: good_server_def demo_answered_def)
qed


end
