(* ===== verification/Wsrpc_Refs.thy ===== *)
theory Wsrpc_Refs
  imports Manager_Serve
begin

text \<open>
  The references to libucl objects that the RPC layer takes and drops (\<^verbatim>\<open>lib/eci/WSRPC.cc\<close>). Every
  operation of the transport and the listener is given again with a ledger of its calls of
  \<open>ucl_object_ref\<close> and \<open>ucl_object_unref\<close>, including the destructors of transports and completions; without
  the ledger it is the operation of the model above. The ledger shows that nothing is released too early, and that the
  messages of the requests a service has taken are never released.
\<close>

section \<open>The ledger\<close>

text \<open>
  \<open>Take ob\<close>: the code comes to own a reference to \<open>ob\<close>, because it has made or parsed the object, has called
  \<open>ucl_object_ref\<close>, or is handed the result of a service. \<open>Drop ob\<close>: it calls \<open>ucl_object_unref\<close>, or inserts
  the object into another, which owns it from then on. Objects that are made and inserted at once
  (the members of a message) are left out.
\<close>

datatype 'o ref_op = Take 'o | Drop 'o

primrec weight :: "'o ref_op \<Rightarrow> int" where
  "weight (Take ob) = 1"
| "weight (Drop ob) = -1"

definition balance :: "'o ref_op list \<Rightarrow> int" where
  "balance lg = (\<Sum>op\<leftarrow>lg. weight op)"

lemma balance_simps [simp]:
  "balance [] = 0" "balance (op # lg) = weight op + balance lg" "balance (lg @ lg') = balance lg + balance lg'"
  by (simp_all add: balance_def)

fun map_run :: "('a \<Rightarrow> 'b) \<Rightarrow> 'a rpc_run \<Rightarrow> 'b rpc_run" where
  "map_run f (Done x) = Done (f x)"
| "map_run f (Aborted a) = Aborted a"
| "map_run f Unfinished = Unfinished"

section \<open>The operations with their references\<close>

type_synonym ('o, 'v, 'd, 'w) refs_state = "(('o, 'v, 'd) WSRPCTransport \<times> 'w) \<times> 'o ref_op list"

definition parseMessage_refs ::
  "'o ucl_api \<Rightarrow> ('o, 'v, 'd) WSRPCTransport \<times> 'o ref_op list \<Rightarrow> 'o option \<times> ('o, 'v, 'd) WSRPCTransport \<times> 'o ref_op list" where
  "parseMessage_refs u s =
     (let (obj, x1) = parseMessage u (fst s)
      in (obj, x1, case obj of None \<Rightarrow> snd s | Some ob \<Rightarrow> snd s @ [Take ob]))"

text \<open>The completion keeps a reference to the result, a member of the response, and drops the response.\<close>

definition completeWith_refs ::
  "'o ucl_api \<Rightarrow> ('o, 'v, 'd, 'w) rpc_env \<Rightarrow> nat \<Rightarrow> 'o \<Rightarrow> ('o, 'v, 'd, 'w) refs_state \<Rightarrow> ('o, 'v, 'd, 'w) refs_state" where
  "completeWith_refs u e cref obj s =
     (let lg1 = (case ucl_object_lookup u obj ''result'' of Some result_o \<Rightarrow> snd s @ [Take result_o] | None \<Rightarrow> snd s)
      in (completeWith u e cref obj (fst s), lg1 @ [Drop obj]))"

definition sendError_refs ::
  "'o ucl_api \<Rightarrow> ('o, 'v, 'd, 'w) rpc_env \<Rightarrow> int \<Rightarrow> WSRPCError \<Rightarrow> ('o, 'v, 'd, 'w) refs_state \<Rightarrow> ('o, 'v, 'd, 'w) refs_state" where
  "sendError_refs u e ident err s =
     (if ident = 0 then s
      else (let response = error_obj u ident err
            in (snd (writeObj u e response (fst s)), snd s @ [Take response, Drop response])))"

text \<open>The result becomes a member of the response and goes with it.\<close>

definition sendReply_refs ::
  "'o ucl_api \<Rightarrow> ('o, 'v, 'd, 'w) rpc_env \<Rightarrow> int \<Rightarrow> 'o option \<Rightarrow> ('o, 'v, 'd, 'w) refs_state \<Rightarrow> ('o, 'v, 'd, 'w) refs_state" where
  "sendReply_refs u e ident obj s =
     (let response = reply_obj u ident obj
      in (snd (writeObj u e response (fst s)),
          snd s @ [Take response] @ (case obj of Some r \<Rightarrow> [Drop r] | None \<Rightarrow> []) @ [Drop response]))"

definition sendMessage_refs ::
  "'o ucl_api \<Rightarrow> ('o, 'v, 'd, 'w) rpc_env \<Rightarrow> string \<Rightarrow> 'o \<Rightarrow> 'd option \<Rightarrow> ('o, 'v, 'd, 'w) refs_state
     \<Rightarrow> nat \<times> ('o, 'v, 'd, 'w) refs_state" where
  "sendMessage_refs u e method prms delegate s =
     (let (cref, s1) = sendMessage u e method prms delegate (fst s);
          msg = request_obj u method prms (fst (sys_rand e (snd (fst s))))
      in (cref, s1, snd s @ [Take msg, Drop prms, Drop msg]))"

text \<open>
  What follows the services' turn. A request that no service has taken is dropped at the end of
  \<open>processMessage\<close>; one that has been taken returns from inside the loop.
\<close>

definition after_services ::
  "'o ucl_api \<Rightarrow> ('o, 'v, 'd, 'w) rpc_env \<Rightarrow> 'o \<Rightarrow> 'o ref_op list \<Rightarrow> int option \<times> 'o WSRPCReq \<times> ('o, 'v, 'd) WSRPCTransport \<times> 'w
     \<Rightarrow> ('o, 'v, 'd, 'w) refs_state" where
  "after_services u e obj lg t =
     (let (res, req1, s2) = t;
          lg1 = lg @ (case rq_result req1 of Some r \<Rightarrow> [Take r] | None \<Rightarrow> [])
      in case res of
           None \<Rightarrow>
             (let (s3, lg2) = sendError_refs u e (rq_id req1) method_not_found (s2, lg1)
              in (s3, lg2 @ [Drop obj]))
         | Some r \<Rightarrow>
             (if r = 1 then sendError_refs u e (rq_id req1) (rq_err req1) (s2, lg1)
              else if rq_id req1 \<noteq> 0 then sendReply_refs u e (rq_id req1) (rq_result req1) (s2, lg1)
              else (s2, lg1)))"

definition processMessage_refs ::
  "'o ucl_api \<Rightarrow> ('o, 'v, 'd, 'w) rpc_env \<Rightarrow> nat \<Rightarrow> 'o \<Rightarrow> ('o, 'v, 'd, 'w) refs_state \<Rightarrow> ('o, 'v, 'd, 'w) refs_state rpc_run" where
  "processMessage_refs u e n obj s =
     (let resp = uclObjIsResponseForId u obj; x = fst (fst s)
      in if resp \<noteq> 0 then
           (case find (\<lambda>c. resp = c_id (comps x ! c)) (completions x) of
              Some cref \<Rightarrow> Done (completeWith_refs u e cref obj s)
            | None \<Rightarrow> Done ((x\<lparr>received := received x @ [obj]\<rparr>, snd (fst s)), snd s))
         else if uclObjIsRequest u obj then
           (let ident = ucl_object_lookup u obj ''id''
            in if (case ident of None \<Rightarrow> False | Some i \<Rightarrow> ucl_object_type u i \<noteq> UCL_INT) then Done (fst s, snd s @ [Drop obj])
               else
                 (let method = (case ucl_object_lookup u obj ''method'' of None \<Rightarrow> None | Some m \<Rightarrow> ucl_object_tostring u m);
                      s1 = (if method = None then (x_fault (NullString ''processMessage'') x, snd (fst s)) else fst s);
                      req = \<lparr>rq_id = int32 (toint_ptr u ident),
                             method_name = (case method of Some m \<Rightarrow> m | None \<Rightarrow> []),
                             params = ucl_object_lookup u obj ''params'',
                             rq_result = None, rq_err = no_error\<rparr>
                  in case run_services e n 0 req s1 of
                       Aborted a \<Rightarrow> Aborted a
                     | Unfinished \<Rightarrow> Unfinished
                     | Done t \<Rightarrow> Done (after_services u e obj (snd s) t)))
         else Done (fst s, snd s @ [Drop obj]))"

definition readyForRead_refs ::
  "'o ucl_api \<Rightarrow> ('o, 'v, 'd, 'w) rpc_env \<Rightarrow> nat \<Rightarrow> ('o, 'v, 'd, 'w) refs_state \<Rightarrow> ('o, 'v, 'd, 'w) refs_state rpc_run" where
  "readyForRead_refs u e n s =
     (case doRecv e (fst s) of
        Aborted a \<Rightarrow> Aborted a
      | Unfinished \<Rightarrow> Unfinished
      | Done (False, s1) \<Rightarrow> Done (s1, snd s)
      | Done (True, s1) \<Rightarrow>
          (let (obj, x1, lg1) = parseMessage_refs u (fst s1, snd s);
               s2 = (x1\<lparr>curMsgBuf := None\<rparr>, snd s1)
           in case obj of
                None \<Rightarrow> Done (s2, lg1)
              | Some ob \<Rightarrow> processMessage_refs u e n ob (s2, lg1)))"

definition scan_received_refs ::
  "'o ucl_api \<Rightarrow> ('o, 'v, 'd, 'w) rpc_env \<Rightarrow> nat \<Rightarrow> ('o, 'v, 'd, 'w) refs_state \<Rightarrow> ('o, 'v, 'd, 'w) refs_state" where
  "scan_received_refs u e cref s =
     (let (x, w) = fst s;
          wanted = (\<lambda>ob. uclObjIsResponseForId u ob = c_id (comps x ! cref))
      in case find wanted (received x) of
           None \<Rightarrow> s
         | Some ob \<Rightarrow>
             completeWith_refs u e cref ob
               ((x_fault (Dangling ''received'') (x\<lparr>received := remove_first wanted (received x)\<rparr>), w), snd s))"

fun awaitReply_refs ::
  "'o ucl_api \<Rightarrow> ('o, 'v, 'd, 'w) rpc_env \<Rightarrow> nat \<Rightarrow> nat \<Rightarrow> int \<Rightarrow> ('o, 'v, 'd, 'w) refs_state
     \<Rightarrow> (bool \<times> ('o, 'v, 'd, 'w) refs_state) rpc_run" where
  "awaitReply_refs u e 0 cref timeoutMsecs s = Unfinished"
| "awaitReply_refs u e (Suc n) cref timeoutMsecs s =
     (let ((pres, revents), w1) = sys_poll e (x_fd (fst (fst s))) timeoutMsecs (snd (fst s));
          s1 = (update_comp cref (\<lambda>c. c\<lparr>c_err := timeout_error\<rparr>) (fst (fst s)), w1)
      in if pres = -1 then Done (False, s1, snd s)
         else if pres = 0 then Done (False, s1, snd s)
         else if revents AND POLLIN \<noteq> 0 then
           (case doRecv e s1 of
              Aborted a \<Rightarrow> Aborted a
            | Unfinished \<Rightarrow> Unfinished
            | Done (False, s2) \<Rightarrow> awaitReply_refs u e n cref 0 (s2, snd s)
            | Done (True, s2) \<Rightarrow>
                (let (obj, x3, lg3) = parseMessage_refs u (fst s2, snd s);
                     s3 = (x3\<lparr>curMsgBuf := None\<rparr>, snd s2)
                 in case obj of
                      None \<Rightarrow> Done (True, s3, lg3)
                    | Some ob \<Rightarrow>
                        if uclObjIsResponseForId u ob = c_id (comps (fst s3) ! cref)
                        then Done (True, completeWith_refs u e cref ob (s3, lg3))
                        else (case processMessage_refs u e n ob (s3, lg3) of
                                Aborted a \<Rightarrow> Aborted a
                              | Unfinished \<Rightarrow> Unfinished
                              | Done s4 \<Rightarrow> awaitReply_refs u e n cref timeoutMsecs (scan_received_refs u e cref s4))))
         else if revents AND POLLHUP \<noteq> 0 then Done (False, s1, snd s)
         else Aborted ''unreached'')"

text \<open>The destructors.\<close>

definition destroy_completion :: "('o, 'd) WSRPCCompletion \<Rightarrow> 'o ref_op list \<Rightarrow> 'o ref_op list" where
  "destroy_completion c lg = (case c_result c of Some r \<Rightarrow> lg @ [Drop r] | None \<Rightarrow> lg)"

text \<open>From the last response queued to the first.\<close>

definition destroy_transport :: "('o, 'v, 'd) WSRPCTransport \<Rightarrow> 'o ref_op list \<Rightarrow> 'o ref_op list" where
  "destroy_transport x lg = lg @ map Drop (rev (received x))"

section \<open>Without the ledger\<close>

text \<open>The ledger only records: what the operations do otherwise is what they do in the model without it.\<close>

lemma completeWith_refs_fst: "fst (completeWith_refs u e c ob s) = completeWith u e c ob (fst s)"
  by (simp add: completeWith_refs_def Let_def)

lemma sendError_refs_fst: "fst (sendError_refs u e i err s) = sendError u e i err (fst s)"
  by (simp add: sendError_refs_def sendError_def Let_def)

lemma sendReply_refs_fst: "fst (sendReply_refs u e i ob s) = sendReply u e i ob (fst s)"
  by (simp add: sendReply_refs_def sendReply_def Let_def)

lemma after_services_fst:
  "fst (after_services u e ob lg (res, q, s)) =
     (case res of None \<Rightarrow> sendError u e (rq_id q) method_not_found s
      | Some r \<Rightarrow> if r = 1 then sendError u e (rq_id q) (rq_err q) s
                   else if rq_id q \<noteq> 0 then sendReply u e (rq_id q) (rq_result q) s else s)"
  by (simp add: after_services_def Let_def sendError_refs_fst sendReply_refs_fst split_beta split: option.split)

lemma processMessage_refs_fst:
  "map_run fst (processMessage_refs u e n ob s) = processMessage u e n ob (fst s)"
proof (cases "uclObjIsResponseForId u ob = 0 \<and> uclObjIsRequest u ob")
  case True
  have "map_run fst (case r of Done t \<Rightarrow> Done (after_services u e ob lg t) | Aborted a \<Rightarrow> Aborted a | Unfinished \<Rightarrow> Unfinished) =
    (case r of
       Done (None, req1, s2) \<Rightarrow> Done (sendError u e (rq_id req1) method_not_found s2)
     | Done (Some res, req1, s2) \<Rightarrow>
         (if res = 1 then Done (sendError u e (rq_id req1) (rq_err req1) s2)
          else if rq_id req1 \<noteq> 0 then Done (sendReply u e (rq_id req1) (rq_result req1) s2)
          else Done s2)
     | Aborted a \<Rightarrow> Aborted a
     | Unfinished \<Rightarrow> Unfinished)" for r lg
    by (cases r) (auto simp: after_services_fst split: option.split)
  with True show ?thesis by (simp add: processMessage_refs_def processMessage_def Let_def)
next
  case False
  then show ?thesis
    by (auto simp: processMessage_refs_def processMessage_def Let_def completeWith_refs_fst split: option.split)
qed

lemma readyForRead_refs_fst:
  "map_run fst (readyForRead_refs u e n s) = readyForRead u e n (fst s)"
  by (simp add: readyForRead_refs_def readyForRead_def Let_def parseMessage_refs_def processMessage_refs_fst
      split: option.split rpc_run.split prod.split bool.split)

lemma scan_received_refs_fst: "fst (scan_received_refs u e c s) = scan_received u e c (fst s)"
  by (simp add: scan_received_refs_def scan_received_def Let_def split_beta completeWith_refs_fst split: option.split)

lemma map_run_Done: "map_run f r = Done y \<longleftrightarrow> (\<exists>x. r = Done x \<and> y = f x)"
  by (cases r) auto

lemma awaitReply_refs_fst:
  "map_run (apsnd fst) (awaitReply_refs u e n c t s) = awaitReply u e n c t (fst s)"
proof (induction n arbitrary: t s)
  case (Suc n)
  have process: "map_run (apsnd fst)
      (case processMessage_refs u e n ob s of
         Aborted a \<Rightarrow> Aborted a | Unfinished \<Rightarrow> Unfinished
       | Done s4 \<Rightarrow> awaitReply_refs u e n c t' (scan_received_refs u e c s4)) =
    (case processMessage u e n ob (fst s) of
       Aborted a \<Rightarrow> Aborted a | Unfinished \<Rightarrow> Unfinished
     | Done s4 \<Rightarrow> awaitReply u e n c t' (scan_received u e c s4))" for ob s t'
    using processMessage_refs_fst [of u e n ob s, symmetric]
    by (cases "processMessage_refs u e n ob s") (auto simp: Suc.IH scan_received_refs_fst)
  show ?case
    by (cases "doRecv e (update_comp c (\<lambda>c. c\<lparr>c_err := timeout_error\<rparr>) (fst (fst s)), snd (sys_poll e (x_fd (fst (fst s))) t (snd (fst s))))")
      (simp_all add: Let_def split_beta parseMessage_refs_def completeWith_refs_fst process Suc.IH split: option.split bool.split)
qed simp

section \<open>What is held\<close>

text \<open>A transport has a reference to every queued response, a completion to its result.\<close>

definition results :: "('o, 'd) WSRPCCompletion list \<Rightarrow> int" where
  "results cs = int (length (filter (\<lambda>c. c_result c \<noteq> None) cs))"

definition owned :: "('o, 'v, 'd) WSRPCTransport \<Rightarrow> int" where
  "owned x = int (length (received x)) + results (comps x)"

lemma results_update:
  "c < length cs \<Longrightarrow> results (cs[c := v]) = results cs - of_bool (c_result (cs ! c) \<noteq> None) + of_bool (c_result v \<noteq> None)"
proof (induction cs arbitrary: c)
  case (Cons k cs)
  then show ?case by (cases c) (auto simp: results_def)
qed simp

lemma owned_simps [simp]:
  "owned (x\<lparr>curMsgLen := a\<rparr>) = owned x" "owned (x\<lparr>curMsgOff := b\<rparr>) = owned x"
  "owned (x\<lparr>curMsgBuf := d\<rparr>) = owned x" "owned (x_fault f x) = owned x" "owned (x\<lparr>x_faults := fs\<rparr>) = owned x"
  "owned (x\<lparr>received := received x @ [ob]\<rparr>) = owned x + 1"
  by (simp_all add: owned_def x_fault_def)

lemma owned_err [simp]: "owned (update_comp c (\<lambda>k. k\<lparr>c_err := er\<rparr>) x) = owned x"
  by (cases "c < length (comps x)") (simp_all add: owned_def update_comp_def results_update list_update_beyond)

lemma owned_result:
  "owned (update_comp c (\<lambda>k. k\<lparr>c_err := er, c_result := Some r\<rparr>) x) =
     owned x + of_bool (c < length (comps x) \<and> c_result (comps x ! c) = None)"
  by (cases "c < length (comps x)") (auto simp: owned_def update_comp_def results_update list_update_beyond)

lemma recv_into_owned: "recv_into e n (x, w) = (r, x1, w1) \<Longrightarrow> owned x1 = owned x"
  by (auto simp: recv_into_def Let_def split: option.splits prod.splits if_splits)

lemma doRecv_owned: "doRecv e s = Done (b, x1, w1) \<Longrightarrow> owned x1 = owned (fst s)"
  by (cases s) (auto simp: doRecv_def Let_def split: prod.splits if_splits dest!: recv_into_owned)

lemma parseMessage_owned: "parseMessage u x = (ob, x1) \<Longrightarrow> owned x1 = owned x"
  by (auto simp: parseMessage_def split: option.splits if_splits)

lemma writeObj_fst: "fst (snd (writeObj u e ob s)) = fst s"
  by (cases s) (auto simp: writeObj_def Let_def split: prod.split)

lemma send_refs [simp]:
  "fst (fst (sendError_refs u e i err s)) = fst (fst s)" "balance (snd (sendError_refs u e i err s)) = balance (snd s)"
  "fst (fst (sendReply_refs u e i ob s)) = fst (fst s)"
  "balance (snd (sendReply_refs u e i ob s)) = balance (snd s) - of_bool (ob \<noteq> None)"
  by (auto simp: sendError_refs_def sendReply_refs_def Let_def writeObj_fst split: option.split)

text \<open>
  What a request leaves behind: the message itself if a service has taken it, and the result of a
  service that is not sent.
\<close>

definition unreleased :: "int option \<Rightarrow> 'o WSRPCReq \<Rightarrow> int" where
  "unreleased res q = of_bool (res \<noteq> None) +
     of_bool (rq_result q \<noteq> None \<and> (res = None \<or> res = Some 1 \<or> rq_id q = 0))"

lemma after_services_balance:
  "fst (fst (after_services u e ob lg (res, q, s))) = fst s"
  "balance (snd (after_services u e ob lg (res, q, s))) = balance lg - 1 + unreleased res q"
  by (auto simp: after_services_def Let_def split_beta unreleased_def split: option.split)

lemma remove_first_length: "find P xs = Some y \<Longrightarrow> length xs = Suc (length (remove_first P xs))"
  by (induction xs) (auto split: if_splits)

context quiet_services
begin

lemma completeWith_refs_balance:
  assumes "completeWith_refs u e c ob ((x, w), lg) = ((x1, w1), lg1)"
  shows "balance lg1 - owned x1 = balance lg - owned x - 1 +
    of_bool (ucl_object_lookup u ob ''result'' \<noteq> None \<and> \<not> (c < length (comps x) \<and> c_result (comps x ! c) = None))"
  using assms
  by (auto simp: completeWith_refs_def completeWith_def Let_def invoker owned_result split: option.splits prod.splits)

lemma run_services_fst: "run_services e n k req (x, w) = Done (r, q, x1, w1) \<Longrightarrow> x1 = x"
proof (induction n arbitrary: k req w)
  case (Suc n)
  then show ?case by (auto simp: handler Let_def split: option.splits if_splits prod.splits)
qed simp

lemma processMessage_refs_balance:
  assumes "processMessage_refs u e n ob ((x, w), lg) = Done ((x1, w1), lg1)"
  shows "balance lg - owned x - 1 \<le> balance lg1 - owned x1"
proof (cases "uclObjIsResponseForId u ob = 0")
  case False
  then show ?thesis using assms
    by (auto simp: processMessage_refs_def split: option.splits dest!: completeWith_refs_balance)
next
  case True
  have services: "balance lg - owned x - 1 \<le> balance lg1 - owned x1"
    if "run_services e n k req (y, w) = Done (r, q, x2, w2)" "after_services u e ob lg (r, q, x2, w2) = ((x1, w1), lg1)"
      "owned y = owned x" for r q x2 w2 k req y
    using that(2,3) run_services_fst [OF that(1)] after_services_balance [of u e ob lg r q "(x2, w2)"]
    by (simp add: unreleased_def)
  show ?thesis using assms True
    by (auto simp: processMessage_refs_def Let_def split: option.splits if_splits rpc_run.splits)
      (erule (1) services, simp)+
qed

lemma readyForRead_refs_balance:
  assumes "readyForRead_refs u e n ((x, w), lg) = Done ((x1, w1), lg1)"
  shows "balance lg - owned x \<le> balance lg1 - owned x1"
  using assms
  by (auto simp: readyForRead_refs_def parseMessage_refs_def Let_def
      split: rpc_run.splits bool.splits option.splits prod.splits
      dest!: doRecv_owned parseMessage_owned processMessage_refs_balance)

lemma scan_received_refs_balance:
  assumes "scan_received_refs u e c ((x, w), lg) = ((x1, w1), lg1)"
  shows "balance lg - owned x \<le> balance lg1 - owned x1"
proof (cases "find (\<lambda>ob. uclObjIsResponseForId u ob = c_id (comps x ! c)) (received x)")
  case None
  with assms show ?thesis by (simp add: scan_received_refs_def)
next
  case (Some ob)
  let ?x = "x\<lparr>received := remove_first (\<lambda>ob. uclObjIsResponseForId u ob = c_id (comps x ! c)) (received x)\<rparr>"
  have "owned x = owned ?x + 1" using remove_first_length [OF Some] by (simp add: owned_def)
  moreover have "completeWith_refs u e c ob ((x_fault (Dangling ''received'') ?x, w), lg) = ((x1, w1), lg1)"
    using assms Some by (simp add: scan_received_refs_def)
  from completeWith_refs_balance [OF this] have "balance lg - owned ?x - 1 \<le> balance lg1 - owned x1" by simp
  ultimately show ?thesis by simp
qed

lemma awaitReply_refs_balance:
  "awaitReply_refs u e n c t ((x, w), lg) = Done (b, (x1, w1), lg1) \<Longrightarrow> balance lg - owned x \<le> balance lg1 - owned x1"
proof (induction n arbitrary: t x w lg)
  case (Suc n)
  let ?x = "update_comp c (\<lambda>c. c\<lparr>c_err := timeout_error\<rparr>) x"
  obtain pres revents w2 where poll: "sys_poll e (x_fd x) t w = ((pres, revents), w2)" by (metis surj_pair)
  have later: "balance lg - owned x \<le> balance lg1 - owned x1"
    if p: "processMessage_refs u e n ob ((y, w3), lg @ [Take ob]) = Done s4" and o: "owned y = owned x"
      and a: "awaitReply_refs u e n c t (scan_received_refs u e c s4) = Done (b, (x1, w1), lg1)" for ob y w3 s4
  proof -
    obtain x4 w4 lg4 where s4: "s4 = ((x4, w4), lg4)" by (metis surj_pair)
    obtain x5 w5 lg5 where s5: "scan_received_refs u e c s4 = ((x5, w5), lg5)" by (metis surj_pair)
    show ?thesis using processMessage_refs_balance [OF p [unfolded s4]] scan_received_refs_balance [OF s5 [unfolded s4]]
        Suc.IH [OF a [unfolded s5]] o by simp
  qed
  show ?case
  proof (cases "pres \<in> {-1, 0} \<or> revents AND POLLIN = 0")
    case True
    then show ?thesis using Suc.prems poll by (auto simp: Let_def split: if_splits)
  next
    case False
    then obtain d x2 w3 where recv: "doRecv e (?x, w2) = Done (d, x2, w3)"
      using Suc.prems poll by (cases "doRecv e (?x, w2)") auto
    then have o: "owned x2 = owned x" using doRecv_owned [OF recv] by simp
    show ?thesis
    proof (cases d)
      case False
      then have "awaitReply_refs u e n c 0 ((x2, w3), lg) = Done (b, (x1, w1), lg1)"
        using Suc.prems poll recv \<open>\<not> (pres \<in> {-1, 0} \<or> revents AND POLLIN = 0)\<close> by simp
      from Suc.IH [OF this] show ?thesis using o by simp
    next
      case True
      obtain ob x3 where pm: "parseMessage u x2 = (ob, x3)" by (rule prod.exhaust)
      then have "owned (x3\<lparr>curMsgBuf := None\<rparr>) = owned x" using o parseMessage_owned [OF pm] by simp
      with True pm show ?thesis using Suc.prems poll recv \<open>\<not> (pres \<in> {-1, 0} \<or> revents AND POLLIN = 0)\<close>
        by (auto simp: parseMessage_refs_def Let_def split: option.splits if_splits rpc_run.splits
            dest!: completeWith_refs_balance dest: later)
    qed
  qed
qed simp

end

section \<open>The listener\<close>

fun read_clients_refs ::
  "'o ucl_api \<Rightarrow> ('o, 'v, 'd, 'w) rpc_env \<Rightarrow> nat \<Rightarrow> int \<Rightarrow> ('o, 'v, 'd) WSRPCTransport list \<Rightarrow> 'w \<times> 'o ref_op list
     \<Rightarrow> (('o, 'v, 'd) WSRPCTransport list \<times> 'w \<times> 'o ref_op list) rpc_run" where
  "read_clients_refs u e n aFD [] t = Done ([], t)"
| "read_clients_refs u e n aFD (x # xs) t =
     (case (if x_fd x = aFD then readyForRead_refs u e n ((x, fst t), snd t) else Done ((x, fst t), snd t)) of
        Aborted a \<Rightarrow> Aborted a
      | Unfinished \<Rightarrow> Unfinished
      | Done ((x1, w1), lg1) \<Rightarrow>
          (case read_clients_refs u e n aFD xs (w1, lg1) of
             Aborted a \<Rightarrow> Aborted a
           | Unfinished \<Rightarrow> Unfinished
           | Done (xs1, t2) \<Rightarrow> Done (x1 # xs1, t2)))"

definition listener_fdEvent_refs ::
  "'o ucl_api \<Rightarrow> ('o, 'v, 'd, 'w) rpc_env \<Rightarrow> ('o, 'v, 'd, 'g, 'w) listener_env \<Rightarrow> nat \<Rightarrow> int \<Rightarrow> int
     \<Rightarrow> (('o, 'v, 'd) WSRPCListener \<times> 'g \<times> 'w) \<times> 'o ref_op list \<Rightarrow> ((('o, 'v, 'd) WSRPCListener \<times> 'g \<times> 'w) \<times> 'o ref_op list) rpc_run" where
  "listener_fdEvent_refs u e le n aFD revents s =
     (let (l, g, w) = fst s; lg = snd s
      in if revents AND POLLHUP \<noteq> 0 then
           (case find (\<lambda>x. x_fd x = aFD) (clientXprts l) of
              None \<Rightarrow> Done s
            | Some x \<Rightarrow>
                (let g1 = clientDisconnected le x g;
                     l1 = l\<lparr>clientXprts := remove_first (\<lambda>x. x_fd x = aFD) (clientXprts l)\<rparr>;
                     lg1 = destroy_transport x lg
                 in Done ((l1, g1, sys_close le aFD w), lg1)))
         else if aFD = l_fd l then
           (let (clFd, w1) = sys_accept le aFD w
            in if clFd = -1 then Done ((l, g, w1), lg)
               else (let x = server_transport clFd (Some (l_svcs l))
                     in Done ((l\<lparr>clientXprts := clientXprts l @ [x]\<rparr>, clientConnected le x g, w1), lg)))
         else if revents AND POLLIN \<noteq> 0 then
           (case read_clients_refs u e n aFD (clientXprts l) (w, lg) of
              Aborted a \<Rightarrow> Aborted a
            | Unfinished \<Rightarrow> Unfinished
            | Done (xs, w1, lg1) \<Rightarrow> Done ((l\<lparr>clientXprts := xs\<rparr>, g, w1), lg1))
         else Done s)"

lemma read_clients_refs_fst:
  "map_run (apsnd fst) (read_clients_refs u e n fd xs t) = read_clients u e n fd xs (fst t)"
proof (induction xs arbitrary: t)
  case (Cons x xs)
  have rest: "map_run (apsnd fst) (case read_clients_refs u e n fd xs t1 of
      Aborted a \<Rightarrow> Aborted a | Unfinished \<Rightarrow> Unfinished | Done (xs1, t2) \<Rightarrow> Done (x1 # xs1, t2)) =
    (case read_clients u e n fd xs (fst t1) of
      Aborted a \<Rightarrow> Aborted a | Unfinished \<Rightarrow> Unfinished | Done (xs1, w2) \<Rightarrow> Done (x1 # xs1, w2))" for t1 x1
    using Cons.IH [of t1, symmetric] by (cases "read_clients_refs u e n fd xs t1") (auto split: prod.split)
  show ?case
    using readyForRead_refs_fst [of u e n "((x, fst t), snd t)", symmetric]
    by (cases "readyForRead_refs u e n ((x, fst t), snd t)") (auto simp: rest split: prod.split)
qed simp

lemma listener_fdEvent_refs_fst:
  "map_run fst (listener_fdEvent_refs u e le n fd r s) = listener_fdEvent u e le n fd r (fst s)"
proof -
  obtain l g w lg where s: "s = ((l, g, w), lg)" by (metis surj_pair)
  show ?thesis
    using read_clients_refs_fst [of u e n fd "clientXprts l" "(w, lg)", symmetric]
    by (cases "read_clients_refs u e n fd (clientXprts l) (w, lg)")
      (auto simp: s listener_fdEvent_refs_def listener_fdEvent_def Let_def split: option.split prod.split)
qed

section \<open>Destruction\<close>

lemma destroy_transport_balance [simp]: "balance (destroy_transport x lg) = balance lg - int (length (received x))"
proof -
  have "balance (map Drop xs) = - int (length xs)" for xs :: "'a list" by (induction xs) simp_all
  then show ?thesis by (simp add: destroy_transport_def)
qed

lemma destroy_completions_balance [simp]: "balance (fold destroy_completion cs lg) = balance lg - results cs"
  by (induction cs arbitrary: lg) (auto simp: destroy_completion_def results_def split: option.split)


context quiet_services
begin

lemma processMessage_refs_request:
  assumes "ucl_laws u" "- (2 ^ 31) \<le> i" "i < 2 ^ 31" "CHR 0x00 \<notin> set m" "ucl_object_type u p = UCL_OBJECT"
    and "svcs x = Some l" "length l < n"
    and "offer f l \<lparr>rq_id = i, method_name = m, params = Some (ucl_keyed u ''params'' p),
                     rq_result = None, rq_err = no_error\<rparr> w = (r, q, w1)"
  shows "processMessage_refs u e n (request_obj u m p i) ((x, w), lg) =
    Done (after_services u e (request_obj u m p i) lg (r, q, x, w1))"
proof -
  note cl = ucl_laws.classify [OF assms(1-3)] and lk = ucl_laws.request_obj_lookup [OF assms(1)]
  have id: "toint_ptr u (ucl_object_lookup u (request_obj u m p i) ''id'') = i"
    using assms(2,3) by (simp add: lk ucl_laws.value_laws [OF assms(1)] ucl_laws.toint_small [OF assms(1)])
  have m: "ucl_object_tostring u (ucl_keyed u ''method'' (ucl_object_fromstring u (c_string m))) = Some m"
    using assms(4) by (simp add: c_string_id ucl_laws.value_laws [OF assms(1)])
  show ?thesis
    using assms(2,3,5,7,8) id int32_id [of i] run_services_exact [OF assms(6), of 0 n _ w]
    by (simp add: processMessage_refs_def Let_def cl lk m ucl_laws.type_laws [OF assms(1)] del: run_services.simps)
qed

end

text \<open>C24: every request that a service takes leaves its message behind: when the answer has been sent and even when the client has
  been dropped, one more reference has been taken than was dropped (two if there is a result that is not
  sent), although nothing refers to the message any more. A request that no service takes is released.\<close>

theorem served_request_leaks:
  assumes "ucl_laws u" "good_request u rq" "x_fd x = fd" "curMsgLen x = 0" "svcs x = Some l" "length l < n"
    and "fst (snd a fd) = rq # rqs" "offer h l (the_request u rq) (fst a) = (res, q, db)"
  shows "\<exists>x1 w1 lg1. readyForRead_refs u (net_env h g pl rn) n ((x, conc u a), lg) = Done ((x1, w1), lg1) \<and>
    balance (destroy_transport x1 lg1) = balance (destroy_transport x lg) + unreleased res q"
proof -
  let ?e = "net_env h g pl rn" and ?ob = "req_obj u rq"
  obtain m p i where rq: "rq = (m, p, i)" by (rule prod_cases3)
  have good: "- (2 ^ 31) \<le> i" "i < 2 ^ 31" "CHR 0x00 \<notin> set m" "ucl_object_type u p = UCL_OBJECT" "wire_safe u ?ob"
    using assms(2) by (simp_all add: rq good_request_def req_obj_def)
  define w where "w = (fst a, (snd (conc u a))(fd := (concat (map (\<lambda>rq. frame u (req_obj u rq)) rqs), snd (snd (conc u a) fd))))"
  have "fst (snd (conc u a) (x_fd x)) = frame u ?ob @ concat (map (\<lambda>rq. frame u (req_obj u rq)) rqs)"
    using assms(3,7) by (simp add: conc_def)
  note recv = doRecv_sock [OF good(5) assms(4) this, of h g pl rn]
  let ?x = "x\<lparr>curMsgLen := 0, curMsgOff := int (length (ucl_object_emit u ?ob)) + 1, curMsgBuf := None\<rparr>"
  have off: "offer (on_db h) l \<lparr>rq_id = i, method_name = m, params = Some (ucl_keyed u ''params'' p),
                     rq_result = None, rq_err = no_error\<rparr> w = (res, q, db, snd w)"
    using assms(8) by (simp add: offer_on_db rq the_request_def w_def)
  have "readyForRead_refs u ?e n ((x, conc u a), lg) = processMessage_refs u ?e n ?ob ((?x, w), lg @ [Take ?ob])"
    using recv good(5) assms(3)
    by (simp add: readyForRead_refs_def parseMessage_refs_def parseMessage_def Let_def c_string_append wire_safe_def w_def conc_def)
  also have "\<dots> = Done (after_services u ?e ?ob (lg @ [Take ?ob]) (res, q, ?x, db, snd w))"
    using services.processMessage_refs_request [OF assms(1) good(1-4) _ assms(6), of ?x "on_db h" w res q "(db, snd w)"] assms(5) off
    by (simp add: rq req_obj_def)
  finally have run: "readyForRead_refs u ?e n ((x, conc u a), lg) =
      Done (after_services u ?e ?ob (lg @ [Take ?ob]) (res, q, ?x, db, snd w))" .
  obtain x1 w1 lg1 where s1: "after_services u ?e ?ob (lg @ [Take ?ob]) (res, q, ?x, db, snd w) = ((x1, w1), lg1)"
    by (metis surj_pair)
  from after_services_balance [of u ?e ?ob "lg @ [Take ?ob]" res q "(?x, db, snd w)"]
  have "x1 = ?x" "balance lg1 = balance lg + unreleased res q" by (simp_all add: s1)
  with run s1 show ?thesis by auto
qed


theorem served_request_leaks_witness:
  "\<exists>x1 w1 lg1. readyForRead_refs tree_ucl (net_env counting_service (\<lambda>(_::unit) _ w. w) (\<lambda>_ _ w. ((0, 0), w)) (\<lambda>w. (0, w))) 5
      ((server_transport 6 (Some [''ping'']), conc tree_ucl demo_requests), []) = Done ((x1, w1), lg1) \<and>
    balance (destroy_transport x1 lg1) = 1"
proof -
  let ?x = "server_transport 6 (Some [''ping'']) :: (utree, string, unit) WSRPCTransport"
  let ?rq = "(''ping'', ut_new UCL_OBJECT, 7) :: utree request"
  have "good_request tree_ucl ?rq" using demo_good(1) by (auto simp: good_server_def demo_requests_def dest!: spec [of _ 7])
  moreover have "offer counting_service [''ping''] (the_request tree_ucl ?rq) (fst demo_requests) =
      (Some 0, (the_request tree_ucl ?rq)\<lparr>rq_result := Some (UNode None (UInt 42))\<rparr>, 1)"
    by (simp add: counting_service_def the_request_def demo_requests_def)
  moreover have "unreleased (Some 0) ((the_request tree_ucl ?rq)\<lparr>rq_result := Some (UNode None (UInt 42))\<rparr>) = 1"
    by (simp add: unreleased_def the_request_def)
  moreover have "fst (snd demo_requests 6) = [?rq, ?rq]" by (simp add: demo_requests_def)
  ultimately show ?thesis
    using served_request_leaks [OF tree.ucl_laws_axioms, of ?rq ?x 6 "[''ping'']" 5 demo_requests "[?rq]" counting_service "Some 0" _ 1
        "\<lambda>(_::unit) _ w. w" "\<lambda>_ _ w. ((0, 0), w)" "\<lambda>w. (0, w)" "[]"]
    by (simp add: server_transport_def)
qed

end
