(* ===== verification/Lssys.thy ===== *)
theory Lssys
  imports Wsrpc Event_Poll Logger
begin

text \<open>
  The service lister, \<^verbatim>\<open>cmd/lssys.cc\<close>: it connects to the manager's socket and makes one call. The call is made
  by the client stub \<open>snapshot_v1\<close>, which the build generates from \<^verbatim>\<open>lib/eci/io.eComCloud.eci.IManager.x\<close>; it is a
  parameter: the transport and the world before the call give the error, the result if one was stored, and both
  afterwards. The outcome is the text that was written and the status of the process.
\<close>

section \<open>The command\<close>

text \<open>
  What the system calls returned (an \<open>errno\<close> where they failed), \<open>strerror\<close>, the local time, and what the
  stack holds where \<open>ret\<close> is put, which has no initial value.
\<close>

record ls_sys =
  ls_socket :: "int + int"
  ls_connect :: "string \<Rightarrow> int option"
  ls_pipe :: "int + int \<times> int"
  ls_alrm :: "bool \<times> int option"
  ls_malloc :: "int option"
  ls_addfd :: "bool \<times> bool"
  ls_strerror :: "int \<Rightarrow> string"
  ls_now :: "int \<times> int \<times> int"
  ls_stack :: int

type_synonym ('o, 'v, 'd, 'w) ls_stub =
  "int \<Rightarrow> string \<Rightarrow> ('o, 'v, 'd) WSRPCTransport \<times> 'w \<Rightarrow> (WSRPCError \<times> int option) \<times> ('o, 'v, 'd) WSRPCTransport \<times> 'w"

text \<open>The last option \<open>-t\<close> counts; others are ignored, also unknown ones.\<close>

fun ls_getopt :: "(char \<times> string option) list \<Rightarrow> string option \<Rightarrow> string option" where
  "ls_getopt [] path = path"
| "ls_getopt ((c, optarg) # opts) path = ls_getopt opts (if c = CHR ''t'' then optarg else path)"

text \<open>\<open>strncpy\<close> into \<open>sun_path\<close>, which has 108 bytes.\<close>

definition sun_path :: "string \<Rightarrow> string" where
  "sun_path path = take 108 path"

definition process_status :: "int \<Rightarrow> int" where
  "process_status r = r mod 256"

definition lssys_logger :: Logger where
  "lssys_logger = new_Logger ''lssys'' None"

text \<open>The results of \<open>init\<close> and \<open>addFD\<close> are not looked at. A result that the stub did not store leaves \<open>ret\<close> as it was.\<close>

definition lssys_main ::
  "('o, 'v, 'd, 'w) ls_stub \<Rightarrow> ls_sys \<Rightarrow> (char \<times> string option) list \<Rightarrow> unit EventLoop \<Rightarrow> 'w
     \<Rightarrow> (string \<times> int) \<times> unit EventLoop \<times> 'w" where
  "lssys_main snapshot_v1 sys opts lp w =
     (case ls_getopt opts None of
        None \<Rightarrow> (logger_die lssys_logger (ls_now sys) ''Path to manager socket not specified.\<newline>'' [], lp, w)
      | Some path \<Rightarrow>
          (case ls_socket sys of
             Inl er \<Rightarrow> ((''Failed to open socket: '' @ ls_strerror sys er @ ''\<newline>'', 1), lp, w)
           | Inr fd \<Rightarrow>
               (case ls_connect sys (sun_path path) of
                  Some er \<Rightarrow>
                    (logger_edie (ls_strerror sys) lssys_logger (ls_now sys) er
                       ''Failed to connect to manager socket at %s'' [ArgS path], lp, w)
                | None \<Rightarrow>
                    (let xprt = attach fd client_transport;
                         (r1, lp1) = init (ls_pipe sys) (fst (ls_alrm sys)) (snd (ls_alrm sys)) (ls_malloc sys) lp;
                         (r2, lp2) = addFD (fst (ls_addfd sys)) (snd (ls_addfd sys)) (Some ()) fd (POLLIN OR POLLHUP) lp1;
                         ((res, out), xprt1, w1) = snapshot_v1 1 ''hello'' (xprt, w);
                         ret = (case out of Some v \<Rightarrow> v | None \<Rightarrow> ls_stack sys)
                     in ((fmt_text ''Ret: %d. %s.\<newline>'' [ArgD ret, ArgS (c_string (errmsg res))], process_status fd), lp2, w1)))))"

section \<open>Its behaviour\<close>

lemma ls_getopt_last: "ls_getopt (opts @ [(CHR ''t'', Some p)]) q = Some p"
  by (induction opts q rule: ls_getopt.induct) auto

lemma ls_getopt_none:
  assumes "\<forall>arg\<in>set opts. fst arg = CHR ''t'' \<longrightarrow> snd arg \<noteq> None"
  shows "ls_getopt opts path = None \<longleftrightarrow> path = None \<and> (\<forall>arg\<in>set opts. fst arg \<noteq> CHR ''t'')"
  using assms by (induction opts path rule: ls_getopt.induct) auto

text \<open>
  The stub gets a fresh transport on the connected socket. The status of the command is the number of that
  descriptor, which is not 0 while the standard streams are open; it is the same whether the call succeeds or fails.
  When it fails, what is printed as the result is what was on the stack.
\<close>

lemma lssys_connected:
  assumes "ls_getopt opts None = Some path" "ls_socket sys = Inr fd" "ls_connect sys (sun_path path) = None"
    and "stub 1 ''hello'' (attach fd client_transport, w) = ((res, out), x, w1)"
  shows "fst (lssys_main stub sys opts lp w) =
      (fmt_text ''Ret: %d. %s.\<newline>'' [ArgD (case out of Some v \<Rightarrow> v | None \<Rightarrow> ls_stack sys), ArgS (c_string (errmsg res))], fd mod 256)"
    and "snd (snd (lssys_main stub sys opts lp w)) = w1"
  using assms by (simp_all add: lssys_main_def process_status_def split: prod.split)

lemma lssys_success_is_failure:
  assumes "ls_getopt opts None = Some path" "ls_socket sys = Inr fd" "ls_connect sys (sun_path path) = None" "2 < fd" "fd < 256"
  shows "snd (fst (lssys_main stub sys opts lp w)) \<noteq> 0"
proof -
  obtain res out x w1 where "stub 1 ''hello'' (attach fd client_transport, w) = ((res, out), x, w1)"
    by (metis prod.exhaust)
  then show ?thesis
    using lssys_connected(1) [of opts path sys fd stub w res out x w1 lp] assms by simp
qed

text \<open>Without a connection the status is 1, nothing is sent and the loop is not touched.\<close>

lemma lssys_not_connected:
  assumes "ls_getopt opts None = None \<or> (\<exists>er. ls_socket sys = Inl er)
    \<or> (\<exists>path. ls_getopt opts None = Some path \<and> ls_connect sys (sun_path path) \<noteq> None)"
  shows "\<exists>msg. lssys_main stub sys opts lp w = ((msg, 1), lp, w)"
  using assms by (auto simp: lssys_main_def logger_die_def logger_edie_def split: option.split sum.split)

end
