(* ===== verification/Wsrpc_Types.thy ===== *)
theory Wsrpc_Types
  imports Wsrpc_Props
begin

text \<open>
  The types of messages. The JSON-RPC 2.0 messages that \<^verbatim>\<open>lib/eci/WSRPC.cc\<close> exchanges come in three kinds, told
  apart by their members. \<open>msg_typed\<close> gives the typing rules. Every message that the code builds has
  a type (preservation), and a message that has one is processed without a fault (progress).
\<close>

section \<open>Typing rules\<close>

datatype msg_kind = RequestMsg | ReplyMsg | ErrorMsg

definition has_member :: "'o ucl_api \<Rightarrow> 'o \<Rightarrow> string \<Rightarrow> ucl_type \<Rightarrow> bool" where
  "has_member u ob k t = (case ucl_object_lookup u ob k of None \<Rightarrow> False | Some v \<Rightarrow> ucl_object_type u v = t)"

definition lacks :: "'o ucl_api \<Rightarrow> 'o \<Rightarrow> string \<Rightarrow> bool" where
  "lacks u ob k = (ucl_object_lookup u ob k = None)"

definition msg_head :: "'o ucl_api \<Rightarrow> 'o \<Rightarrow> bool" where
  "msg_head u ob \<longleftrightarrow> ucl_object_type u ob = UCL_OBJECT \<and> has_member u ob ''jsonrpc'' UCL_STRING \<and> has_member u ob ''id'' UCL_INT"

inductive msg_typed :: "'o ucl_api \<Rightarrow> msg_kind \<Rightarrow> 'o \<Rightarrow> bool" for u :: "'o ucl_api" where
  request: "msg_head u ob \<Longrightarrow> has_member u ob ''method'' UCL_STRING \<Longrightarrow> has_member u ob ''params'' UCL_OBJECT
    \<Longrightarrow> lacks u ob ''result'' \<Longrightarrow> lacks u ob ''error'' \<Longrightarrow> msg_typed u RequestMsg ob"
| reply: "msg_head u ob \<Longrightarrow> \<not> lacks u ob ''result'' \<Longrightarrow> lacks u ob ''error'' \<Longrightarrow> lacks u ob ''method''
    \<Longrightarrow> msg_typed u ReplyMsg ob"
| error: "msg_head u ob \<Longrightarrow> ucl_object_lookup u ob ''error'' = Some er \<Longrightarrow> ucl_object_type u er = UCL_OBJECT
    \<Longrightarrow> has_member u er ''code'' UCL_INT \<Longrightarrow> has_member u er ''message'' UCL_STRING
    \<Longrightarrow> lacks u ob ''result'' \<Longrightarrow> lacks u ob ''method'' \<Longrightarrow> msg_typed u ErrorMsg ob"

inductive_cases typed_requestE: "msg_typed u RequestMsg ob"
inductive_cases typed_replyE: "msg_typed u ReplyMsg ob"
inductive_cases typed_errorE: "msg_typed u ErrorMsg ob"

lemma has_member_iff: "has_member u ob k t \<longleftrightarrow> (\<exists>v. ucl_object_lookup u ob k = Some v \<and> ucl_object_type u v = t)"
  by (simp add: has_member_def split: option.split)

lemmas member_defs = has_member_iff lacks_def msg_head_def

lemma typed_unique: "msg_typed u k ob \<Longrightarrow> msg_typed u k' ob \<Longrightarrow> k = k'"
  by (auto elim!: msg_typed.cases simp: member_defs)

lemma typed_head: "msg_typed u k ob \<Longrightarrow> msg_head u ob"
  by (auto elim: msg_typed.cases)

section \<open>What the code builds\<close>

context ucl_laws
begin

lemma jsonrpc_member:
  "has_member u (request_obj u m p i) ''jsonrpc'' UCL_STRING"
  "has_member u (reply_obj u i r) ''jsonrpc'' UCL_STRING"
  "has_member u (error_obj u i err) ''jsonrpc'' UCL_STRING"
  by (simp_all add: has_member_iff request_obj_def reply_obj_def error_obj_def Let_def type_laws lookup_laws)

lemma request_typed: "ucl_object_type u p = UCL_OBJECT \<Longrightarrow> msg_typed u RequestMsg (request_obj u m p i)"
  by (rule msg_typed.request) (simp_all add: member_defs request_obj_lookup type_laws jsonrpc_member [unfolded has_member_iff])

lemma reply_typed: "msg_typed u ReplyMsg (reply_obj u i r)"
  by (rule msg_typed.reply) (simp_all add: member_defs reply_obj_lookup type_laws jsonrpc_member [unfolded has_member_iff])

lemma error_typed: "msg_typed u ErrorMsg (error_obj u i err)"
  by (rule msg_typed.error [OF _ error_obj_lookup(3)])
    (simp_all add: member_defs error_obj_lookup makeError_lookup type_laws keyed_lookup jsonrpc_member [unfolded has_member_iff])

lemma answer_typed: "answer u r q = Some a \<Longrightarrow> msg_typed u ReplyMsg a \<or> msg_typed u ErrorMsg a"
  by (auto simp: answer_def reply_typed error_typed split: if_splits option.splits)

text \<open>How the two tests of the code classify typed messages.\<close>

lemma typed_is_request: "msg_typed u k ob \<Longrightarrow> uclObjIsRequest u ob \<longleftrightarrow> k = RequestMsg"
  by (auto elim!: msg_typed.cases simp: uclObjIsRequest_def member_defs)

lemma typed_response_id:
  "msg_typed u k ob \<Longrightarrow> uclObjIsResponseForId u ob =
     (if k = RequestMsg then 0 else int32 (toint_ptr u (ucl_object_lookup u ob ''id'')))"
  by (auto elim!: msg_typed.cases simp: uclObjIsResponseForId_def Let_def member_defs)

lemma typed_error_read: "msg_typed u ErrorMsg ob \<Longrightarrow> snd (uclToError u (ucl_object_lookup u ob ''error'')) = []"
  by (auto elim!: typed_errorE simp: uclToError_def Let_def member_defs dest: tostring_string split: option.splits)

end

section \<open>What typed messages do\<close>

lemma send_answer_transport: "send_answer u e a (x, w) = (x', w') \<Longrightarrow> x' = x"
  by (auto simp: send_answer_def writeObj_def Let_def split: option.splits prod.splits if_splits)

text \<open>The request that the services see.\<close>

definition typed_req :: "'o ucl_api \<Rightarrow> 'o \<Rightarrow> 'o WSRPCReq" where
  "typed_req u ob =
     \<lparr>rq_id = int32 (toint_ptr u (ucl_object_lookup u ob ''id'')),
      method_name = the (ucl_object_tostring u (the (ucl_object_lookup u ob ''method''))),
      params = ucl_object_lookup u ob ''params'', rq_result = None, rq_err = no_error\<rparr>"

text \<open>A peer: libucl as documented, and services and delegates that leave the transport alone.\<close>

locale rpc_peer = ucl_laws u + quiet_services e f g
  for u :: "'o ucl_api" and e :: "('o, 'v, 'd, 'w) rpc_env"
    and f :: "'v \<Rightarrow> 'o WSRPCReq \<Rightarrow> 'w \<Rightarrow> int \<times> 'o WSRPCReq \<times> 'w" and g :: "'d \<Rightarrow> nat \<Rightarrow> 'w \<Rightarrow> 'w"
begin

lemma completeWith_typed:
  assumes "msg_typed u k ob" "k \<noteq> RequestMsg"
  shows "x_faults (fst (completeWith u e c ob (x, w))) = x_faults x"
proof (cases k)
  case ErrorMsg
  with assms(1) obtain err where "uclToError u (ucl_object_lookup u ob ''error'') = (err, [])"
    by (metis typed_error_read prod.collapse)
  then show ?thesis by (simp add: completeWith_def Let_def update_comp_def invoker split: option.split)
next
  case ReplyMsg
  with assms(1) show ?thesis
    by (auto elim!: typed_replyE simp: completeWith_def update_comp_def member_defs invoker Let_def split: option.split)
qed (use assms(2) in simp)

lemma typed_request_dispatch:
  assumes "msg_typed u RequestMsg ob" "svcs x = Some l" "length l < n"
  shows "processMessage u e n ob (x, w) =
    (let (r, q, w1) = offer f l (typed_req u ob) w in Done (send_answer u e (answer u r q) (x, w1)))"
proof -
  obtain m i where lk: "ucl_object_lookup u ob ''method'' = Some m" "ucl_object_type u m = UCL_STRING"
      "ucl_object_lookup u ob ''id'' = Some i" "ucl_object_type u i = UCL_INT"
    using assms(1) by (auto elim!: typed_requestE simp: member_defs)
  obtain s where s: "ucl_object_tostring u m = Some s" using tostring_string [OF lk(2)] by auto
  obtain r q w1 where off: "offer f l (typed_req u ob) w = (r, q, w1)" by (rule prod_cases3)
  have run: "run_services e n 0 (typed_req u ob) (x, w) = Done (r, q, x, w1)"
    using run_services_exact [OF assms(2), of 0 n "typed_req u ob" w] assms(3) off by simp
  have "\<lparr>rq_id = int32 (ucl_object_toint u i), method_name = s, params = ucl_object_lookup u ob ''params'',
      rq_result = None, rq_err = no_error\<rparr> = typed_req u ob"
    by (simp add: typed_req_def lk s)
  then show ?thesis
    using typed_is_request [OF assms(1)] typed_response_id [OF assms(1)]
    by (simp add: processMessage_def Let_def lk s off run answer_def send_answer_def sendError_def sendReply_def
        del: run_services.simps split: option.split)
qed

lemma typed_processed:
  assumes "msg_typed u k ob" "svcs x = Some l" "length l < n"
  shows "\<exists>x' w'. processMessage u e n ob (x, w) = Done (x', w') \<and> x_faults x' = x_faults x"
proof (cases "k = RequestMsg")
  case True
  obtain r q w1 where off: "offer f l (typed_req u ob) w = (r, q, w1)" by (rule prod_cases3)
  moreover obtain x' w' where "send_answer u e (answer u r q) (x, w1) = (x', w')" by (rule prod.exhaust)
  moreover from this have "x' = x" by (rule send_answer_transport)
  ultimately show ?thesis using typed_request_dispatch assms True by auto
next
  case False
  then show ?thesis
    using completeWith_typed [OF assms(1) False] typed_is_request [OF assms(1)]
    by (auto simp: processMessage_def Let_def prod_eq_iff split: option.split)
qed

end

lemma typed_request_answered:
  assumes "rpc_peer u e f g" "msg_typed u RequestMsg ob" "svcs x = Some l" "length l < n"
  shows "\<exists>a w1. processMessage u e n ob (x, w) = Done (send_answer u e a (x, w1)) \<and>
    (\<forall>b. a = Some b \<longrightarrow> msg_typed u ReplyMsg b \<or> msg_typed u ErrorMsg b)"
proof -
  obtain r q w1 where off: "offer f l (typed_req u ob) w = (r, q, w1)" by (rule prod_cases3)
  have "ucl_laws u" using assms(1) by (rule rpc_peer.axioms)
  then have "\<forall>b. answer u r q = Some b \<longrightarrow> msg_typed u ReplyMsg b \<or> msg_typed u ErrorMsg b"
    by (simp add: ucl_laws.answer_typed)
  moreover have "processMessage u e n ob (x, w) = Done (send_answer u e (answer u r q) (x, w1))"
    by (simp add: rpc_peer.typed_request_dispatch [OF assms] off)
  ultimately show ?thesis by blast
qed

interpretation table_peer: rpc_peer tree_ucl "service_env f g wr rc pl rn" f g for f g wr rc pl rn
  by (rule rpc_peer.intro [OF tree.ucl_laws_axioms services.quiet_services_axioms])



text \<open>Without the type there is a fault: the text of an error that is an integer.\<close>

lemma untyped_error_faults:
  "ucl_object_lookup u er ''message'' = Some t \<Longrightarrow> ucl_object_tostring u t = None
    \<Longrightarrow> snd (uclToError u (Some er)) = [NullString ''uclToError'']"
  by (simp add: uclToError_def Let_def)

end
