(* ===== verification/Idl.thy ===== *)
theory Idl
  imports Eci_Prelude
begin

text \<open>
  The syntax tree of the RPC interface language (\<^verbatim>\<open>cmd/wsrpcgen/wsrpcgen.hh\<close>) and the resolution
  of type names in nested scopes (\<^verbatim>\<open>cmd/wsrpcgen/scope.cc\<close>).

  \<^item> The objects are values; the pointer to the enclosing scope becomes an argument, the chain of
    the enclosing scopes from the inside out, each with its name and types, below them the unit.
  \<^item> What later stages use of the pointer to a type's definition is whether it is null and the
    qualified prefix of the definition: \<open>t_def\<close> holds just that.
  \<^item> The trees that the parser builds have no cycles, so the imports of a unit are a list of units.
\<close>

section \<open>Syntax trees\<close>

record TypeRef =
  t_list :: bool
  byRef :: bool
  svcByRRef :: bool
  t_def :: "string option"
  t_type :: string

record Decl =
  d_type :: TypeRef
  d_id :: string

record Entry =
  en_id :: string
  en_str :: string
  en_iVal :: string

datatype TypeDef =
    StructDef (td_name: string) (td_types: "TypeDef list") (sd_decls: "Decl list")
  | UnionDef (td_name: string) (td_types: "TypeDef list") (ud_enumType: TypeRef) (ud_cases: "(string \<times> Decl list) list")
  | EnumDef (td_name: string) (ed_entries: "Entry list")
  where "td_types (EnumDef n es) = []"

record Method =
  me_retType :: TypeRef
  me_name :: string
  me_args :: "Decl list"

record Version =
  v_num :: "64 word"
  v_name :: string
  v_methods :: "Method list"

record Program =
  p_name :: string
  p_types :: "TypeDef list"
  p_num :: "64 word"
  p_versions :: "Version list"

datatype trlunit =
  TrlUnit (u_name: string) (u_code: string) (u_imports: "trlunit list") (u_types: "TypeDef list") (u_programs: "Program list")

type_synonym scope_frame = "string \<times> TypeDef list"

section \<open>Lookup of an identifier\<close>

fun first_some :: "'a option list \<Rightarrow> 'a option" where
  "first_some [] = None"
| "first_some (None # xs) = first_some xs"
| "first_some (Some x # xs) = Some x"

text \<open>A definition is found together with the scopes that enclose it.\<close>

type_synonym found = "TypeDef \<times> scope_frame list \<times> trlunit"

fun unit_lookupIdentifier :: "string \<Rightarrow> trlunit \<Rightarrow> found option" where
  "unit_lookupIdentifier ident (TrlUnit nm code imports types programs) =
     (case find (\<lambda>t. td_name t = ident) types of
        Some t \<Rightarrow> Some (t, [], TrlUnit nm code imports types programs)
      | None \<Rightarrow> first_some (map (unit_lookupIdentifier ident) imports))"

fun lookupIdentifier :: "string \<Rightarrow> scope_frame list \<Rightarrow> trlunit \<Rightarrow> found option" where
  "lookupIdentifier ident [] u = unit_lookupIdentifier ident u"
| "lookupIdentifier ident ((nm, types) # fs) u =
     (case find (\<lambda>t. td_name t = ident) types of
        Some t \<Rightarrow> Some (t, (nm, types) # fs, u)
      | None \<Rightarrow> lookupIdentifier ident fs u)"

text \<open>The prefix of the scopes \<open>fs\<close>; a unit has none.\<close>

fun fullyQualifiedPrefix :: "scope_frame list \<Rightarrow> string" where
  "fullyQualifiedPrefix [] = []"
| "fullyQualifiedPrefix ((nm, types) # fs) = fullyQualifiedPrefix fs @ nm @ ''::''"

definition fullyQualifiedName :: "scope_frame list \<Rightarrow> string \<Rightarrow> string" where
  "fullyQualifiedName fs nm = fullyQualifiedPrefix fs @ nm"

definition def_prefix :: "found \<Rightarrow> string" where
  "def_prefix f = (let (t, fs, u) = f in fullyQualifiedPrefix ((td_name t, td_types t) # fs))"

section \<open>Qualified names\<close>

text \<open>
  The loop of \<open>TypeRef::synthInScope\<close>: \<open>find_first_not_of(''::'')\<close> skips colons, \<open>find(''::'')\<close>
  looks for two of them. The rest of the name takes the place of the position \<open>end\<close>.
\<close>

fun up_to_colons :: "string \<Rightarrow> string \<times> string" where
  "up_to_colons [] = ([], [])"
| "up_to_colons [c] = ([c], [])"
| "up_to_colons (c # d # cs) =
     (if c = CHR '':'' \<and> d = CHR '':'' then ([], c # d # cs)
      else (let (p, r) = up_to_colons (d # cs) in (c # p, r)))"

lemma up_to_colons_append: "fst (up_to_colons s) @ snd (up_to_colons s) = s"
  by (induction s rule: up_to_colons.induct) (auto simp: case_prod_beta)

lemma up_to_colons_nonempty:
  assumes "s = c # cs" "c \<noteq> CHR '':''"
  shows "fst (up_to_colons s) \<noteq> []"
  using assms by (cases cs) (auto simp: case_prod_beta)

function type_parts :: "string \<Rightarrow> string list" where
  "type_parts s =
     (let t = dropWhile (\<lambda>c. c = CHR '':'') s
      in if t = [] then [] else fst (up_to_colons t) # type_parts (snd (up_to_colons t)))"
  by pat_completeness auto
termination
proof (relation "measure length")
  fix s t :: string
  assume t: "t = dropWhile (\<lambda>c. c = CHR '':'') s" "t \<noteq> []"
  then obtain c cs where "t = c # cs" "c \<noteq> CHR '':''"
    using hd_dropWhile [of "\<lambda>c. c = CHR '':''" s] by (metis list.collapse)
  then have "fst (up_to_colons t) \<noteq> []" by (rule up_to_colons_nonempty)
  moreover have "length (fst (up_to_colons t)) + length (snd (up_to_colons t)) = length t"
    using up_to_colons_append [of t] by (metis length_append)
  moreover have "length t \<le> length s" unfolding t by (rule length_dropWhile_le)
  ultimately show "(snd (up_to_colons t), s) \<in> measure length"
    by (cases "fst (up_to_colons t)") auto
qed simp

declare type_parts.simps [simp del]

text \<open>The first part is looked up in the scope, every other one in the definition found before.\<close>

fun resolve_in :: "string list \<Rightarrow> found \<Rightarrow> found option" where
  "resolve_in [] f = Some f"
| "resolve_in (p # ps) (t, fs, u) =
     (case lookupIdentifier p ((td_name t, td_types t) # fs) u of
        None \<Rightarrow> None
      | Some f \<Rightarrow> resolve_in ps f)"

definition resolve :: "string \<Rightarrow> scope_frame list \<Rightarrow> trlunit \<Rightarrow> found option" where
  "resolve ty fs u =
     (case type_parts ty of
        [] \<Rightarrow> None
      | p # ps \<Rightarrow> (case lookupIdentifier p fs u of None \<Rightarrow> None | Some f \<Rightarrow> resolve_in ps f))"

section \<open>Synthesis in scopes\<close>

definition synth_ref :: "scope_frame list \<Rightarrow> trlunit \<Rightarrow> TypeRef \<Rightarrow> TypeRef" where
  "synth_ref fs u tr = tr\<lparr>t_def := map_option def_prefix (resolve (t_type tr) fs u)\<rparr>"

definition synth_decl :: "scope_frame list \<Rightarrow> trlunit \<Rightarrow> Decl \<Rightarrow> Decl" where
  "synth_decl fs u d = d\<lparr>d_type := synth_ref fs u (d_type d)\<rparr>"

fun synth_def :: "scope_frame list \<Rightarrow> trlunit \<Rightarrow> TypeDef \<Rightarrow> TypeDef" where
  "synth_def fs u (StructDef nm types decls) =
     (let here = (nm, types) # fs
      in StructDef nm (map (synth_def here u) types) (map (synth_decl here u) decls))"
| "synth_def fs u (UnionDef nm types enumType cases) =
     (let here = (nm, types) # fs
      in UnionDef nm (map (synth_def here u) types) (synth_ref here u enumType)
           (map (\<lambda>(c, ds). (c, map (synth_decl here u) ds)) cases))"
| "synth_def fs u (EnumDef nm entries) = EnumDef nm entries"

definition synth_method :: "scope_frame list \<Rightarrow> trlunit \<Rightarrow> Method \<Rightarrow> Method" where
  "synth_method fs u m =
     m\<lparr>me_retType := synth_ref fs u (me_retType m), me_args := map (synth_decl fs u) (me_args m)\<rparr>"

definition synth_version :: "scope_frame list \<Rightarrow> trlunit \<Rightarrow> Version \<Rightarrow> Version" where
  "synth_version fs u v = v\<lparr>v_methods := map (synth_method fs u) (v_methods v)\<rparr>"

definition synth_program :: "trlunit \<Rightarrow> Program \<Rightarrow> Program" where
  "synth_program u p =
     (let here = [(p_name p, p_types p)]
      in p\<lparr>p_types := map (synth_def here u) (p_types p), p_versions := map (synth_version here u) (p_versions p)\<rparr>)"

fun synth_unit :: "trlunit \<Rightarrow> trlunit" where
  "synth_unit (TrlUnit nm code imports types programs) =
     (let u = TrlUnit nm code imports types programs
      in TrlUnit nm code (map synth_unit imports) (map (synth_def [] u) types) (map (synth_program u) programs))"

section \<open>Lemmas\<close>

lemma up_to_colons_plain:
  assumes "CHR '':'' \<notin> set p" "r = [] \<or> (\<exists>s. r = CHR '':'' # CHR '':'' # s)"
  shows "up_to_colons (p @ r) = (p, r)"
  using assms
proof (induction p)
  case Nil
  then show ?case by auto
next
  case (Cons c p)
  then show ?case by (cases p; cases r) auto
qed

fun join_colons :: "string list \<Rightarrow> string" where
  "join_colons [] = []"
| "join_colons [p] = p"
| "join_colons (p # q # ps) = p @ ''::'' @ join_colons (q # ps)"

lemma dropWhile_colon_plain:
  assumes "p \<noteq> []" "CHR '':'' \<notin> set p"
  shows "dropWhile (\<lambda>c. c = CHR '':'') (p @ r) = p @ r"
  using assms by (cases p) auto

lemma type_parts_skip: "type_parts (CHR '':'' # s) = type_parts s"
  by (subst (1 2) type_parts.simps) simp

lemma type_parts_step:
  assumes "p \<noteq> []" "CHR '':'' \<notin> set p" "r = [] \<or> (\<exists>s. r = CHR '':'' # CHR '':'' # s)"
  shows "type_parts (p @ r) = p # type_parts r"
  using assms
  by (subst type_parts.simps) (simp add: dropWhile_colon_plain up_to_colons_plain Let_def)

lemma type_parts_Nil [simp]: "type_parts [] = []"
  by (simp add: type_parts.simps)

lemma type_parts_join:
  assumes "\<forall>p \<in> set ps. p \<noteq> [] \<and> CHR '':'' \<notin> set p"
  shows "type_parts (join_colons ps) = ps"
  using assms
proof (induction ps rule: join_colons.induct)
  case (2 p)
  then show ?case using type_parts_step [of p "[]"] by simp
next
  case (3 p q ps)
  have "type_parts (p @ ''::'' @ join_colons (q # ps)) = p # type_parts (''::'' @ join_colons (q # ps))"
    using 3 by (intro type_parts_step) auto
  with 3 show ?case by (simp add: type_parts_skip)
qed simp

text \<open>A qualified name is taken apart into the parts it was made of, whatever colons it begins
  with.\<close>

theorem qualified_name_parts:
  assumes "\<forall>p \<in> set ps. p \<noteq> [] \<and> CHR '':'' \<notin> set p"
  shows "type_parts (replicate k CHR '':'' @ join_colons ps) = ps"
  by (induction k) (simp_all add: type_parts_skip type_parts_join [OF assms])

theorem qualified_name_parts_witness: "type_parts ''::Outer::Inner::T'' = [''Outer'', ''Inner'', ''T'']"
  using qualified_name_parts [of "[''Outer'', ''Inner'', ''T'']" 2] by (simp add: numeral_2_eq_2)

text \<open>The definition that a path of names leads to, going down from a definition.\<close>

fun walk :: "string list \<Rightarrow> found \<Rightarrow> found option" where
  "walk [] f = Some f"
| "walk (p # ps) (t, fs, u) =
     (case find (\<lambda>t'. td_name t' = p) (td_types t) of
        None \<Rightarrow> None
      | Some t' \<Rightarrow> walk ps (t', (td_name t, td_types t) # fs, u))"

lemma walk_resolves:
  assumes "walk ps f = Some f'"
  shows "resolve_in ps f = Some f'" "def_prefix f' = def_prefix f @ concat (map (\<lambda>p. p @ ''::'') ps)"
  using assms
proof (induction ps f rule: walk.induct)
  case (2 p ps t fs u)
  {
    case 1
    with 2 show ?case by (auto split: option.splits)
  next
    case 2
    with "2.IH" show ?case
      by (auto simp: def_prefix_def dest: find_SomeD split: option.splits)
  }
qed simp_all

lemma lookup_skips:
  assumes "\<forall>(nm, types) \<in> set pre. p \<notin> td_name ` set types"
  shows "lookupIdentifier p (pre @ fs) u = lookupIdentifier p fs u"
  using assms
proof (induction pre)
  case (Cons a pre)
  obtain nm types where a: "a = (nm, types)" by (cases a)
  have "find (\<lambda>t. td_name t = p) types = None" using Cons.prems a by (auto simp: find_None_iff)
  with Cons a show ?case by simp
qed simp

text \<open>C17: a qualified name that leads from a definition of the unit down through nested definitions
  resolves, in every scope that does not hide its first part, to the definition at the end of that path, and the
  qualified prefix of the definition, which the generated code is named by, is made of the same path.\<close>

theorem path_resolves:
  assumes "\<forall>q \<in> set (p # ps). q \<noteq> [] \<and> CHR '':'' \<notin> set q"
    and "\<forall>(nm, types) \<in> set fs. p \<notin> td_name ` set types"
    and "find (\<lambda>t. td_name t = p) (u_types u) = Some t" "walk ps (t, [], u) = Some f"
  shows "resolve (join_colons (p # ps)) fs u = Some f \<and>
    def_prefix f = concat (map (\<lambda>q. q @ ''::'') (p # ps))"
proof -
  have parts: "type_parts (join_colons (p # ps)) = p # ps" using assms(1) by (rule type_parts_join)
  have "lookupIdentifier p fs u = Some (t, [], u)"
    using lookup_skips [OF assms(2), of "[]" u] assms(3) by (cases u) simp
  then have "resolve (join_colons (p # ps)) fs u = Some f"
    using walk_resolves(1) [OF assms(4)] by (simp add: resolve_def parts)
  moreover have "td_name t = p" using find_SomeD [OF assms(3)] by simp
  then have "def_prefix (t, [], u) = p @ ''::''" by (simp add: def_prefix_def)
  with walk_resolves(2) [OF assms(4)] have "def_prefix f = concat (map (\<lambda>q. q @ ''::'') (p # ps))" by simp
  ultimately show ?thesis by simp
qed

text \<open>A unit with a type \<open>Inner\<close> nested in \<open>Outer\<close>.\<close>

definition nested_unit :: trlunit where
  "nested_unit = TrlUnit ''n.x'' [] [] [StructDef ''Outer'' [EnumDef ''Inner'' []] [], EnumDef ''Other'' []] []"

theorem path_resolves_witness:
  "map_option def_prefix (resolve ''Outer::Inner'' [(''S'', [])] nested_unit) = Some ''Outer::Inner::''"
  using path_resolves [of "''Outer''" "[''Inner'']" "[(''S'', [])]" nested_unit "StructDef ''Outer'' [EnumDef ''Inner'' []] []"
      "(EnumDef ''Inner'' [], [(''Outer'', [EnumDef ''Inner'' []])], nested_unit)"]
  by (simp add: nested_unit_def)

text \<open>The lookup of the later parts of a qualified name does not stay within the definition found
  so far: a part that the definition does not have is looked up in the scopes around it, so that a qualified
  name may resolve to a definition that is not where the name says.\<close>

theorem qualified_lookup_escapes:
  assumes "p \<notin> td_name ` set (td_types t)"
  shows "resolve_in [p] (t, fs, u) = lookupIdentifier p fs u"
proof -
  have "find (\<lambda>t'. td_name t' = p) (td_types t) = None" using assms by (auto simp: find_None_iff)
  then show ?thesis by (auto split: option.split)
qed

theorem qualified_lookup_escapes_witness:
  "resolve_in [''Other''] (EnumDef ''Inner'' [], [(''Outer'', [EnumDef ''Inner'' []])], nested_unit) =
     Some (EnumDef ''Other'' [], [], nested_unit)"
  using qualified_lookup_escapes [of "''Other''" "EnumDef ''Inner'' []" "[(''Outer'', [EnumDef ''Inner'' []])]" nested_unit]
  by (simp add: nested_unit_def)

end
