(* ===== verification/Wsrpcgen.thy ===== *)
theory Wsrpcgen
  imports Idl
begin

text \<open>
  The generator of RPC stubs, \<^verbatim>\<open>cmd/wsrpcgen/gen.cc\<close> and \<^verbatim>\<open>cmd/wsrpcgen/wsrpcgen.cc\<close>, on resolved
  syntax trees. Every generator function is the list of the calls it makes on the output stream,
  in order; \<open>exec\<close> carries them out. A function of a nested definition takes the qualified prefix
  of the enclosing scope, \<open>pp\<close>, as an argument.
\<close>

section \<open>The output stream\<close>

datatype out_op = Add string | Cadd string | Indent int

record OutStream =
  os_txt :: string
  depth :: int

fun exec_op :: "out_op \<Rightarrow> OutStream \<Rightarrow> OutStream" where
  "exec_op (Add str) os = os\<lparr>os_txt := os_txt os @ replicate (nat (depth os)) CHR '' '' @ str\<rparr>"
| "exec_op (Cadd str) os = os\<lparr>os_txt := os_txt os @ str\<rparr>"
| "exec_op (Indent n) os = os\<lparr>depth := depth os + n\<rparr>"

definition exec :: "out_op list \<Rightarrow> OutStream \<Rightarrow> OutStream" where
  "exec ops os = fold exec_op ops os"

section \<open>References to types\<close>

definition quote :: "string \<Rightarrow> string" where
  "quote str = ''\"'' @ str @ ''\"''"

definition isVoid :: "TypeRef \<Rightarrow> bool" where
  "isVoid tr \<longleftrightarrow> t_type tr = ''void''"

definition makeDecl :: "TypeRef \<Rightarrow> string \<Rightarrow> string \<Rightarrow> string" where
  "makeDecl tr ident declaratorPrefix =
     (if t_list tr then ''std::list<'' else []) @
     (if t_type tr = ''string'' then ''std::string'' else t_type tr) @
     (if t_list tr then ''>'' else []) @ '' '' @ declaratorPrefix @ ident"

definition makeArg :: "TypeRef \<Rightarrow> string \<Rightarrow> string" where
  "makeArg tr ident = makeDecl tr ident (if byRef tr then ''&'' else [])"

definition makeSvcArg :: "TypeRef \<Rightarrow> string \<Rightarrow> string" where
  "makeSvcArg tr ident = makeDecl tr ident (if svcByRRef tr then ''&&'' else [])"

definition canonicalName :: "TypeRef \<Rightarrow> string" where
  "canonicalName tr = map (\<lambda>c. if c = CHR '':'' then CHR ''_'' else c) (t_type tr)"

definition makeDeserialiseCall :: "TypeRef \<Rightarrow> string \<Rightarrow> string \<Rightarrow> string" where
  "makeDeserialiseCall tr uclObj outObj =
     ''wsRPCDeserialise'' @ canonicalName tr @ (if t_list tr then ''List'' else []) @ ''('' @ uclObj @ '', '' @ outObj @ '')''"

definition makeSerialiseCall :: "TypeRef \<Rightarrow> string \<Rightarrow> string" where
  "makeSerialiseCall tr inObj =
     ''wsRPCSerialise'' @ canonicalName tr @ (if t_list tr then ''List'' else []) @ ''('' @ inObj @ '')''"

definition genSerialiseInto :: "TypeRef \<Rightarrow> string \<Rightarrow> string \<Rightarrow> out_op list" where
  "genSerialiseInto tr inn out =
     (let elS = (case t_def tr of
                   None \<Rightarrow> ''wsRPCSerialise'' @ canonicalName tr @ ''(&'' @ inn @ '')''
                 | Some _ \<Rightarrow> inn @ ''.serialise()'')
      in if t_list tr then
           [Add (out @ '' = ucl_object_typed_new(UCL_ARRAY);\<newline>''),
            Add (''for (auto &'' @ inn @ '' : '' @ inn @ '')\<newline>''),
            Add (''  ucl_array_append('' @ out @ '', '' @ elS @ '');\<newline>'')]
         else [Add (out @ '' = '' @ elS @ '';\<newline>'')])"

definition genDeserialiseInto :: "TypeRef \<Rightarrow> string \<Rightarrow> string \<Rightarrow> string \<Rightarrow> bool \<Rightarrow> out_op list" where
  "genDeserialiseInto tr suc uIn out alreadyPointer =
     (let amp = (if alreadyPointer then [] else ''&'');
          elS = (case t_def tr of
                   None \<Rightarrow> ''wsRPCDeserialise'' @ canonicalName tr @ ''('' @ uIn @ '', '' @ amp @ out @ '')''
                 | Some prefix \<Rightarrow> prefix @ ''deserialise('' @ uIn @ '', '' @ amp @ out @ '')'')
      in if t_list tr then
           [Add ''ucl_object_iter_t it = NULL;\<newline>'',
            Add ''const ucl_object_t *uEl;\<newline>'',
            Add (''while ((uEl = ucl_iterate_object('' @ uIn @ '', &it, true))) {\<newline>''),
            Indent 2] @
           (case t_def tr of
              Some _ \<Rightarrow>
                [Add (t_type tr @ '' outEl;\<newline>''),
                 Add (''if (!'' @ t_type tr @ ''::deserialise(uEl, &outEl)) {\<newline>''),
                 Add (''  '' @ suc @ '' = false;\<newline>''),
                 Add ''  break;\<newline>'',
                 Add ''}\<newline>'']
            | None \<Rightarrow>
                [Add (canonicalName tr @ '' outEl'' @ '';\<newline>''),
                 Add (''if (!wsRPCDeserialise'' @ canonicalName tr @ ''(uEl, &outEl)) {\<newline>''),
                 Add ''  suc = false;\<newline>'',
                 Add ''  break;\<newline>'',
                 Add ''}\<newline>'']) @
           [Add (''('' @ out @ '')'' @ (if alreadyPointer then ''->'' else ''.'') @ ''emplace_back(std::move(outEl));\<newline>''),
            Indent (-2),
            Add ''}\<newline>'']
         else [Add (suc @ '' = '' @ elS @ '';\<newline>'')])"

section \<open>Type definitions\<close>

definition genSerDecl :: "string \<Rightarrow> bool \<Rightarrow> string \<Rightarrow> out_op list" where
  "genSerDecl prefix qualified declspec =
     [Add (declspec @ ''ucl_object_t * '' @ (if qualified then prefix else []) @ ''serialise()'')]"

definition genDeserDecl :: "string \<Rightarrow> string \<Rightarrow> bool \<Rightarrow> string \<Rightarrow> out_op list" where
  "genDeserDecl prefix nm qualified declspec =
     [Add (declspec @ ''bool '' @ (if qualified then prefix else []) @
           ''deserialise (const ucl_object_t *obj,'' @ nm @ '' *out)'')]"

definition member_decls :: "Decl list \<Rightarrow> out_op list" where
  "member_decls decls = map (\<lambda>d. Add (makeDecl (d_type d) (d_id d) [] @ '';\<newline>'')) decls"

text \<open>
  A function of a type definition is one per kind of definition, as in the code; its first argument is
  what the loop over the nested definitions wrote, the \<open>fun\<close> after them is the virtual call.
\<close>

definition struct_genDef :: "out_op list \<Rightarrow> string \<Rightarrow> Decl list \<Rightarrow> out_op list" where
  "struct_genDef nested nm decls =
     [Add (''struct '' @ nm @ '' {\<newline>''), Indent 2] @
     nested @
     member_decls decls @
     [Cadd ''\<newline>''] @
     genSerDecl [] False [] @ [Cadd '';\<newline>''] @
     genDeserDecl [] nm False ''static '' @ [Cadd '';\<newline>''] @
     [Indent (-2), Add ''};\<newline>'']"

definition union_genDef :: "out_op list \<Rightarrow> string \<Rightarrow> TypeRef \<Rightarrow> (string \<times> Decl list) list \<Rightarrow> out_op list" where
  "union_genDef nested nm enumType cases =
     [Add (''struct '' @ nm @ '' {\<newline>''), Indent 2] @
     nested @
     [Add (makeDecl enumType ''type'' [] @ '';\<newline>''),
      Add ''union {\<newline>''] @
     concat (map (\<lambda>(c, decls).
       [Add (''struct '' @ c @ ''{\<newline>''), Indent 2] @ member_decls decls @ [Indent (-2), Add ''};\<newline>\<newline>'']) cases) @
     [Add ''} value;\<newline>\<newline>''] @
     genSerDecl [] False [] @ [Cadd '';\<newline>''] @
     genDeserDecl [] nm False ''static '' @ [Cadd '';\<newline>''] @
     [Indent (-2), Add ''};\<newline>'']"

definition enum_genDef :: "string \<Rightarrow> Entry list \<Rightarrow> out_op list" where
  "enum_genDef nm entries =
     [Add (''struct '' @ nm @ ''{\<newline>''), Indent 2,
      Add (''enum _E'' @ nm @ '' {\<newline>''), Indent 2] @
     map (\<lambda>en. Add (en_id en @ (if en_iVal en \<noteq> [] then '' = '' @ en_iVal en else []) @ '',\<newline>'')) entries @
     [Add ''kMax,\<newline>'', Indent (-2), Add ''};\<newline>\<newline>''] @
     map (\<lambda>en. Add (''static const char * '' @ en_id en @ ''PSz;\<newline>'')) entries @
     [Cadd ''\<newline>'',
      Add (''_E'' @ nm @ '' value;\<newline>\<newline>''),
      Add (nm @ ''() : value(kMax) {};\<newline>''),
      Add (nm @ ''(const '' @ ''_E'' @ nm @ ''&value) : value(value) {};\<newline>''),
      Add (''operator _E'' @ nm @ ''() { return value; }\<newline>''),
      Add ''const char * toPSz() const;\<newline>''] @
     genSerDecl [] False [] @ [Cadd '';\<newline>\<newline>''] @
     [Add (''static '' @ nm @ '' fromPSz(const char * pSz);\<newline>'')] @
     genDeserDecl [] nm False ''static '' @ [Cadd '';\<newline>''] @
     [Indent (-2), Add ''};\<newline>'']"

fun genDef :: "TypeDef \<Rightarrow> out_op list" where
  "genDef (StructDef nm types decls) = struct_genDef (concat (map genDef types)) nm decls"
| "genDef (UnionDef nm types enumType cases) = union_genDef (concat (map genDef types)) nm enumType cases"
| "genDef (EnumDef nm entries) = enum_genDef nm entries"

text \<open>The chain of \<open>if\<close> and \<open>else if\<close> over the entries of an enumeration.\<close>

definition entry_chain :: "(Entry \<Rightarrow> string \<times> string) \<Rightarrow> Entry list \<Rightarrow> out_op list" where
  "entry_chain f entries =
     concat (map (\<lambda>(i, en). [Add (if i = 0 then ''if'' else ''else if''), Add (fst (f en)), Add (snd (f en))])
       (enumerate 0 entries))"

definition struct_genSerImpl :: "out_op list \<Rightarrow> string \<Rightarrow> Decl list \<Rightarrow> out_op list" where
  "struct_genSerImpl nested prefix decls =
     nested @
     genSerDecl prefix True [] @ [Cadd ''\<newline>'', Add ''{\<newline>'', Indent 2] @
     [Add ''ucl_object_t * out = ucl_object_typed_new(UCL_OBJECT);\<newline>''] @
     map (\<lambda>d. Add (''ucl_object_t * u'' @ d_id d @ '';\<newline>'')) decls @
     concat (map (\<lambda>d. genSerialiseInto (d_type d) (d_id d) (''u'' @ d_id d)) decls) @
     map (\<lambda>d. Add (''ucl_object_insert_key(out, u'' @ d_id d @ '', '' @ quote (d_id d) @ '', 0, false);\<newline>'')) decls @
     [Add ''return out;\<newline>'', Indent (-2), Add ''}\<newline>'']"

definition union_genSerImpl :: "out_op list \<Rightarrow> string \<Rightarrow> out_op list" where
  "union_genSerImpl nested prefix =
     nested @
     genSerDecl prefix True [] @ [Cadd ''\<newline>'', Add ''{\<newline>'', Indent 2, Indent (-2), Add ''}\<newline>'']"

definition enum_genSerImpl :: "string \<Rightarrow> Entry list \<Rightarrow> out_op list" where
  "enum_genSerImpl prefix entries =
     map (\<lambda>en. Add (''const char * '' @ prefix @ en_id en @ ''PSz = '' @
         (if en_str en \<noteq> [] then en_str en else ''\"'' @ en_id en @ ''\"'') @ '';\<newline>'')) entries @
     [Cadd ''\<newline>'',
      Add (''const char * '' @ prefix @ ''toPSz() const\<newline>''), Cadd ''{\<newline>'', Indent 2] @
     entry_chain (\<lambda>en. (''(value =='' @ en_id en @ '')\<newline>'', ''  return '' @ en_id en @ ''PSz;\<newline>'')) entries @
     [Add ''else assert(\"bad object\");\<newline>'', Add ''return NULL;\<newline>'', Indent (-2), Add ''}\<newline>\<newline>''] @
     genSerDecl prefix True [] @ [Cadd ''\<newline>'', Add ''{\<newline>'', Indent 2,
      Add ''return ucl_object_fromstring(toPSz());\<newline>'', Indent (-2), Add ''}\<newline>'']"

fun genSerImpl :: "string \<Rightarrow> TypeDef \<Rightarrow> out_op list" where
  "genSerImpl pp (StructDef nm types decls) =
     (let prefix = pp @ nm @ ''::'' in struct_genSerImpl (concat (map (genSerImpl prefix) types)) prefix decls)"
| "genSerImpl pp (UnionDef nm types enumType cases) =
     (let prefix = pp @ nm @ ''::'' in union_genSerImpl (concat (map (genSerImpl prefix) types)) prefix)"
| "genSerImpl pp (EnumDef nm entries) = enum_genSerImpl (pp @ nm @ ''::'') entries"

definition struct_genDeserImpl :: "out_op list \<Rightarrow> string \<Rightarrow> string \<Rightarrow> Decl list \<Rightarrow> out_op list" where
  "struct_genDeserImpl nested prefix nm decls =
     nested @
     genDeserDecl prefix nm True [] @ [Cadd ''\<newline>'', Add ''{\<newline>'', Indent 2] @
     [Add ''bool suc = true;\<newline>''] @
     map (\<lambda>d. Add (''const ucl_object_t * u'' @ d_id d @ '';\<newline>'')) decls @
     [Add ''if (!(ucl_object_type(obj) == UCL_OBJECT))\<newline>'', Add ''  return false;\<newline>''] @
     map (\<lambda>d. Add (''if (!(u'' @ d_id d @ '' = ucl_object_lookup(obj, '' @ quote (d_id d) @ ''))) return false;\<newline>'')) decls @
     [Add ''/* member deserialisation */\<newline>''] @
     concat (map (\<lambda>d. [Add (''/* deserialise member '' @ d_id d @ '' */\<newline>'')] @
         genDeserialiseInto (d_type d) ''suc'' (''u'' @ d_id d) (''out->'' @ d_id d) False @
         [Add ''if (!suc) return false;\<newline>\<newline>'']) decls) @
     [Cadd ''\<newline>'', Add ''return true;\<newline>'', Indent (-2), Add ''}\<newline>'']"

definition union_genDeserImpl ::
  "out_op list \<Rightarrow> string \<Rightarrow> string \<Rightarrow> TypeRef \<Rightarrow> (string \<times> Decl list) list \<Rightarrow> out_op list" where
  "union_genDeserImpl nested prefix nm enumType cases =
     nested @
     genDeserDecl prefix nm True [] @ [Cadd ''\<newline>'', Add ''{\<newline>'', Indent 2] @
     [Add ''bool suc = true;\<newline>'', Add ''const ucl_object_t * uclType;\<newline>'',
      Add (makeDecl enumType ''type'' [] @ '';\<newline>\<newline>''),
      Add (''if (!(uclType = ucl_object_lookup(obj, '' @ quote ''type'' @ ''))) '' @ '' return false;\<newline>'')] @
     genDeserialiseInto enumType ''suc'' ''uclType'' ''type'' False @
     [Add ''if (!suc) return false;\<newline>\<newline>''] @
     concat (map (\<lambda>(i, c, decls).
         [Add (if i = 0 then [] else ''else\<newline>''),
          Cadd (''if (type =='' @ canonicalName enumType @ ''::'' @ c @ '') {\<newline>''),
          Indent 2, Indent (-2), Add ''}\<newline>'']) (enumerate 0 cases)) @
     [Add ''return true;\<newline>'', Indent (-2), Add ''}\<newline>'']"

definition enum_genDeserImpl :: "string \<Rightarrow> string \<Rightarrow> Entry list \<Rightarrow> out_op list" where
  "enum_genDeserImpl pp nm entries =
     (let prefix = pp @ nm @ ''::''
      in [Add ((pp @ nm) @ '' '' @ prefix @ ''fromPSz(const char * pSz)\<newline>''), Cadd ''{\<newline>'', Indent 2] @
         entry_chain (\<lambda>en. (''(!strcmp(pSz, '' @ en_id en @ ''PSz))\<newline>'', ''  return '' @ en_id en @ '';\<newline>'')) entries @
         [Add ''else return kMax;\<newline>'', Indent (-2), Add ''}\<newline>\<newline>''] @
         genDeserDecl prefix nm True [] @ [Cadd ''\<newline>'', Add ''{\<newline>'', Indent 2,
          Add ''const char * txt;\<newline>'', Add (''_E'' @ nm @ '' value;\<newline>''),
          Add ''if (!ucl_object_tostring_safe(obj, &txt)) return false;\<newline>'',
          Add ''if ((*out = fromPSz(txt)).value == kMax) return false;\<newline>'',
          Add ''return true;\<newline>'', Indent (-2), Add ''}\<newline>''])"

fun genDeserImpl :: "string \<Rightarrow> TypeDef \<Rightarrow> out_op list" where
  "genDeserImpl pp (StructDef nm types decls) =
     (let prefix = pp @ nm @ ''::''
      in struct_genDeserImpl
           (concat (map (\<lambda>t. Add (''/* for sub-member '' @ td_name t @ '' */\<newline>'') # genDeserImpl prefix t) types))
           prefix nm decls)"
| "genDeserImpl pp (UnionDef nm types enumType cases) =
     (let prefix = pp @ nm @ ''::''
      in union_genDeserImpl
           (concat (map (\<lambda>t. Add (''/* for sub-member '' @ td_name t @ '' */\<newline>'') # genDeserImpl prefix t) types))
           prefix nm enumType cases)"
| "genDeserImpl pp (EnumDef nm entries) = enum_genDeserImpl pp nm entries"

definition def_genSerialise :: "string \<Rightarrow> TypeDef \<Rightarrow> out_op list" where
  "def_genSerialise pp t = genSerImpl pp t @ genDeserImpl pp t"

section \<open>Methods: the client side\<close>

text \<open>The number of a version is an \<open>unsigned long\<close>, passed on as an \<open>int\<close>.\<close>

definition ver_num :: "Version \<Rightarrow> int" where
  "ver_num v = sint (ucast (v_num v) :: 32 word)"

definition implFunName :: "Method \<Rightarrow> int \<Rightarrow> string" where
  "implFunName m ver = me_name m @ ''_v'' @ show_int ver"

definition arg_ops :: "(TypeRef \<Rightarrow> string \<Rightarrow> string) \<Rightarrow> Decl list \<Rightarrow> out_op list" where
  "arg_ops f args = concat (map (\<lambda>a. [Cadd '', '', Cadd (f (d_type a) (d_id a))]) args)"

definition genClientCallDecl :: "Method \<Rightarrow> int \<Rightarrow> string \<Rightarrow> out_op list" where
  "genClientCallDecl m ver prefix =
     [Add (''WSRPCError '' @ prefix @ implFunName m ver @ ''(''), Cadd ''WSRPCTransport * xprt''] @
     (if \<not> isVoid (me_retType m) then [Cadd ('', '' @ makeDecl (me_retType m) ''*rval'' [])] else []) @
     arg_ops makeArg (me_args m) @ [Cadd '')'']"

definition genClientCallAsynchDecl :: "Method \<Rightarrow> int \<Rightarrow> string \<Rightarrow> string \<Rightarrow> out_op list" where
  "genClientCallAsynchDecl m ver clsName prefix =
     [Add (''WSRPCCompletion * '' @ prefix @ implFunName m ver @ ''_async(''),
      Cadd ''WSRPCTransport * xprt, '', Cadd (clsName @ ''Delegate* delegate'')] @
     arg_ops makeArg (me_args m) @ [Cadd '')'']"

definition genClientCallCommonPartImpl :: "Method \<Rightarrow> out_op list" where
  "genClientCallCommonPartImpl m =
     [Add ''ucl_object_t * params = ucl_object_typed_new(UCL_OBJECT);\<newline>''] @
     map (\<lambda>a. Add (''ucl_object_t * u'' @ d_id a @ '';\<newline>'')) (me_args m) @
     concat (map (\<lambda>a. genSerialiseInto (d_type a) (d_id a) (''u'' @ d_id a)) (me_args m)) @
     map (\<lambda>a. Add (''ucl_object_insert_key(params, u'' @ d_id a @ '', '' @ quote (d_id a) @ '', 0, false);\<newline>'')) (me_args m)"

definition genClientCallImpl :: "Method \<Rightarrow> int \<Rightarrow> string \<Rightarrow> out_op list" where
  "genClientCallImpl m ver prefix =
     genClientCallDecl m ver prefix @
     [Cadd ''\<newline>'', Add ''{\<newline>'', Indent 2, Add ''WSRPCError werr;\<newline>'', Add ''WSRPCCompletion * comp;\<newline>''] @
     genClientCallCommonPartImpl m @
     [Add ''comp = '', Cadd (''xprt->sendMessage('' @ quote (implFunName m ver) @ '', params, NULL, NULL);\<newline>''),
      Add ''if (comp->wait()) {\<newline>'', Indent 2] @
     (if \<not> isVoid (me_retType m) then
        [Add ''if(comp->result && rval) {\<newline>'', Indent 2, Add ''bool suc;\<newline>''] @
        genDeserialiseInto (me_retType m) ''suc'' ''comp->result'' ''rval'' True @
        [Add ''if (!suc) {\<newline>'', Indent 2,
         Add ''werr.errcode = WSRPCError::kLocalDeserialisationFailure;\<newline>'',
         Add ''werr.errmsg = \"Local deserialisation failure.\";\<newline>'', Indent (-2), Add ''}\<newline>'',
         Indent (-2), Add ''}\<newline>'']
      else []) @
     [Indent (-2), Add ''}\<newline>'', Add ''werr = comp->err;\<newline>'', Add ''delete comp;\<newline>'', Add ''return werr;\<newline>'',
      Indent (-2), Add ''}\<newline>'']"

definition genClientCallAsynchImpl :: "Method \<Rightarrow> int \<Rightarrow> string \<Rightarrow> out_op list" where
  "genClientCallAsynchImpl m ver prefix =
     (let clsName = take (length prefix - 6) prefix
      in genClientCallAsynchDecl m ver clsName prefix @
         [Cadd ''\<newline>'', Add ''{\<newline>'', Indent 2, Add ''WSRPCCompletion * comp;\<newline>''] @
         genClientCallCommonPartImpl m @
         [Add ''comp = '',
          Cadd (''xprt->sendMessage('' @ quote (implFunName m ver) @ '', params, delegate, '' @ clsName @
            ''Delegate::'' @ implFunName m ver @ ''_didReplyDispatch);\<newline> ''),
          Add ''return comp;\<newline>'', Indent (-2), Add ''}\<newline>''])"

definition genClientDelegateDecl :: "Method \<Rightarrow> int \<Rightarrow> string \<Rightarrow> out_op list" where
  "genClientDelegateDecl m ver prefix =
     [Add (''void '' @ prefix @ implFunName m ver @ ''_didReply(WSRPCError * err'')] @
     (if \<not> isVoid (me_retType m) then [Cadd ('', '' @ makeArg (me_retType m) ''retVal'')] else []) @ [Cadd '')'']"

definition genClientDelegateDispatcherDecl :: "Method \<Rightarrow> int \<Rightarrow> string \<Rightarrow> out_op list" where
  "genClientDelegateDispatcherDecl m ver prefix =
     [Add (''void '' @ prefix @ implFunName m ver @ ''_didReplyDispatch(void * _delegate, WSRPCCompletion * comp)'')]"

definition genClientDelegateImpl :: "Method \<Rightarrow> int \<Rightarrow> string \<Rightarrow> out_op list" where
  "genClientDelegateImpl m ver prefix =
     genClientDelegateDecl m ver prefix @
     [Add ''\<newline>'', Add ''{\<newline>'', Indent 2,
      Add (''fprintf(stderr, '' @ quote (''Unhandled reply to method <'' @ me_name m @ ''>'' @ [CHR 0x5C] @ ''n'') @ '');\<newline>''),
      Indent (-2), Add ''}\<newline>'']"

definition genClientDelegateDispatcherImpl :: "Method \<Rightarrow> int \<Rightarrow> string \<Rightarrow> out_op list" where
  "genClientDelegateDispatcherImpl m ver prefix =
     (let clsName = take (length prefix - 2) prefix
      in genClientDelegateDispatcherDecl m ver prefix @
         [Add ''{\<newline>'', Indent 2, Add (clsName @ '' *delegate = ('' @ clsName @ ''*) _delegate;\<newline>'')] @
         (if \<not> isVoid (me_retType m) then
            [Add (makeDecl (me_retType m) ''rval'' [] @ '';\<newline>\<newline>''), Add ''if(comp->result) {\<newline>'', Indent 2,
             Add ''bool suc;\<newline>''] @
            genDeserialiseInto (me_retType m) ''suc'' ''comp->result'' ''rval'' False @
            [Add ''if (!suc) {\<newline>'', Indent 2,
             Add ''comp->err.errcode = WSRPCError::kLocalDeserialisationFailure;\<newline>'',
             Add ''comp->err.errmsg = \"Local deserialisation failure.\";\<newline>'', Indent (-2), Add ''}\<newline>'',
             Indent (-2), Add ''}\<newline>'']
          else []) @
         [Add (''delegate->'' @ implFunName m ver @ ''_didReply(&comp->err'')] @
         (if \<not> isVoid (me_retType m) then [Cadd '', rval''] else []) @
         [Cadd '');\<newline>'', Indent (-2), Add ''}\<newline>''])"

section \<open>Methods: the server side\<close>

definition genServerImplDecl :: "Method \<Rightarrow> int \<Rightarrow> out_op list" where
  "genServerImplDecl m ver =
     [Add (''virtual bool '' @ implFunName m ver @ ''(''), Cadd ''WSRPCReq * req''] @
     (if \<not> isVoid (me_retType m) then [Cadd ('', '' @ makeDecl (me_retType m) ''*rval'' [])] else []) @
     arg_ops makeSvcArg (me_args m) @ [Cadd '') = 0;\<newline>'']"

definition genServerImplCase :: "Method \<Rightarrow> int \<Rightarrow> out_op list" where
  "genServerImplCase m ver =
     [Add (''if (req->method_name ==  \"'' @ implFunName m ver @ ''\") {\<newline>''), Indent 2] @
     concat (map (\<lambda>a. [Add (''const ucl_object_t * '' @ d_id a @ ''_obj;\<newline>''),
                       Add (makeDecl (d_type a) (d_id a) [] @ '';\<newline>'')]) (me_args m)) @
     (if \<not> isVoid (me_retType m) then [Add (makeDecl (me_retType m) ''rval'' [] @ '';\<newline>'')] else []) @
     concat (map (\<lambda>a.
       [Add (''if (!('' @ d_id a @ ''_obj = ucl_object_lookup(req->params, \"'' @ d_id a @ ''\"))) {\<newline>''),
        Add ''  req->err = WSRPCError::invalidParams();\<newline>'', Add ''  goto end;\<newline>'', Add ''}\<newline>''] @
       genDeserialiseInto (d_type a) ''succeeded'' (d_id a @ ''_obj'') (''&'' @ d_id a) True @
       [Add ''if (!succeeded) {\<newline>'', Add ''  req->err = WSRPCError::invalidParams();\<newline>'', Add ''  goto end;\<newline>'',
        Add ''}\<newline>\<newline>'']) (me_args m)) @
     [Add (''succeeded = vt->'' @ implFunName m ver @ ''(''), Cadd ''req''] @
     (if \<not> isVoid (me_retType m) then [Cadd '', &rval''] else []) @
     map (\<lambda>a. Cadd ('', std::move('' @ d_id a @ '')'')) (me_args m) @
     [Cadd '');\<newline>''] @
     (if \<not> isVoid (me_retType m) then
        [Add ''if (succeeded && !(req->result)) {\<newline>''] @
        genSerialiseInto (me_retType m) ''rval'' ''req->result'' @
        [Add ''}\<newline>'']
      else []) @
     [Add ''goto end;\<newline>'', Indent (-2), Add ''}\<newline>\<newline>'']"

section \<open>Versions and programs\<close>

definition genClientCallDecls :: "Version \<Rightarrow> string \<Rightarrow> out_op list" where
  "genClientCallDecls v clsName =
     concat (map (\<lambda>m. [Cadd ''static''] @ genClientCallDecl m (ver_num v) [] @ [Cadd '';\<newline>'', Cadd ''static''] @
       genClientCallAsynchDecl m (ver_num v) clsName [] @ [Cadd '';\<newline>\<newline>'']) (v_methods v))"

definition genClientCallImpls :: "Version \<Rightarrow> string \<Rightarrow> out_op list" where
  "genClientCallImpls v prefix =
     concat (map (\<lambda>m. genClientCallImpl m (ver_num v) prefix @ genClientCallAsynchImpl m (ver_num v) prefix) (v_methods v))"

definition genClientDelegateDecls :: "Version \<Rightarrow> out_op list" where
  "genClientDelegateDecls v =
     concat (map (\<lambda>m. [Cadd ''virtual''] @ genClientDelegateDecl m (ver_num v) [] @ [Cadd '';\<newline>'', Cadd ''static''] @
       genClientDelegateDispatcherDecl m (ver_num v) [] @ [Cadd '';\<newline>'']) (v_methods v))"

definition genClientDelegateImpls :: "Version \<Rightarrow> string \<Rightarrow> out_op list" where
  "genClientDelegateImpls v prefix =
     concat (map (\<lambda>m. genClientDelegateImpl m (ver_num v) prefix @ genClientDelegateDispatcherImpl m (ver_num v) prefix) (v_methods v))"

definition genServerImplDecls :: "Version \<Rightarrow> out_op list" where
  "genServerImplDecls v = concat (map (\<lambda>m. genServerImplDecl m (ver_num v)) (v_methods v))"

definition genServerImplCases :: "Version \<Rightarrow> out_op list" where
  "genServerImplCases v =
     concat (map (\<lambda>m. genServerImplCase m (ver_num v)) (v_methods v)) @
     [Add ''else {\<newline>'', Add ''return -1;\<newline>'', Add ''}\<newline>'']"

definition className :: "Program \<Rightarrow> string" where
  "className p = map (\<lambda>c. if c = CHR ''.'' then CHR ''_'' else c) (p_name p)"

definition program_genDef :: "Program \<Rightarrow> out_op list" where
  "program_genDef p =
     [Add ''#pragma once\<newline>'', Add (''struct '' @ className p @ ''VTable : public WSRPCVTable {\<newline>''), Indent 2] @
     concat (map genDef (p_types p)) @
     [Add ''static int handleReq(WSRPCReq * req, WSRPCVTable * baseVt);\<newline>''] @
     concat (map genServerImplDecls (p_versions p)) @
     concat (map (\<lambda>t. genDeserDecl [] (td_name t) False [] @ [Cadd '';\<newline>'']) (p_types p)) @
     [Indent (-2), Add ''};\<newline>\<newline>'',
      Add (''class '' @ className p @ ''Delegate\<newline>''), Add ''{\<newline>'', Add '' public:\<newline>'', Indent 2] @
     concat (map genClientDelegateDecls (p_versions p)) @
     [Indent (-2), Add ''};\<newline>\<newline>'',
      Add (''class '' @ className p @ ''Clnt \<newline>''), Add ''{\<newline>'', Add '' public:\<newline>'', Indent 2] @
     concat (map (\<lambda>v. genClientCallDecls v (className p)) (p_versions p)) @
     [Indent (-2), Add ''};\<newline>\<newline>'']"

definition program_genSerialise :: "Program \<Rightarrow> out_op list" where
  "program_genSerialise p = concat (map (def_genSerialise (p_name p @ ''::'')) (p_types p))"

definition program_genServer :: "Program \<Rightarrow> out_op list" where
  "program_genServer p =
     [Add (''int '' @ className p @ ''VTable::handleReq(WSRPCReq * req, WSRPCVTable * baseVt)\<newline>{\<newline>''), Indent 2,
      Add ''bool succeeded = false;\<newline>'',
      Add (className p @ ''VTable * vt = static_cast<'' @ className p @ ''VTable *>(baseVt);\<newline>'')] @
     concat (map genServerImplCases (p_versions p)) @
     [Add ''end:\<newline>'', Add ''if (!succeeded)\<newline>'', Add ''  return 1;\<newline>'', Add ''return 0;'', Indent (-2), Add ''}\<newline>\<newline>'']"

definition program_genClient :: "Program \<Rightarrow> out_op list" where
  "program_genClient p =
     concat (map (\<lambda>v. genClientCallImpls v (className p @ ''Clnt::'')) (p_versions p)) @
     concat (map (\<lambda>v. genClientDelegateImpls v (className p @ ''Delegate::'')) (p_versions p))"

section \<open>Units\<close>

definition short_name :: "string \<Rightarrow> string" where
  "short_name nm = rev (takeWhile (\<lambda>c. c \<noteq> CHR ''/'') (rev nm))"

definition hdrName :: "trlunit \<Rightarrow> string" where
  "hdrName u = butlast (short_name (u_name u)) @ ''hh''"

definition import_ops :: "trlunit \<Rightarrow> out_op list" where
  "import_ops u = map (\<lambda>i. Add (''#include \"'' @ hdrName i @ ''\"\<newline>'')) (u_imports u)"

definition genHeader :: "trlunit \<Rightarrow> out_op list" where
  "genHeader u =
     [Add ''#pragma once\<newline>'', Add (u_code u), Add ''#include \"eci/WSRPC.hh\"\<newline>''] @ import_ops u @
     concat (map genDef (u_types u)) @ concat (map program_genDef (u_programs u))"

definition unit_genSerialise :: "trlunit \<Rightarrow> out_op list" where
  "unit_genSerialise u =
     import_ops u @ concat (map (def_genSerialise []) (u_types u)) @ concat (map program_genSerialise (u_programs u))"

definition unit_genServer :: "trlunit \<Rightarrow> out_op list" where
  "unit_genServer u = import_ops u @ concat (map program_genServer (u_programs u))"

definition unit_genClient :: "trlunit \<Rightarrow> out_op list" where
  "unit_genClient u = import_ops u @ concat (map program_genClient (u_programs u))"

section \<open>The command\<close>

text \<open>
  \<open>main\<close>, for the results of \<open>getopt\<close> and the operands left after the options: the files written, with
  their texts. \<open>parse\<close> is \<open>MVST_Parser::parseFile\<close>, which the theory \<^verbatim>\<open>Idl_Parser\<close> models.
  \<open>writeTo\<close> empties the stream. \<open>Inl\<close> is the exit code of an unknown option, or \<open>None\<close> for \<open>abort\<close> and for
  the assertion.
\<close>

record gen_options =
  go_svc :: bool
  go_clnt :: bool
  go_head :: bool
  go_ser :: bool
  go_outName :: string
  go_includes :: "string list"

fun gen_getopt :: "(char \<times> string) list \<Rightarrow> gen_options \<Rightarrow> int option + gen_options" where
  "gen_getopt [] o' = Inr o'"
| "gen_getopt ((c, optarg) # opts) o' =
     (if c = CHR ''s'' then gen_getopt opts (o'\<lparr>go_svc := True\<rparr>)
      else if c = CHR ''c'' then gen_getopt opts (o'\<lparr>go_clnt := True\<rparr>)
      else if c = CHR ''h'' then gen_getopt opts (o'\<lparr>go_head := True\<rparr>)
      else if c = CHR ''x'' then gen_getopt opts (o'\<lparr>go_ser := True\<rparr>)
      else if c = CHR ''o'' then gen_getopt opts (o'\<lparr>go_outName := optarg\<rparr>)
      else if c = CHR ''I'' then gen_getopt opts (o'\<lparr>go_includes := go_includes o' @ [optarg]\<rparr>)
      else if c = CHR ''?'' then Inl (Some 1)
      else Inl None)"

definition writeTo :: "string \<Rightarrow> OutStream \<times> (string \<times> string) list \<Rightarrow> OutStream \<times> (string \<times> string) list" where
  "writeTo fileName s = ((fst s)\<lparr>os_txt := []\<rparr>, snd s @ [(fileName, os_txt (fst s))])"

text \<open>One of the four blocks of \<open>main\<close>, guarded by its option.\<close>

definition gen_file ::
  "bool \<Rightarrow> out_op list \<Rightarrow> string \<Rightarrow> OutStream \<times> (string \<times> string) list \<Rightarrow> OutStream \<times> (string \<times> string) list" where
  "gen_file asked ops fileName s = (if asked then writeTo fileName (exec ops (fst s), snd s) else s)"

definition gen_main ::
  "(string \<Rightarrow> string list \<Rightarrow> trlunit) \<Rightarrow> (char \<times> string) list \<Rightarrow> string list \<Rightarrow> int option + (string \<times> string) list" where
  "gen_main parse opts operands =
     (case gen_getopt opts \<lparr>go_svc = False, go_clnt = False, go_head = False, go_ser = False,
                            go_outName = ''rpc'', go_includes = []\<rparr> of
        Inl ex \<Rightarrow> Inl ex
      | Inr o' \<Rightarrow>
          if length operands \<noteq> 1 then Inl None else
          (let res = synth_unit (parse (hd operands) (go_includes o'));
               outName = go_outName o';
               incl = Add (''#include \"'' @ short_name outName @ ''.hh\"\<newline>'');
               s1 = gen_file (go_head o') (genHeader res) (outName @ ''.hh'') (\<lparr>os_txt = [], depth = 0\<rparr>, []);
               s2 = gen_file (go_ser o') ([Add ''#include <cassert>\<newline>'', incl, Add (u_code res)] @ unit_genSerialise res)
                      (outName @ ''_conv.cc'') s1;
               s3 = gen_file (go_svc o') ([incl, Add (u_code res)] @ unit_genServer res) (outName @ ''_svc.cc'') s2;
               s4 = gen_file (go_clnt o') ([incl, Add (u_code res)] @ unit_genClient res) (outName @ ''_clnt.cc'') s3
           in Inr (snd s4)))"

end
