(* ===== verification/Wsrpcgen_Props.thy ===== *)
theory Wsrpcgen_Props
  imports Wsrpcgen
begin

text \<open>
  The properties of the stub generator: the code it writes is well bracketed and every function
  leaves the indentation as it found it, client and server agree on the names of methods and
  members, and what several versions of a program do to the generated dispatcher.
\<close>

section \<open>Brackets\<close>

text \<open>The level of nesting after a text that starts at level \<open>n\<close>; \<open>None\<close> if a brace is closed that is not open.\<close>

fun brk :: "nat \<Rightarrow> string \<Rightarrow> nat option" where
  "brk n [] = Some n"
| "brk n (c # cs) =
     (if c = CHR ''{'' then brk (Suc n) cs
      else if c = CHR ''}'' then (case n of 0 \<Rightarrow> None | Suc k \<Rightarrow> brk k cs)
      else brk n cs)"

fun op_text :: "out_op \<Rightarrow> string" where
  "op_text (Add s) = s"
| "op_text (Cadd s) = s"
| "op_text (Indent k) = []"

fun op_indent :: "out_op \<Rightarrow> int" where
  "op_indent (Indent k) = k"
| "op_indent (Add s) = 0"
| "op_indent (Cadd s) = 0"

fun ops_brk :: "nat \<Rightarrow> out_op list \<Rightarrow> nat option" where
  "ops_brk n [] = Some n"
| "ops_brk n (x # xs) = (case brk n (op_text x) of None \<Rightarrow> None | Some k \<Rightarrow> ops_brk k xs)"

definition ops_depth :: "out_op list \<Rightarrow> int" where
  "ops_depth ops = sum_list (map op_indent ops)"

definition bal :: "out_op list \<Rightarrow> bool" where
  "bal ops \<longleftrightarrow> (\<forall>n. ops_brk n ops = Some n) \<and> ops_depth ops = 0"

definition clean :: "string \<Rightarrow> bool" where
  "clean s \<longleftrightarrow> (\<forall>c \<in> set s. c \<noteq> CHR ''{'' \<and> c \<noteq> CHR ''}'')"

lemma clean_simps [simp]:
  "clean []" "clean (c # cs) \<longleftrightarrow> c \<noteq> CHR ''{'' \<and> c \<noteq> CHR ''}'' \<and> clean cs"
  "clean (a @ b) \<longleftrightarrow> clean a \<and> clean b"
  by (auto simp: clean_def)

lemma clean_take: "clean s \<Longrightarrow> clean (take n s)"
  by (auto simp: clean_def dest: in_set_takeD)

lemma clean_map: "(\<And>c. c \<noteq> CHR ''{'' \<Longrightarrow> c \<noteq> CHR ''}'' \<Longrightarrow> f c \<noteq> CHR ''{'' \<and> f c \<noteq> CHR ''}'') \<Longrightarrow> clean s \<Longrightarrow> clean (map f s)"
  by (auto simp: clean_def)

lemma brk_append: "brk n (s @ t) = (case brk n s of None \<Rightarrow> None | Some k \<Rightarrow> brk k t)"
  by (induction s arbitrary: n) (auto split: nat.split)

lemma brk_clean: "clean s \<Longrightarrow> brk n s = Some n"
  by (induction s) auto

lemma ops_brk_append: "ops_brk n (xs @ ys) = (case ops_brk n xs of None \<Rightarrow> None | Some k \<Rightarrow> ops_brk k ys)"
  by (induction xs arbitrary: n) (auto split: option.split)

lemma ops_depth_simps [simp]:
  "ops_depth [] = 0" "ops_depth (x # xs) = op_indent x + ops_depth xs"
  "ops_depth (xs @ ys) = ops_depth xs + ops_depth ys"
  by (simp_all add: ops_depth_def)

lemma balI: "(\<And>n. ops_brk n ops = Some n) \<Longrightarrow> ops_depth ops = 0 \<Longrightarrow> bal ops"
  by (simp add: bal_def)

lemma balD [simp]: "bal ops \<Longrightarrow> ops_brk n ops = Some n" "bal ops \<Longrightarrow> ops_depth ops = 0"
  by (simp_all add: bal_def)

lemma bal_Nil [simp]: "bal []"
  by (simp add: bal_def)

lemma bal_append [simp]: "bal xs \<Longrightarrow> bal ys \<Longrightarrow> bal (xs @ ys)"
  by (rule balI) (simp_all add: ops_brk_append)

lemma bal_concat: "(\<And>x. x \<in> set xs \<Longrightarrow> bal (f x)) \<Longrightarrow> bal (concat (map f xs))"
  by (induction xs) simp_all

lemma bal_map: "(\<And>x. x \<in> set xs \<Longrightarrow> clean (f x)) \<Longrightarrow> bal (map (\<lambda>x. Add (f x)) xs)"
proof (induction xs)
  case (Cons x xs)
  then show ?case by (intro balI) (simp_all add: brk_clean)
qed simp

lemma bal_map_cadd: "(\<And>x. x \<in> set xs \<Longrightarrow> clean (f x)) \<Longrightarrow> bal (map (\<lambda>x. Cadd (f x)) xs)"
proof (induction xs)
  case (Cons x xs)
  then show ?case by (intro balI) (simp_all add: brk_clean)
qed simp

text \<open>What executing the calls does to the stream.\<close>

lemma brk_spaces: "brk n (replicate k CHR '' '') = Some n"
  by (induction k) auto

lemma exec_simps [simp]: "exec [] os = os" "exec (x # xs) os = exec xs (exec_op x os)"
  by (simp_all add: exec_def)

lemma exec_depth: "depth (exec ops os) = depth os + ops_depth ops"
proof (induction ops arbitrary: os)
  case (Cons x ops)
  then show ?case by (cases x) simp_all
qed simp

lemma exec_brk:
  "brk n (os_txt (exec ops os)) = (case brk n (os_txt os) of None \<Rightarrow> None | Some k \<Rightarrow> ops_brk k ops)"
proof (induction ops arbitrary: os)
  case Nil
  then show ?case by (simp split: option.split)
next
  case (Cons x ops)
  show ?case
    by (cases x) (simp_all add: Cons brk_append brk_spaces split: option.split)
qed

section \<open>Clean syntax trees\<close>

text \<open>No name of the tree has a brace in it. (The lexer's identifiers have none.)\<close>

definition clean_ref :: "TypeRef \<Rightarrow> bool" where
  "clean_ref tr \<longleftrightarrow> clean (t_type tr) \<and> (case t_def tr of None \<Rightarrow> True | Some p \<Rightarrow> clean p)"

definition clean_decl :: "Decl \<Rightarrow> bool" where
  "clean_decl d \<longleftrightarrow> clean_ref (d_type d) \<and> clean (d_id d)"

definition clean_entry :: "Entry \<Rightarrow> bool" where
  "clean_entry en \<longleftrightarrow> clean (en_id en) \<and> clean (en_str en) \<and> clean (en_iVal en)"

fun clean_typedef :: "TypeDef \<Rightarrow> bool" where
  "clean_typedef (StructDef nm types decls) \<longleftrightarrow> clean nm \<and> list_all clean_typedef types \<and> list_all clean_decl decls"
| "clean_typedef (UnionDef nm types enumType cases) \<longleftrightarrow>
     clean nm \<and> list_all clean_typedef types \<and> clean_ref enumType \<and> list_all (\<lambda>(c, ds). clean c \<and> list_all clean_decl ds) cases"
| "clean_typedef (EnumDef nm entries) \<longleftrightarrow> clean nm \<and> list_all clean_entry entries"

definition clean_method :: "Method \<Rightarrow> bool" where
  "clean_method m \<longleftrightarrow> clean_ref (me_retType m) \<and> clean (me_name m) \<and> list_all clean_decl (me_args m)"

definition clean_version :: "Version \<Rightarrow> bool" where
  "clean_version v \<longleftrightarrow> list_all clean_method (v_methods v)"

definition clean_program :: "Program \<Rightarrow> bool" where
  "clean_program p \<longleftrightarrow> clean (p_name p) \<and> list_all clean_typedef (p_types p) \<and> list_all clean_version (p_versions p)"

fun clean_unit :: "trlunit \<Rightarrow> bool" where
  "clean_unit (TrlUnit nm code imports types programs) \<longleftrightarrow>
     clean nm \<and> (\<forall>n. brk n code = Some n) \<and> list_all clean_unit imports \<and> list_all clean_typedef types \<and>
     list_all clean_program programs"

section \<open>Every generator is balanced\<close>

lemmas op_simps = brk_append brk_clean ops_brk_append

lemma clean_show_nat: "clean (show_nat n)"
proof (induction n rule: show_nat.induct)
  case (1 n)
  have digit: "clean [digit_char k]" if "k < 10" for k
  proof -
    have "digit_char k \<in> set ''0123456789''"
      unfolding digit_char_def by (rule nth_mem) (use that in simp)
    then show ?thesis by auto
  qed
  show ?case using 1 digit [of n] digit [of "n mod 10"]
    by (subst show_nat.simps) (auto simp del: clean_simps(2))
qed

lemma clean_show_int [simp]: "clean (show_int i)"
  by (simp add: show_int_def clean_show_nat)

lemma clean_names [simp]:
  "clean s \<Longrightarrow> clean (quote s)"
  "clean_ref tr \<Longrightarrow> clean (t_type tr)"
  "clean_ref tr \<Longrightarrow> clean (canonicalName tr)"
  "clean_ref tr \<Longrightarrow> clean a \<Longrightarrow> clean b \<Longrightarrow> clean (makeDecl tr a b)"
  "clean_ref tr \<Longrightarrow> clean a \<Longrightarrow> clean (makeArg tr a)"
  "clean_ref tr \<Longrightarrow> clean a \<Longrightarrow> clean (makeSvcArg tr a)"
  by (auto simp: quote_def clean_ref_def canonicalName_def makeDecl_def makeArg_def makeSvcArg_def intro!: clean_map split: if_splits)

lemma bal_genSerialiseInto [simp]:
  assumes "clean_ref tr" "clean inn" "clean out"
  shows "bal (genSerialiseInto tr inn out)"
  using assms by (intro balI) (simp_all add: genSerialiseInto_def Let_def op_simps split: option.split)

lemma bal_genDeserialiseInto [simp]:
  assumes "clean_ref tr" "clean suc" "clean uIn" "clean out"
  shows "bal (genDeserialiseInto tr suc uIn out b)"
proof (cases "t_def tr")
  case None
  with assms show ?thesis
    by (intro balI) (simp_all add: genDeserialiseInto_def Let_def op_simps)
next
  case (Some p)
  then have "clean p" using assms(1) by (simp add: clean_ref_def)
  with Some assms show ?thesis
    by (intro balI) (simp_all add: genDeserialiseInto_def Let_def op_simps)
qed

lemma bal_decls [simp]:
  "bal (genSerDecl p False [])" "clean p \<Longrightarrow> bal (genSerDecl p True [])"
  "clean nm \<Longrightarrow> bal (genDeserDecl p nm False [])" "clean nm \<Longrightarrow> bal (genDeserDecl p nm False ''static '')"
  "clean p \<Longrightarrow> clean nm \<Longrightarrow> bal (genDeserDecl p nm True [])"
  by (rule balI; simp add: genSerDecl_def genDeserDecl_def op_simps)+

lemma clean_declD [simp]: "clean_decl d \<Longrightarrow> clean_ref (d_type d)" "clean_decl d \<Longrightarrow> clean (d_id d)"
  by (simp_all add: clean_decl_def)

lemma clean_entryD [simp]: "clean_entry en \<Longrightarrow> clean (en_id en)" "clean_entry en \<Longrightarrow> clean (en_str en)" "clean_entry en \<Longrightarrow> clean (en_iVal en)"
  by (simp_all add: clean_entry_def)

lemma bal_member_decls [simp]: "list_all clean_decl decls \<Longrightarrow> bal (member_decls decls)"
  unfolding member_decls_def by (rule bal_map) (auto simp: list_all_iff)

lemma bal_decl_lists [simp]:
  assumes "list_all clean_decl decls"
  shows "clean a \<Longrightarrow> clean b \<Longrightarrow> bal (map (\<lambda>d. Add (a @ d_id d @ b)) decls)"
    and "clean a \<Longrightarrow> bal (concat (map (\<lambda>d. genSerialiseInto (d_type d) (d_id d) (a @ d_id d)) decls))"
  using assms by (auto simp: list_all_iff intro!: bal_map bal_concat)

text \<open>The bracketed bodies of the generated functions.\<close>

lemma bal_block:
  assumes "bal body" "\<And>n. brk n a = Some (Suc n)" "\<And>n. brk (Suc n) b = Some n"
  shows "bal (Add a # Indent k # body @ [Indent (- k), Add b])"
  using assms by (intro balI) (simp_all add: op_simps)

lemma bal_add [simp]: "clean a \<Longrightarrow> bal xs \<Longrightarrow> bal (Add a # xs)" "clean a \<Longrightarrow> bal xs \<Longrightarrow> bal (Cadd a # xs)"
  by (auto intro!: balI simp: op_simps)

lemma bal_struct_genDef [simp]:
  assumes "bal nested" "clean nm" "list_all clean_decl decls"
  shows "bal (struct_genDef nested nm decls)"
  using assms by (intro balI) (simp_all add: struct_genDef_def op_simps)

lemma bal_union_genDef [simp]:
  assumes "bal nested" "clean nm" "clean_ref enumType" "list_all (\<lambda>(c, ds). clean c \<and> list_all clean_decl ds) cases"
  shows "bal (union_genDef nested nm enumType cases)"
proof -
  have "bal (concat (map (\<lambda>(c, decls).
       [Add (''struct '' @ c @ ''{\<newline>''), Indent 2] @ member_decls decls @ [Indent (-2), Add ''};\<newline>\<newline>'']) cases))"
    using assms(4) by (auto simp: list_all_iff op_simps intro!: bal_concat bal_block split: prod.splits)
  with assms show ?thesis by (intro balI) (simp_all add: union_genDef_def op_simps)
qed

lemma bal_enum_genDef [simp]:
  assumes "clean nm" "list_all clean_entry entries"
  shows "bal (enum_genDef nm entries)"
proof -
  have "bal (map (\<lambda>en. Add (en_id en @ (if en_iVal en \<noteq> [] then '' = '' @ en_iVal en else []) @ '',\<newline>'')) entries)"
    "bal (map (\<lambda>en. Add (''static const char * '' @ en_id en @ ''PSz;\<newline>'')) entries)"
    using assms(2) by (auto simp: list_all_iff intro!: bal_map)
  with assms(1) show ?thesis by (intro balI) (simp_all add: enum_genDef_def op_simps)
qed

lemma bal_genDef [simp]: "clean_typedef t \<Longrightarrow> bal (genDef t)"
  by (induction t rule: genDef.induct) (auto simp: list_all_iff intro!: bal_struct_genDef bal_union_genDef bal_concat)

lemma bal_entry_chain [simp]:
  assumes "\<And>en. en \<in> set entries \<Longrightarrow> clean (fst (f en)) \<and> clean (snd (f en))"
  shows "bal (entry_chain f entries)"
  unfolding entry_chain_def
proof (rule bal_concat)
  fix x assume "x \<in> set (enumerate 0 entries)"
  then have "snd x \<in> set entries" by (metis enumerate_eq_zip snd_conv set_zip_rightD prod.collapse)
  with assms show "bal ((\<lambda>(i, en). [Add (if i = 0 then ''if'' else ''else if''), Add (fst (f en)), Add (snd (f en))]) x)"
    by (auto split: prod.split)
qed

lemma bal_struct_genSerImpl [simp]:
  assumes "bal nested" "clean prefix" "list_all clean_decl decls"
  shows "bal (struct_genSerImpl nested prefix decls)"
proof -
  have "bal (map (\<lambda>d. Add (''ucl_object_insert_key(out, u'' @ d_id d @ '', '' @ quote (d_id d) @ '', 0, false);\<newline>'')) decls)"
    "bal (map (\<lambda>d. Add (''ucl_object_t * u'' @ d_id d @ '';\<newline>'')) decls)"
    "bal (concat (map (\<lambda>d. genSerialiseInto (d_type d) (d_id d) (''u'' @ d_id d)) decls))"
    using assms(3) by (auto simp: list_all_iff intro!: bal_map bal_concat)
  with assms show ?thesis by (intro balI) (simp_all add: struct_genSerImpl_def op_simps)
qed

lemma bal_union_genSerImpl [simp]: "bal nested \<Longrightarrow> clean prefix \<Longrightarrow> bal (union_genSerImpl nested prefix)"
  by (intro balI) (simp_all add: union_genSerImpl_def op_simps)

lemma bal_enum_genSerImpl [simp]:
  assumes "clean prefix" "list_all clean_entry entries"
  shows "bal (enum_genSerImpl prefix entries)"
proof -
  have "bal (map (\<lambda>en. Add (''const char * '' @ prefix @ en_id en @ ''PSz = '' @
         (if en_str en \<noteq> [] then en_str en else ''\"'' @ en_id en @ ''\"'') @ '';\<newline>'')) entries)"
    "bal (entry_chain (\<lambda>en. (''(value =='' @ en_id en @ '')\<newline>'', ''  return '' @ en_id en @ ''PSz;\<newline>'')) entries)"
    using assms by (auto simp: list_all_iff intro!: bal_map bal_entry_chain)
  with assms(1) show ?thesis by (intro balI) (simp_all add: enum_genSerImpl_def op_simps)
qed

lemma bal_genSerImpl [simp]: "clean pp \<Longrightarrow> clean_typedef t \<Longrightarrow> bal (genSerImpl pp t)"
  by (induction pp t rule: genSerImpl.induct)
    (auto simp: list_all_iff Let_def intro!: bal_struct_genSerImpl bal_union_genSerImpl bal_enum_genSerImpl bal_concat)

lemma bal_struct_genDeserImpl [simp]:
  assumes "bal nested" "clean prefix" "clean nm" "list_all clean_decl decls"
  shows "bal (struct_genDeserImpl nested prefix nm decls)"
proof -
  have "bal (map (\<lambda>d. Add (''const ucl_object_t * u'' @ d_id d @ '';\<newline>'')) decls)"
    "bal (map (\<lambda>d. Add (''if (!(u'' @ d_id d @ '' = ucl_object_lookup(obj, '' @ quote (d_id d) @ ''))) return false;\<newline>'')) decls)"
    "bal (concat (map (\<lambda>d. [Add (''/* deserialise member '' @ d_id d @ '' */\<newline>'')] @
         genDeserialiseInto (d_type d) ''suc'' (''u'' @ d_id d) (''out->'' @ d_id d) False @
         [Add ''if (!suc) return false;\<newline>\<newline>'']) decls))"
    using assms(4) by (auto simp: list_all_iff intro!: bal_map bal_concat bal_add bal_append)
  with assms show ?thesis by (intro balI) (simp_all add: struct_genDeserImpl_def op_simps)
qed

lemma bal_union_genDeserImpl [simp]:
  assumes "bal nested" "clean prefix" "clean nm" "clean_ref enumType" "list_all (\<lambda>(c, ds). clean c \<and> list_all clean_decl ds) cases"
  shows "bal (union_genDeserImpl nested prefix nm enumType cases)"
proof -
  have "bal (concat (map (\<lambda>(i, c, decls).
         [Add (if i = 0 then [] else ''else\<newline>''),
          Cadd (''if (type =='' @ canonicalName enumType @ ''::'' @ c @ '') {\<newline>''),
          Indent 2, Indent (-2), Add ''}\<newline>'']) (enumerate 0 cases)))"
  proof (rule bal_concat)
    fix x assume "x \<in> set (enumerate 0 cases)"
    then have "snd x \<in> set cases" by (metis enumerate_eq_zip snd_conv set_zip_rightD prod.collapse)
    then have "clean (fst (snd x))" using assms(5) by (auto simp: list_all_iff case_prod_beta)
    then show "bal ((\<lambda>(i, c, decls).
         [Add (if i = 0 then [] else ''else\<newline>''),
          Cadd (''if (type =='' @ canonicalName enumType @ ''::'' @ c @ '') {\<newline>''),
          Indent 2, Indent (-2), Add ''}\<newline>'']) x)"
      using assms(4) by (intro balI) (auto simp: op_simps split: prod.split)
  qed
  with assms show ?thesis by (intro balI) (simp_all add: union_genDeserImpl_def op_simps)
qed

lemma bal_enum_genDeserImpl [simp]:
  assumes "clean pp" "clean nm" "list_all clean_entry entries"
  shows "bal (enum_genDeserImpl pp nm entries)"
proof -
  have "bal (entry_chain (\<lambda>en. (''(!strcmp(pSz, '' @ en_id en @ ''PSz))\<newline>'', ''  return '' @ en_id en @ '';\<newline>'')) entries)"
    using assms by (auto simp: list_all_iff intro!: bal_entry_chain)
  with assms(1,2) show ?thesis by (intro balI) (simp_all add: enum_genDeserImpl_def Let_def op_simps)
qed

lemma clean_td_name [simp]: "clean_typedef t \<Longrightarrow> clean (td_name t)"
  by (cases t) simp_all

lemma bal_genDeserImpl [simp]: "clean pp \<Longrightarrow> clean_typedef t \<Longrightarrow> bal (genDeserImpl pp t)"
  by (induction pp t rule: genDeserImpl.induct)
    (auto simp: list_all_iff Let_def intro!: bal_struct_genDeserImpl bal_union_genDeserImpl bal_enum_genDeserImpl
       bal_concat bal_add)

lemma bal_def_genSerialise [simp]: "clean pp \<Longrightarrow> clean_typedef t \<Longrightarrow> bal (def_genSerialise pp t)"
  by (simp add: def_genSerialise_def)

text \<open>Methods.\<close>

lemma clean_methodD [simp]:
  "clean_method m \<Longrightarrow> clean_ref (me_retType m)" "clean_method m \<Longrightarrow> list_all clean_decl (me_args m)"
  "clean_method m \<Longrightarrow> clean (me_name m)"
  by (simp_all add: clean_method_def)

lemma clean_implFunName [simp]: "clean_method m \<Longrightarrow> clean (implFunName m ver)"
  by (simp add: implFunName_def)

lemma bal_arg_ops [simp]:
  assumes "list_all clean_decl args" "\<And>tr a. clean_ref tr \<Longrightarrow> clean a \<Longrightarrow> clean (f tr a)"
  shows "bal (arg_ops f args)"
  unfolding arg_ops_def by (rule bal_concat) (use assms in \<open>auto simp: list_all_iff\<close>)

lemma bal_method_decls [simp]:
  assumes "clean_method m" "clean prefix"
  shows "bal (genClientCallDecl m ver prefix)"
    and "clean cls \<Longrightarrow> bal (genClientCallAsynchDecl m ver cls prefix)"
    and "bal (genClientDelegateDecl m ver prefix)"
    and "bal (genClientDelegateDispatcherDecl m ver prefix)"
    and "bal (genServerImplDecl m ver)"
  using assms
  by (simp_all add: genClientCallDecl_def genClientCallAsynchDecl_def genClientDelegateDecl_def
      genClientDelegateDispatcherDecl_def genServerImplDecl_def)

lemma bal_genClientCallCommonPartImpl [simp]:
  assumes "clean_method m"
  shows "bal (genClientCallCommonPartImpl m)"
proof -
  have "bal (map (\<lambda>a. Add (''ucl_object_t * u'' @ d_id a @ '';\<newline>'')) (me_args m))"
    "bal (concat (map (\<lambda>a. genSerialiseInto (d_type a) (d_id a) (''u'' @ d_id a)) (me_args m)))"
    "bal (map (\<lambda>a. Add (''ucl_object_insert_key(params, u'' @ d_id a @ '', '' @ quote (d_id a) @ '', 0, false);\<newline>'')) (me_args m))"
    using clean_methodD(2) [OF assms] by (auto simp: list_all_iff intro!: bal_map bal_concat)
  then show ?thesis by (simp add: genClientCallCommonPartImpl_def)
qed

lemma bal_client_impls [simp]:
  assumes "clean_method m" "clean prefix"
  shows "bal (genClientCallImpl m ver prefix)"
    and "bal (genClientCallAsynchImpl m ver prefix)"
    and "bal (genClientDelegateImpl m ver prefix)"
    and "bal (genClientDelegateDispatcherImpl m ver prefix)"
proof -
  note defs = genClientCallImpl_def genClientCallAsynchImpl_def genClientDelegateImpl_def
    genClientDelegateDispatcherImpl_def Let_def
  show "bal (genClientCallImpl m ver prefix)" using assms by (intro balI) (simp_all add: defs op_simps)
  show "bal (genClientCallAsynchImpl m ver prefix)" using assms by (intro balI) (simp_all add: defs op_simps clean_take)
  show "bal (genClientDelegateImpl m ver prefix)" using assms by (intro balI) (simp_all add: defs op_simps)
  show "bal (genClientDelegateDispatcherImpl m ver prefix)"
    using assms by (intro balI) (simp_all add: defs op_simps clean_take)
qed

lemma bal_genServerImplCase [simp]:
  assumes "clean_method m"
  shows "bal (genServerImplCase m ver)"
proof -
  let ?arg = "\<lambda>a. [Add (''if (!('' @ d_id a @ ''_obj = ucl_object_lookup(req->params, \"'' @ d_id a @ ''\"))) {\<newline>''),
        Add ''  req->err = WSRPCError::invalidParams();\<newline>'', Add ''  goto end;\<newline>'', Add ''}\<newline>''] @
       genDeserialiseInto (d_type a) ''succeeded'' (d_id a @ ''_obj'') (''&'' @ d_id a) True @
       [Add ''if (!succeeded) {\<newline>'', Add ''  req->err = WSRPCError::invalidParams();\<newline>'', Add ''  goto end;\<newline>'',
        Add ''}\<newline>\<newline>'']"
  have arg: "bal (?arg a)" if "clean_decl a" for a
    using that by (intro balI) (simp_all add: op_simps)
  have "bal (concat (map ?arg (me_args m)))"
    "bal (concat (map (\<lambda>a. [Add (''const ucl_object_t * '' @ d_id a @ ''_obj;\<newline>''),
                       Add (makeDecl (d_type a) (d_id a) [] @ '';\<newline>'')]) (me_args m)))"
    "bal (map (\<lambda>a. Cadd ('', std::move('' @ d_id a @ '')'')) (me_args m))"
    using clean_methodD(2) [OF assms] arg
    by (auto simp: list_all_iff intro!: bal_map_cadd bal_concat bal_add simp del: append.simps)
  with assms show ?thesis by (intro balI) (simp_all add: genServerImplCase_def op_simps)
qed

text \<open>Versions, programs and units.\<close>

lemma bal_version [simp]:
  assumes "clean_version v" "clean prefix"
  shows "bal (genClientCallDecls v prefix)" "bal (genClientCallImpls v prefix)" "bal (genClientDelegateDecls v)"
    "bal (genClientDelegateImpls v prefix)" "bal (genServerImplDecls v)" "bal (genServerImplCases v)"
proof -
  have m: "clean_method m" if "m \<in> set (v_methods v)" for m
    using that assms(1) by (auto simp: clean_version_def list_all_iff)
  show "bal (genClientCallDecls v prefix)" "bal (genClientCallImpls v prefix)" "bal (genClientDelegateDecls v)"
    "bal (genClientDelegateImpls v prefix)" "bal (genServerImplDecls v)"
    unfolding genClientCallDecls_def genClientCallImpls_def genClientDelegateDecls_def genClientDelegateImpls_def
      genServerImplDecls_def
    using assms(2) m by (auto intro!: bal_concat bal_append bal_add)
  have "bal (concat (map (\<lambda>m. genServerImplCase m (ver_num v)) (v_methods v)))"
    using m by (auto intro!: bal_concat)
  then show "bal (genServerImplCases v)"
    by (intro balI) (simp_all add: genServerImplCases_def op_simps)
qed

lemma bal_version_plain [simp]:
  assumes "clean_version v"
  shows "bal (genClientDelegateDecls v)" "bal (genServerImplDecls v)" "bal (genServerImplCases v)"
  using bal_version [OF assms, of "[]"] by simp_all

lemma clean_className [simp]: "clean (p_name p) \<Longrightarrow> clean (className p)"
  unfolding className_def by (rule clean_map) (auto split: if_splits)

lemma clean_programD [simp]:
  "clean_program p \<Longrightarrow> clean (p_name p)"
  "clean_program p \<Longrightarrow> list_all clean_typedef (p_types p)" "clean_program p \<Longrightarrow> list_all clean_version (p_versions p)"
  by (simp_all add: clean_program_def)

lemma bal_concat_all:
  assumes "list_all P xs" "\<And>x. P x \<Longrightarrow> bal (f x)"
  shows "bal (concat (map f xs))"
  by (rule bal_concat) (use assms in \<open>auto simp: list_all_iff\<close>)

lemma bal_program [simp]:
  assumes "clean_program p"
  shows "bal (program_genDef p)" "bal (program_genSerialise p)" "bal (program_genServer p)" "bal (program_genClient p)"
proof -
  note types = bal_concat_all [OF clean_programD(2) [OF assms]]
  note versions = bal_concat_all [OF clean_programD(3) [OF assms]]
  have "bal (concat (map genDef (p_types p)))"
    "bal (concat (map (\<lambda>t. genDeserDecl [] (td_name t) False [] @ [Cadd '';\<newline>'']) (p_types p)))"
    "bal (concat (map genServerImplDecls (p_versions p)))" "bal (concat (map genClientDelegateDecls (p_versions p)))"
    "bal (concat (map (\<lambda>v. genClientCallDecls v (className p)) (p_versions p)))"
    "bal (concat (map genServerImplCases (p_versions p)))"
    using assms by (auto intro!: types versions bal_append bal_add)
  note parts = this
  from parts assms show "bal (program_genDef p)"
    by (intro balI) (simp_all add: program_genDef_def op_simps)
  from parts assms show "bal (program_genServer p)"
    by (intro balI) (simp_all add: program_genServer_def op_simps)
  have "bal (concat (map (\<lambda>v. genClientCallImpls v (className p @ ''Clnt::'')) (p_versions p)))"
    "bal (concat (map (\<lambda>v. genClientDelegateImpls v (className p @ ''Delegate::'')) (p_versions p)))"
    "bal (concat (map (def_genSerialise (p_name p @ ''::'')) (p_types p)))"
    by (rule versions types, use assms in simp)+
  then show "bal (program_genSerialise p)" "bal (program_genClient p)"
    by (simp_all add: program_genSerialise_def program_genClient_def)
qed

lemma clean_subset: "clean s \<Longrightarrow> set t \<subseteq> set s \<Longrightarrow> clean t"
  unfolding clean_def by blast

lemma clean_short_name: "clean s \<Longrightarrow> clean (short_name s)"
  by (erule clean_subset) (metis set_rev set_takeWhileD short_name_def subsetI)

lemma clean_hdrName: "clean_unit u \<Longrightarrow> clean (hdrName u)"
proof -
  assume "clean_unit u"
  then have "clean (short_name (u_name u))" by (cases u) (simp add: clean_short_name)
  then have "clean (butlast (short_name (u_name u)))" by (rule clean_subset) (meson in_set_butlastD subsetI)
  then show ?thesis by (simp add: hdrName_def)
qed

lemma bal_import_ops: "clean_unit u \<Longrightarrow> bal (import_ops u)"
  unfolding import_ops_def by (rule bal_map, cases u) (auto simp: list_all_iff clean_hdrName)

lemma bal_unit:
  assumes "clean_unit u"
  shows "bal (genHeader u)" "bal (unit_genSerialise u)" "bal (unit_genServer u)" "bal (unit_genClient u)"
proof -
  note import_bal = bal_import_ops [OF assms]
  from assms have types: "list_all clean_typedef (u_types u)" and programs: "list_all clean_program (u_programs u)"
    and code: "\<And>n. brk n (u_code u) = Some n" by (cases u; simp)+
  have "bal (concat (map genDef (u_types u)))" "bal (concat (map program_genDef (u_programs u)))"
    by (auto intro!: bal_concat_all [OF types] bal_concat_all [OF programs])
  with import_bal code show "bal (genHeader u)" by (intro balI) (simp_all add: genHeader_def op_simps)
  show "bal (unit_genSerialise u)" "bal (unit_genServer u)" "bal (unit_genClient u)"
    unfolding unit_genSerialise_def unit_genServer_def unit_genClient_def
    using import_bal by (auto intro!: bal_append bal_concat_all [OF types] bal_concat_all [OF programs])
qed

section \<open>Resolution keeps a tree clean\<close>

definition clean_found :: "found \<Rightarrow> bool" where
  "clean_found f \<longleftrightarrow> (case f of (t, fs, u) \<Rightarrow>
     clean_typedef t \<and> (\<forall>(nm, types) \<in> set fs. clean nm \<and> list_all clean_typedef types) \<and> clean_unit u)"

lemma clean_td_types: "clean_typedef t \<Longrightarrow> list_all clean_typedef (td_types t)"
  by (cases t) simp_all

lemma first_some_in: "first_some xs = Some x \<Longrightarrow> Some x \<in> set xs"
  by (induction xs rule: first_some.induct) auto

lemma find_list_all: "find P xs = Some x \<Longrightarrow> list_all Q xs \<Longrightarrow> Q x"
  by (auto simp: find_Some_iff list_all_iff)

lemma unit_lookup_clean:
  "clean_unit u \<Longrightarrow> unit_lookupIdentifier ident u = Some f \<Longrightarrow> clean_found f"
proof (induction ident u arbitrary: f rule: unit_lookupIdentifier.induct)
  case (1 ident nm code imps types programs)
  show ?case
  proof (cases "find (\<lambda>t. td_name t = ident) types")
    case None
    with 1 have "Some f \<in> set (map (unit_lookupIdentifier ident) imps)" by (auto dest: first_some_in)
    then obtain i where "i \<in> set imps" "unit_lookupIdentifier ident i = Some f" by auto
    with 1 None show ?thesis by (auto simp: list_all_iff)
  next
    case (Some t)
    with 1 show ?thesis by (auto simp: clean_found_def dest: find_list_all [where Q = clean_typedef])
  qed
qed

lemma lookup_clean:
  assumes "lookupIdentifier ident fs u = Some f" "clean_unit u"
    and "\<forall>(nm, types) \<in> set fs. clean nm \<and> list_all clean_typedef types"
  shows "clean_found f"
  using assms
proof (induction ident fs u rule: lookupIdentifier.induct)
  case (1 ident u)
  then show ?case using unit_lookup_clean by simp
next
  case (2 ident nm types fs u)
  then show ?case
    by (cases "find (\<lambda>t. td_name t = ident) types")
      (auto simp: clean_found_def dest: find_list_all [where Q = clean_typedef])
qed

lemma resolve_in_clean: "resolve_in ps f = Some f' \<Longrightarrow> clean_found f \<Longrightarrow> clean_found f'"
proof (induction ps f rule: resolve_in.induct)
  case (2 p ps t fs u)
  then obtain g where g: "lookupIdentifier p ((td_name t, td_types t) # fs) u = Some g" "resolve_in ps g = Some f'"
    by (auto split: option.splits)
  then have "clean_found g"
    using 2(3) by (intro lookup_clean [OF g(1)]) (auto simp: clean_found_def clean_td_types)
  with 2 g show ?case by auto
qed simp

lemma clean_prefix:
  "\<forall>(nm, types) \<in> set fs. clean nm \<and> list_all clean_typedef types \<Longrightarrow> clean (fullyQualifiedPrefix fs)"
  by (induction fs rule: fullyQualifiedPrefix.induct) auto

lemma clean_def_prefix: "clean_found f \<Longrightarrow> clean (def_prefix f)"
  by (auto simp: clean_found_def def_prefix_def clean_prefix)

lemma list_all_map_imp: "list_all P xs \<Longrightarrow> (\<And>x. P x \<Longrightarrow> Q (f x)) \<Longrightarrow> list_all Q (map f xs)"
  by (induction xs) auto

definition clean_scopes :: "scope_frame list \<Rightarrow> bool" where
  "clean_scopes fs \<longleftrightarrow> (\<forall>(nm, types) \<in> set fs. clean nm \<and> list_all clean_typedef types)"

lemma clean_scopes_simps [simp]:
  "clean_scopes []" "clean_scopes ((nm, types) # fs) \<longleftrightarrow> clean nm \<and> list_all clean_typedef types \<and> clean_scopes fs"
  by (simp_all add: clean_scopes_def)

lemma clean_synth_ref [simp]:
  assumes "clean_ref tr" "clean_scopes fs" "clean_unit u"
  shows "clean_ref (synth_ref fs u tr)"
proof (cases "resolve (t_type tr) fs u")
  case None
  with assms show ?thesis by (simp add: synth_ref_def clean_ref_def del: clean_names)
next
  case (Some f)
  then obtain p ps g where g: "lookupIdentifier p fs u = Some g" "resolve_in ps g = Some f"
    by (auto simp: resolve_def split: list.splits option.splits)
  have "clean_found g" using lookup_clean [OF g(1)] assms(2,3) by (simp add: clean_scopes_def)
  from resolve_in_clean [OF g(2) this] have "clean (def_prefix f)" by (rule clean_def_prefix)
  with assms Some show ?thesis by (simp add: synth_ref_def clean_ref_def del: clean_names)
qed

lemma clean_synth_decls [simp]:
  assumes "list_all clean_decl ds" "clean_scopes fs" "clean_unit u"
  shows "list_all clean_decl (map (synth_decl fs u) ds)"
  using assms(1) by (rule list_all_map_imp) (use assms(2,3) in \<open>simp add: synth_decl_def clean_decl_def del: clean_declD\<close>)

lemma clean_synth_cases:
  assumes "list_all (\<lambda>(c, ds). clean c \<and> list_all clean_decl ds) cases" "clean_scopes fs" "clean_unit u"
  shows "list_all (\<lambda>(c, ds). clean c \<and> list_all clean_decl ds) (map (\<lambda>(c, ds). (c, map (synth_decl fs u) ds)) cases)"
  using assms(1)
proof (rule list_all_map_imp)
  fix x :: "string \<times> Decl list"
  assume "case x of (c, ds) \<Rightarrow> clean c \<and> list_all clean_decl ds"
  then show "case (case x of (c, ds) \<Rightarrow> (c, map (synth_decl fs u) ds)) of (c, ds) \<Rightarrow> clean c \<and> list_all clean_decl ds"
    using clean_synth_decls [OF _ assms(2,3)] by (simp add: case_prod_beta)
qed

lemma clean_synth_def: "clean_typedef t \<Longrightarrow> clean_scopes fs \<Longrightarrow> clean_unit u \<Longrightarrow> clean_typedef (synth_def fs u t)"
proof (induction fs u t rule: synth_def.induct)
  case (1 fs u nm types decls)
  then have "list_all clean_typedef (map (synth_def ((nm, types) # fs) u) types)" by (auto simp: list_all_iff)
  with 1 show ?case by (simp add: Let_def)
next
  case (2 fs u nm types enumType cases)
  then have "list_all clean_typedef (map (synth_def ((nm, types) # fs) u) types)" by (auto simp: list_all_iff)
  with 2 show ?case using clean_synth_cases [of cases "(nm, types) # fs" u] by (simp add: Let_def)
qed simp

lemma clean_synth_version: "clean_version v \<Longrightarrow> clean_scopes fs \<Longrightarrow> clean_unit u \<Longrightarrow> clean_version (synth_version fs u v)"
  unfolding clean_version_def synth_version_def
  by (simp, erule list_all_map_imp) (simp add: synth_method_def clean_method_def del: clean_methodD)

lemma clean_synth_program: "clean_program p \<Longrightarrow> clean_unit u \<Longrightarrow> clean_program (synth_program u p)"
  unfolding clean_program_def synth_program_def Let_def
  by (auto intro!: list_all_map_imp [where P = clean_typedef] list_all_map_imp [where P = clean_version]
      clean_synth_def clean_synth_version)

lemma clean_synth_unit: "clean_unit u \<Longrightarrow> clean_unit (synth_unit u)"
proof (induction u rule: synth_unit.induct)
  case (1 nm code imps types programs)
  let ?u = "TrlUnit nm code imps types programs"
  have "list_all clean_unit (map synth_unit imps)" using 1 by (auto simp: list_all_iff)
  moreover have "list_all clean_typedef (map (synth_def [] ?u) types)"
    using 1(2) by (auto intro!: list_all_map_imp [where P = clean_typedef] clean_synth_def)
  moreover have "list_all clean_program (map (synth_program ?u) programs)"
    using 1(2) by (auto intro!: list_all_map_imp [where P = clean_program] clean_synth_program)
  ultimately show ?case using 1(2) by (simp add: Let_def)
qed

section \<open>The files written\<close>

fun last_arg :: "char \<Rightarrow> string \<Rightarrow> (char \<times> string) list \<Rightarrow> string" where
  "last_arg c d [] = d"
| "last_arg c d ((k, a) # opts) = last_arg c (if k = c then a else d) opts"

lemma clean_last_arg: "clean d \<Longrightarrow> \<forall>(k, a) \<in> set opts. clean a \<Longrightarrow> clean (last_arg c d opts)"
  by (induction c d opts rule: last_arg.induct) auto

lemma getopt_result:
  assumes "\<forall>(c, a) \<in> set opts. c \<in> set ''schxoI''"
  shows "gen_getopt opts o' = Inr
    \<lparr>go_svc = go_svc o' \<or> CHR ''s'' \<in> fst ` set opts, go_clnt = go_clnt o' \<or> CHR ''c'' \<in> fst ` set opts,
     go_head = go_head o' \<or> CHR ''h'' \<in> fst ` set opts, go_ser = go_ser o' \<or> CHR ''x'' \<in> fst ` set opts,
     go_outName = last_arg (CHR ''o'') (go_outName o') opts,
     go_includes = go_includes o' @ map snd (filter (\<lambda>p. fst p = CHR ''I'') opts)\<rparr>"
  using assms
proof (induction opts o' rule: gen_getopt.induct)
  case (1 o')
  then show ?case by simp
next
  case (2 c a opts o')
  then consider "c = CHR ''s''" | "c = CHR ''c''" | "c = CHR ''h''" | "c = CHR ''x''" | "c = CHR ''o''" | "c = CHR ''I''"
    by auto
  then show ?case by cases (use 2 in simp_all)
qed

text \<open>The files are written one after the other through one stream, which each leaves empty and unindented.\<close>

definition stream_ok :: "OutStream \<times> (string \<times> string) list \<Rightarrow> bool" where
  "stream_ok s \<longleftrightarrow> fst s = \<lparr>os_txt = [], depth = 0\<rparr> \<and> (\<forall>(nm, text) \<in> set (snd s). brk 0 text = Some 0)"

lemma stream_ok_file:
  assumes "stream_ok s" "bal ops"
  shows "stream_ok (gen_file asked ops file s)"
    "map fst (snd (gen_file asked ops file s)) = map fst (snd s) @ (if asked then [file] else [])"
  using assms exec_brk [of 0 ops "fst s"] exec_depth [of ops "fst s"]
  by (auto simp: stream_ok_def writeTo_def gen_file_def)

text \<open>C16: run with known options on one file, the generator writes exactly the files asked for, in the
  order header, serialisation, server, client, each named after the last \<open>-o\<close>; and if no name in the
  parsed unit has a brace in it and the text copied from it is well bracketed, so is every file written.\<close>

theorem generated_files:
  assumes "\<forall>(c, a) \<in> set opts. c \<in> set ''schxoI'' \<and> clean a"
    and "clean_unit (parse file (map snd (filter (\<lambda>p. fst p = CHR ''I'') opts)))"
  shows "\<exists>files. gen_main parse opts [file] = Inr files \<and>
    map fst files =
      (let out = last_arg (CHR ''o'') ''rpc'' opts; asked = (\<lambda>c. c \<in> fst ` set opts)
       in (if asked (CHR ''h'') then [out @ ''.hh''] else []) @ (if asked (CHR ''x'') then [out @ ''_conv.cc''] else []) @
          (if asked (CHR ''s'') then [out @ ''_svc.cc''] else []) @ (if asked (CHR ''c'') then [out @ ''_clnt.cc''] else [])) \<and>
    (\<forall>(nm, text) \<in> set files. brk 0 text = Some 0)"
proof -
  let ?u = "synth_unit (parse file (map snd (filter (\<lambda>p. fst p = CHR ''I'') opts)))"
  let ?out = "last_arg (CHR ''o'') ''rpc'' opts"
  have known: "\<forall>(c, a) \<in> set opts. c \<in> set ''schxoI''" using assms(1) by auto
  have u: "clean_unit ?u" using assms(2) by (rule clean_synth_unit)
  then have code: "brk n (u_code ?u) = Some n" for n by (cases ?u) simp
  have out: "clean (short_name ?out)" using assms(1) by (intro clean_short_name clean_last_arg) auto
  let ?incl = "Add (''#include \"'' @ short_name ?out @ ''.hh\"\<newline>'')"
  have incl: "bal ops \<Longrightarrow> bal ([?incl, Add (u_code ?u)] @ ops)"
    "bal ops \<Longrightarrow> bal ([Add ''#include <cassert>\<newline>'', ?incl, Add (u_code ?u)] @ ops)"
    for ops using out code by (auto intro!: balI simp: op_simps)
  define s1 where "s1 = gen_file (CHR ''h'' \<in> fst ` set opts) (genHeader ?u) (?out @ ''.hh'') (\<lparr>os_txt = [], depth = 0\<rparr>, [])"
  define s2 where "s2 = gen_file (CHR ''x'' \<in> fst ` set opts) ([Add ''#include <cassert>\<newline>'', ?incl, Add (u_code ?u)] @ unit_genSerialise ?u)
    (?out @ ''_conv.cc'') s1"
  define s3 where "s3 = gen_file (CHR ''s'' \<in> fst ` set opts) ([?incl, Add (u_code ?u)] @ unit_genServer ?u) (?out @ ''_svc.cc'') s2"
  define s4 where "s4 = gen_file (CHR ''c'' \<in> fst ` set opts) ([?incl, Add (u_code ?u)] @ unit_genClient ?u) (?out @ ''_clnt.cc'') s3"
  note s = s1_def s2_def s3_def s4_def
  have "stream_ok (\<lparr>os_txt = [], depth = 0\<rparr>, [])" by (simp add: stream_ok_def)
  note f1 = stream_ok_file [OF this bal_unit(1) [OF u], of "CHR ''h'' \<in> fst ` set opts" "?out @ ''.hh''", folded s1_def]
  note f2 = stream_ok_file [OF f1(1) incl(2) [OF bal_unit(2) [OF u]], of "CHR ''x'' \<in> fst ` set opts" "?out @ ''_conv.cc''", folded s2_def]
  note f3 = stream_ok_file [OF f2(1) incl(1) [OF bal_unit(3) [OF u]], of "CHR ''s'' \<in> fst ` set opts" "?out @ ''_svc.cc''", folded s3_def]
  note f4 = stream_ok_file [OF f3(1) incl(1) [OF bal_unit(4) [OF u]], of "CHR ''c'' \<in> fst ` set opts" "?out @ ''_clnt.cc''", folded s4_def]
  have "gen_main parse opts [file] = Inr (snd s4)"
    unfolding gen_main_def getopt_result [OF known] s by (simp add: Let_def)
  then show ?thesis
    using f4(1) by (intro exI [of _ "snd s4"]) (simp add: f1(2) f2(2) f3(2) f4(2) stream_ok_def Let_def)
qed

text \<open>An interface with a program of two versions.\<close>

definition void_ref :: TypeRef where
  "void_ref = \<lparr>t_list = False, byRef = False, svcByRRef = False, t_def = None, t_type = ''void''\<rparr>"

definition two_versions :: Program where
  "two_versions = \<lparr>p_name = ''eci.demo'', p_types = [EnumDef ''Kind'' [\<lparr>en_id = ''kA'', en_str = [], en_iVal = []\<rparr>]], p_num = 1,
     p_versions = [\<lparr>v_num = 1, v_name = ''V1'', v_methods = [\<lparr>me_retType = void_ref, me_name = ''stop'', me_args = []\<rparr>]\<rparr>,
                   \<lparr>v_num = 2, v_name = ''V2'', v_methods = [\<lparr>me_retType = void_ref, me_name = ''start'', me_args = []\<rparr>]\<rparr>]\<rparr>"

definition demo_unit :: trlunit where
  "demo_unit = TrlUnit ''dir/demo.x'' ''#include <list>'' [] [] [two_versions]"

theorem generated_files_witness:
  "\<exists>files. gen_main (\<lambda>f is. demo_unit) [(CHR ''s'', []), (CHR ''o'', ''gen/demo'')] [''dir/demo.x''] = Inr files \<and>
     map fst files = [''gen/demo_svc.cc''] \<and> (\<forall>(nm, text) \<in> set files. brk 0 text = Some 0)"
proof -
  have "clean_unit demo_unit"
    by (simp add: demo_unit_def two_versions_def void_ref_def clean_program_def clean_version_def clean_method_def
        clean_entry_def clean_ref_def del: clean_methodD clean_names clean_entryD clean_programD)
  then show ?thesis
    using generated_files [of "[(CHR ''s'', []), (CHR ''o'', ''gen/demo'')]" "\<lambda>f is. demo_unit" "''dir/demo.x''"]
    by simp
qed

section \<open>Names on the wire\<close>

lemma minus_not_shown: "CHR ''-'' # s \<noteq> show_nat n"
proof
  assume "CHR ''-'' # s = show_nat n"
  then have "CHR ''-'' \<in> set (show_nat n)" by (metis list.set_intros(1))
  with show_nat_digits [of n] show False by auto
qed

lemma show_int_inj: "show_int a = show_int b \<longleftrightarrow> a = b"
  using minus_not_shown minus_not_shown [symmetric] by (auto simp: show_int_def show_nat_inj)

lemma show_int_no_underscore: "CHR ''_'' \<notin> set (show_int i)"
  using show_nat_digits [of "nat i"] show_nat_digits [of "nat (- i)"] by (auto simp: show_int_def)

text \<open>C20: client and server call a method by its name and the number of its version: two methods have
  the same name on the wire exactly if they have the same name and the numbers of their versions agree in
  their lower 32 bits, to which the generator cuts them.\<close>

theorem wire_names:
  "implFunName m (ver_num v) = implFunName m' (ver_num v') \<longleftrightarrow>
     me_name m = me_name m' \<and> unat (v_num v) mod 2 ^ 32 = unat (v_num v') mod 2 ^ 32"
proof -
  have split: "n @ ''_v'' @ a = n' @ ''_v'' @ b \<longleftrightarrow> n = n' \<and> a = b"
    if "CHR ''_'' \<notin> set a" "CHR ''_'' \<notin> set b" for n n' a b :: string
  proof
    assume eq: "n @ ''_v'' @ a = n' @ ''_v'' @ b"
    have part: "takeWhile (\<lambda>c. c \<noteq> CHR ''_'') (rev (k @ ''_v'' @ c)) = rev c @ ''v''" if "CHR ''_'' \<notin> set c" for k c :: string
      using that by (auto simp: takeWhile_append)
    have "rev a @ ''v'' = rev b @ ''v''" using part [OF that(1), of n] part [OF that(2), of n'] eq by metis
    with eq show "n = n' \<and> a = b" by simp
  qed simp
  have "ver_num v = ver_num v' \<longleftrightarrow> (ucast (v_num v) :: 32 word) = ucast (v_num v')"
    unfolding ver_num_def by (rule word_eq_iff_signed [where 'a = int, symmetric])
  also have "\<dots> \<longleftrightarrow> unat (v_num v) mod 2 ^ 32 = unat (v_num v') mod 2 ^ 32"
    by (subst word_eq_iff_unsigned [where 'a = nat]) (simp add: unsigned_ucast_eq take_bit_eq_mod)
  finally show ?thesis
    unfolding implFunName_def split [OF show_int_no_underscore show_int_no_underscore] show_int_inj by blast
qed

section \<open>The dispatcher\<close>

text \<open>
  The text of \<open>handleReq\<close> is a sequence of tests of the method's name, whose bodies end in a jump to the
  end, and of \<open>else\<close> branches that return. \<open>reaches name\<close>: control gets to a test for \<open>name\<close>, when no earlier
  test succeeds, before it gets to an \<open>else\<close> branch.
\<close>

definition name_test :: "string \<Rightarrow> out_op" where
  "name_test name = Add (''if (req->method_name ==  \"'' @ name @ ''\") {\<newline>'')"

fun reaches :: "string \<Rightarrow> out_op list \<Rightarrow> bool" where
  "reaches name [] \<longleftrightarrow> False"
| "reaches name (x # xs) \<longleftrightarrow> x = name_test name \<or> x \<noteq> Add ''else {\<newline>'' \<and> reaches name xs"

definition quiet_op :: "out_op \<Rightarrow> bool" where
  "quiet_op x \<longleftrightarrow> x \<noteq> Add ''else {\<newline>'' \<and> (\<forall>name. x \<noteq> name_test name)"

lemma quiet_plain [simp]: "quiet_op (Cadd s)" "quiet_op (Indent k)"
  by (simp_all add: quiet_op_def name_test_def)

definition opens :: "string \<Rightarrow> bool" where
  "opens s \<longleftrightarrow> take 2 (rev s) = ''\<newline>{''"

lemma opens_simps [simp]:
  "\<not> opens (a @ '';\<newline>'')" "\<not> opens (a @ '';\<newline>\<newline>'')" "\<not> opens (a @ ''}\<newline>'')" "\<not> opens (a @ ''}\<newline>\<newline>'')"
  by (simp_all add: opens_def)

lemma quiet_closed: "\<not> opens s \<Longrightarrow> quiet_op (Add s)"
  unfolding quiet_op_def name_test_def by (auto simp: opens_def)

lemma quiet_head:
  assumes "take 5 s \<noteq> ''if (r''" "take 5 s \<noteq> ''else ''"
  shows "quiet_op (Add s)"
  using assms by (auto simp: quiet_op_def name_test_def)

lemma reaches_quiet: "list_all quiet_op xs \<Longrightarrow> reaches name (xs @ ys) \<longleftrightarrow> reaches name ys"
  by (induction xs) (auto simp: quiet_op_def)

lemma quiet_concat: "(\<And>x. x \<in> set xs \<Longrightarrow> list_all quiet_op (f x)) \<Longrightarrow> list_all quiet_op (concat (map f xs))"
  by (induction xs) auto

lemma quiet_genSerialiseInto: "list_all quiet_op (genSerialiseInto tr ''rval'' ''req->result'')"
  by (auto simp: genSerialiseInto_def Let_def intro!: quiet_head split: option.split)

lemma quiet_genDeserialiseInto: "list_all quiet_op (genDeserialiseInto tr ''succeeded'' uIn out b)"
proof -
  have "quiet_op (Add (t_type tr @ '' outEl;\<newline>''))" "quiet_op (Add (canonicalName tr @ '' outEl;\<newline>''))"
    by (simp_all add: opens_def quiet_closed)
  then show ?thesis
    by (auto simp: genDeserialiseInto_def Let_def intro!: quiet_head split: option.split)
qed

lemma genServerImplCase_test:
  "\<exists>rest. genServerImplCase m ver = name_test (implFunName m ver) # rest \<and> list_all quiet_op rest"
proof -
  have decl: "quiet_op (Add (makeDecl tr x [] @ '';\<newline>''))" for tr x by (rule quiet_closed) simp
  show ?thesis
    by (auto simp: genServerImplCase_def name_test_def intro!: quiet_concat quiet_head quiet_genSerialiseInto
        quiet_genDeserialiseInto decl simp: list.pred_map comp_def list.pred_True)
qed

lemma reaches_cases:
  "reaches name (genServerImplCases v @ ys) \<longleftrightarrow> name \<in> (\<lambda>m. implFunName m (ver_num v)) ` set (v_methods v)"
proof -
  have test: "name_test a = name_test b \<longleftrightarrow> a = b" for a b by (simp add: name_test_def)
  have "reaches name (concat (map (\<lambda>m. genServerImplCase m ver) ms) @ Add ''else {\<newline>'' # zs) \<longleftrightarrow>
      name \<in> (\<lambda>m. implFunName m ver) ` set ms" for ver ms zs
  proof (induction ms)
    case Nil
    then show ?case by (simp add: name_test_def)
  next
    case (Cons m ms)
    obtain rest where rest: "genServerImplCase m ver = name_test (implFunName m ver) # rest" "list_all quiet_op rest"
      using genServerImplCase_test by blast
    have "name_test (implFunName m ver) \<noteq> Add ''else {\<newline>''" by (simp add: name_test_def)
    with rest Cons show ?case by (auto simp: reaches_quiet test)
  qed
  then show ?thesis by (simp add: genServerImplCases_def)
qed

text \<open>A request reaches a method of the first version of a program only: the \<open>else\<close> branch that
  ends the cases of the first version returns before the cases of any other version.\<close>

theorem dispatches_first_version_only:
  assumes "p_versions p = v # vs"
  shows "reaches name (program_genServer p) \<longleftrightarrow>
    name \<in> (\<lambda>m. implFunName m (ver_num v)) ` set (v_methods v)"
proof -
  let ?head = "[Add (''int '' @ className p @ ''VTable::handleReq(WSRPCReq * req, WSRPCVTable * baseVt)\<newline>{\<newline>''), Indent 2,
      Add ''bool succeeded = false;\<newline>'',
      Add (className p @ ''VTable * vt = static_cast<'' @ className p @ ''VTable *>(baseVt);\<newline>'')]"
  have "quiet_op (Add (className p @ ''VTable * vt = static_cast<'' @ className p @ ''VTable *>(baseVt);\<newline>''))"
    using opens_simps(1) [of "className p @ ''VTable * vt = static_cast<'' @ className p @ ''VTable *>(baseVt)''"]
    by (intro quiet_closed) simp
  then have "list_all quiet_op ?head" by (simp add: quiet_head)
  from reaches_quiet [OF this] show ?thesis
    by (simp only: program_genServer_def assms list.map concat.simps append_assoc reaches_cases)
qed

theorem dispatches_first_version_only_witness:
  "reaches ''stop_v1'' (program_genServer two_versions) \<and> \<not> reaches ''start_v2'' (program_genServer two_versions)"
proof -
  let ?v1 = "\<lparr>v_num = 1, v_name = ''V1'', v_methods = [\<lparr>me_retType = void_ref, me_name = ''stop'', me_args = []\<rparr>]\<rparr>"
  have names: "(\<lambda>m. implFunName m (ver_num ?v1)) ` set (v_methods ?v1) = {''stop_v1''}"
    by (simp add: implFunName_def ver_num_def show_int_def show_nat.simps digit_char_def)
  have "reaches name (program_genServer two_versions) \<longleftrightarrow> name \<in> {''stop_v1''}" for name
    using dispatches_first_version_only [of two_versions ?v1 _ name] unfolding names by (simp add: two_versions_def)
  then show ?thesis by simp
qed

end
