(* ===== verification/Regex.thy ===== *)
theory Regex
  imports Eci_Prelude
begin

text \<open>
  Regular expressions with classes of characters, as a scanner generator takes them. \<open>matches\<close> says which words
  an expression describes; \<open>longest\<close> computes the length of the longest prefix of a text that it describes, by
  derivatives, and \<open>best_rule\<close> chooses among several expressions: the longest match, the first in the list of those.
\<close>

section \<open>Expressions and the words they describe\<close>

datatype rx = RNone | REps | RChr "char \<Rightarrow> bool" | RAlt rx rx | RSeq rx rx | RStar rx

inductive matches :: "rx \<Rightarrow> string \<Rightarrow> bool" where
  eps: "matches REps []"
| chr: "p c \<Longrightarrow> matches (RChr p) [c]"
| alt1: "matches r w \<Longrightarrow> matches (RAlt r s) w"
| alt2: "matches s w \<Longrightarrow> matches (RAlt r s) w"
| seq: "matches r v \<Longrightarrow> matches s w \<Longrightarrow> matches (RSeq r s) (v @ w)"
| star0: "matches (RStar r) []"
| star1: "matches r v \<Longrightarrow> matches (RStar r) w \<Longrightarrow> matches (RStar r) (v @ w)"

inductive_simps matches_simps [simp]:
  "matches RNone w" "matches REps w" "matches (RChr p) w" "matches (RAlt r s) w"

inductive_cases matches_seqE: "matches (RSeq r s) w"
inductive_cases matches_starE: "matches (RStar r) w"

definition ROpt :: "rx \<Rightarrow> rx" where
  "ROpt r = RAlt r REps"

definition RPlus :: "rx \<Rightarrow> rx" where
  "RPlus r = RSeq r (RStar r)"

definition ROne :: "char \<Rightarrow> rx" where
  "ROne c = RChr (\<lambda>d. d = c)"

fun RLit :: "string \<Rightarrow> rx" where
  "RLit [] = REps"
| "RLit (c # cs) = RSeq (ROne c) (RLit cs)"

text \<open>The expression that does not tell upper case from lower case.\<close>

definition other_case :: "char \<Rightarrow> char" where
  "other_case c =
     (let n = of_char c :: nat
      in if 65 \<le> n \<and> n \<le> 90 then char_of (n + 32) else if 97 \<le> n \<and> n \<le> 122 then char_of (n - 32) else c)"

primrec caseless :: "rx \<Rightarrow> rx" where
  "caseless RNone = RNone"
| "caseless REps = REps"
| "caseless (RChr p) = RChr (\<lambda>c. p c \<or> p (other_case c))"
| "caseless (RAlt r s) = RAlt (caseless r) (caseless s)"
| "caseless (RSeq r s) = RSeq (caseless r) (caseless s)"
| "caseless (RStar r) = RStar (caseless r)"

section \<open>Derivatives\<close>

primrec nullable :: "rx \<Rightarrow> bool" where
  "nullable RNone = False"
| "nullable REps = True"
| "nullable (RChr p) = False"
| "nullable (RAlt r s) = (nullable r \<or> nullable s)"
| "nullable (RSeq r s) = (nullable r \<and> nullable s)"
| "nullable (RStar r) = True"

text \<open>Constructors that drop what cannot match.\<close>

fun alt :: "rx \<Rightarrow> rx \<Rightarrow> rx" where
  "alt RNone s = s"
| "alt r RNone = r"
| "alt r s = RAlt r s"

fun seq :: "rx \<Rightarrow> rx \<Rightarrow> rx" where
  "seq RNone s = RNone"
| "seq REps s = s"
| "seq r s = RSeq r s"

primrec deriv :: "char \<Rightarrow> rx \<Rightarrow> rx" where
  "deriv c RNone = RNone"
| "deriv c REps = RNone"
| "deriv c (RChr p) = (if p c then REps else RNone)"
| "deriv c (RAlt r s) = alt (deriv c r) (deriv c s)"
| "deriv c (RSeq r s) = (if nullable r then alt (seq (deriv c r) s) (deriv c s) else seq (deriv c r) s)"
| "deriv c (RStar r) = seq (deriv c r) (RStar r)"

lemma nullable_iff: "nullable r \<longleftrightarrow> matches r []"
  by (induction r) (auto elim: matches_seqE intro: matches.intros dest: matches.seq [where v = "[]" and w = "[]", simplified])

lemma alt_RNone [simp]: "alt r RNone = r"
  by (cases r) simp_all

lemma deriv_alt [simp]: "deriv c (alt r s) = alt (deriv c r) (deriv c s)"
  by (induction r s rule: alt.induct) simp_all

lemma deriv_seq [simp]: "deriv c (seq r s) = deriv c (RSeq r s)"
  by (induction r s rule: seq.induct) simp_all

lemma nullable_alt [simp]: "nullable (alt r s) \<longleftrightarrow> nullable r \<or> nullable s"
  by (induction r s rule: alt.induct) auto

lemma matches_alt [simp]: "matches (alt r s) w \<longleftrightarrow> matches r w \<or> matches s w"
  by (induction r s rule: alt.induct) auto

lemma matches_seq_iff: "matches (RSeq r s) w \<longleftrightarrow> (\<exists>v v'. w = v @ v' \<and> matches r v \<and> matches s v')"
  by (auto intro: matches.seq) (auto elim!: matches_seqE)

lemma matches_seq [simp]: "matches (seq r s) w \<longleftrightarrow> matches (RSeq r s) w"
  by (induction r s rule: seq.induct) (auto simp: matches_seq_iff)

lemma matches_star_Cons:
  "matches (RStar r) (c # w) \<longleftrightarrow> (\<exists>v v'. w = v @ v' \<and> matches r (c # v) \<and> matches (RStar r) v')"
proof
  have "matches q u \<Longrightarrow> q = RStar r \<Longrightarrow> u = c # w \<Longrightarrow> \<exists>v v'. w = v @ v' \<and> matches r (c # v) \<and> matches (RStar r) v'" for q u
    by (induction arbitrary: w rule: matches.induct) (auto simp: append_eq_Cons_conv)
  then show "matches (RStar r) (c # w) \<Longrightarrow> \<exists>v v'. w = v @ v' \<and> matches r (c # v) \<and> matches (RStar r) v'" by blast
  show "\<exists>v v'. w = v @ v' \<and> matches r (c # v) \<and> matches (RStar r) v' \<Longrightarrow> matches (RStar r) (c # w)"
    using matches.star1 [of r] by fastforce
qed

lemma matches_deriv: "matches (deriv c r) w \<longleftrightarrow> matches r (c # w)"
proof (induction r arbitrary: w)
  case (RSeq r s)
  have "matches (RSeq r s) (c # w) \<longleftrightarrow>
      (matches r [] \<and> matches s (c # w)) \<or> (\<exists>v v'. w = v @ v' \<and> matches r (c # v) \<and> matches s v')"
    by (auto simp: matches_seq_iff Cons_eq_append_conv)
  then show ?case using RSeq by (auto simp: nullable_iff matches_seq_iff)
qed (auto simp: matches_star_Cons matches_seq_iff)

section \<open>The longest match\<close>

fun longest :: "rx \<Rightarrow> string \<Rightarrow> nat option" where
  "longest RNone s = None"
| "longest r [] = (if nullable r then Some 0 else None)"
| "longest r (c # cs) =
     (case longest (deriv c r) cs of Some n \<Rightarrow> Some (Suc n) | None \<Rightarrow> if nullable r then Some 0 else None)"

lemma longest_eq:
  "longest r s = (case s of [] \<Rightarrow> if nullable r then Some 0 else None
     | c # cs \<Rightarrow> (case longest (deriv c r) cs of Some n \<Rightarrow> Some (Suc n) | None \<Rightarrow> if nullable r then Some 0 else None))"
  by (cases r; cases s) auto

lemma longest_None: "longest r s = None \<longleftrightarrow> (\<forall>n \<le> length s. \<not> matches r (take n s))"
proof (induction s arbitrary: r)
  case (Cons c s)
  have "(\<forall>n \<le> length (c # s). P n) \<longleftrightarrow> P 0 \<and> (\<forall>n \<le> length s. P (Suc n))" for P :: "nat \<Rightarrow> bool"
    by (metis Suc_le_mono le0 length_Cons not0_implies_Suc)
  then have "(\<forall>n \<le> length (c # s). \<not> matches r (take n (c # s))) \<longleftrightarrow>
      \<not> matches r [] \<and> (\<forall>n \<le> length s. \<not> matches (deriv c r) (take n s))"
    by (simp add: matches_deriv)
  then show ?case
    using Cons [of "deriv c r"] by (cases "longest (deriv c r) s") (auto simp: longest_eq [of r] nullable_iff)
qed (simp add: longest_eq nullable_iff)

text \<open>The length found is that of a matching prefix, and no longer prefix matches.\<close>

lemma longest_Some:
  "longest r s = Some n \<Longrightarrow> n \<le> length s \<and> matches r (take n s) \<and> (\<forall>m. n < m \<and> m \<le> length s \<longrightarrow> \<not> matches r (take m s))"
proof (induction s arbitrary: r n)
  case (Cons c s)
  show ?case
  proof (cases "longest (deriv c r) s")
    case None
    with Cons.prems have "n = 0" "matches r []" by (auto simp: longest_eq [of r] nullable_iff split: if_splits)
    moreover have "\<not> matches r (take m (c # s))" if "0 < m" "m \<le> length (c # s)" for m
      using None that by (auto simp: longest_None matches_deriv take_Cons')
    ultimately show ?thesis by simp
  next
    case (Some k)
    with Cons.prems have n: "n = Suc k" by (simp add: longest_eq [of r])
    have "\<not> matches r (take m (c # s))" if "n < m" "m \<le> length (c # s)" for m
      using Cons.IH [OF Some] that n by (cases m) (auto simp: matches_deriv)
    with Cons.IH [OF Some] n show ?thesis by (simp add: matches_deriv)
  qed
qed (simp add: longest_eq nullable_iff split: if_splits)

section \<open>The rule that is applied\<close>

text \<open>Of the rules that match, the one with the longest match; of several such the first.\<close>

fun best_rule :: "('a \<times> rx) list \<Rightarrow> string \<Rightarrow> ('a \<times> nat) option" where
  "best_rule [] s = None"
| "best_rule ((a, r) # rs) s =
     (case longest r s of
        None \<Rightarrow> best_rule rs s
      | Some n \<Rightarrow> (case best_rule rs s of Some (b, m) \<Rightarrow> if m > n then Some (b, m) else Some (a, n) | None \<Rightarrow> Some (a, n)))"

lemma best_rule_None: "best_rule rs s = None \<longleftrightarrow> (\<forall>(a, r) \<in> set rs. longest r s = None)"
  by (induction rs s rule: best_rule.induct) (auto split: option.splits)

lemma best_rule_max:
  "best_rule rs s = Some (a, n) \<Longrightarrow> (b, r) \<in> set rs \<Longrightarrow> longest r s = Some m \<Longrightarrow> m \<le> n"
  by (induction rs s arbitrary: a n rule: best_rule.induct)
    (auto simp: best_rule_None split: option.splits if_splits, fastforce+)

lemma best_rule_first:
  assumes "best_rule rs s = Some (a, n)"
  shows "\<exists>us r vs. rs = us @ (a, r) # vs \<and> longest r s = Some n \<and> (\<forall>(b, q) \<in> set us. \<forall>m. longest q s = Some m \<longrightarrow> m < n)"
  using assms
proof (induction rs s arbitrary: a n rule: best_rule.induct)
  case (2 b q rs s)
  consider (here) "a = b" "longest q s = Some n"
    | (later) "best_rule rs s = Some (a, n)" "\<forall>m. longest q s = Some m \<longrightarrow> m < n"
    using "2.prems" by (auto split: option.splits if_splits prod.splits)
  then show ?case
  proof cases
    case here
    then show ?thesis by (intro exI [of _ "[]"]) auto
  next
    case later
    with "2.IH" obtain us r vs where "rs = us @ (a, r) # vs" "longest r s = Some n"
        "\<forall>(b, q) \<in> set us. \<forall>m. longest q s = Some m \<longrightarrow> m < n"
      by (cases "longest q s") blast+
    with later(2) show ?thesis by (intro exI [of _ "(b, q) # us"]) auto
  qed
qed simp

text \<open>How to find the rule: every rule before it matches less, every rule behind it no more.\<close>

lemma best_ruleI:
  assumes "longest r s = Some n"
    and "\<And>b q m. (b, q) \<in> set us \<Longrightarrow> longest q s = Some m \<Longrightarrow> m < n"
    and "\<And>b q m. (b, q) \<in> set vs \<Longrightarrow> longest q s = Some m \<Longrightarrow> m \<le> n"
  shows "best_rule (us @ (a, r) # vs) s = Some (a, n)"
  using assms(2)
proof (induction us)
  case Nil
  show ?case
  proof (cases "best_rule vs s")
    case (Some x)
    obtain b m where x: "x = (b, m)" by (cases x)
    obtain ws q zs where "vs = ws @ (b, q) # zs" "longest q s = Some m"
      using best_rule_first [OF Some [unfolded x]] by blast
    then have "m \<le> n" using assms(3) [of b q m] by simp
    with Some x assms(1) show ?thesis by simp
  qed (use assms(1) in simp)
next
  case (Cons u us)
  then show ?case by (cases u) (fastforce split: option.split)
qed

lemma best_rule_skip: "\<forall>(a, r) \<in> set us. longest r s = None \<Longrightarrow> best_rule (us @ vs) s = best_rule vs s"
  by (induction us) auto

end
