(* ===== verification/Idl_Lexer.thy ===== *)
theory Idl_Lexer
  imports Regex Idl
begin

text \<open>
  The scanner of the RPC interface language: the rules and actions of \<^verbatim>\<open>cmd/wsrpcgen/wsrpcgen.l\<close>, and the classes
  \<open>Position\<close>, \<open>Token\<close> and \<open>MVST_Parser\<close> of \<^verbatim>\<open>wsrpcgen.hh\<close> that they use. flex makes a scanner of the rules that
  applies, at every place of the text, the rule with the longest match, the first of several; what no rule matches
  is copied to the output, a character at a time. The actions run after \<open>YY_USER_ACTION\<close>, which keeps track of the position.

  The scanner gives the lexemes of the text with their rules; the actions turn them into the tokens that
  are handed to the parser, each with the position of the scanner at that moment, and into the code that is passed through.
\<close>

section \<open>Tokens\<close>

datatype tok =
    TOK_IMPORT | TOK_PROGRAM | TOK_VERSION | TOK_BYREF | TOK_SVC_BYRREF | TOK_STRUCT | TOK_ENUM | TOK_UNION | TOK_CASE | TOK_TYPE
  | TOK_INTEGER | TOK_IDENT | TOK_STRLIT
  | TOK_COLON | TOK_SEMI | TOK_LBRACE | TOK_RBRACE | TOK_LBRACKET | TOK_RBRACKET | TOK_COMMA | TOK_EQUALS | TOK_LCARET | TOK_RCARET

text \<open>No token has a fractional value: the scanner does not use \<open>pf\<close>.\<close>

record Token =
  floatValue :: int
  intValue :: int
  stringValue :: string

definition Token0 :: Token where
  "Token0 = \<lparr>floatValue = 0, intValue = 0, stringValue = []\<rparr>"

definition TokenI :: "int \<Rightarrow> Token" where
  "TokenI i = Token0\<lparr>intValue := i\<rparr>"

definition TokenS :: "string \<Rightarrow> Token" where
  "TokenS s = Token0\<lparr>stringValue := s\<rparr>"

lemma Token_values [simp]: "stringValue (TokenS s) = s" "intValue (TokenI i) = i" "floatValue (TokenI i) = 0"
  by (simp_all add: TokenS_def TokenI_def Token0_def)

text \<open>The conversion of a token to an \<open>unsigned long\<close>: the only conversion operator that leads to a number is the one to \<open>double\<close>.\<close>

definition token_ulong :: "Token \<Rightarrow> 64 word" where
  "token_ulong t = word_of_int (floatValue t)"

section \<open>Positions\<close>

record Position =
  po_oldLine :: int
  po_oldCol :: int
  po_oldPos :: int
  po_line :: int
  po_col :: int
  po_pos :: int

record MVST_Parser =
  fName :: string
  fText :: string
  includeDirs :: "string list"
  m_line :: int
  m_col :: int
  m_pos :: int
  m_oldLine :: int
  m_oldCol :: int
  m_oldPos :: int

definition new_MVST_Parser :: "string \<Rightarrow> string \<Rightarrow> string list \<Rightarrow> MVST_Parser" where
  "new_MVST_Parser f ft dirs =
     \<lparr>fName = f, fText = ft, includeDirs = dirs, m_line = 0, m_col = 0, m_pos = 0, m_oldLine = 0, m_oldCol = 0, m_oldPos = 0\<rparr>"

definition parser_pos :: "MVST_Parser \<Rightarrow> Position" where
  "parser_pos p =
     \<lparr>po_oldLine = m_oldLine p, po_oldCol = m_oldCol p, po_oldPos = m_oldPos p, po_line = m_line p, po_col = m_col p, po_pos = m_pos p\<rparr>"

definition recOldPos :: "MVST_Parser \<Rightarrow> MVST_Parser" where
  "recOldPos p = p\<lparr>m_oldPos := m_pos p, m_oldLine := m_line p, m_oldCol := m_col p\<rparr>"

definition cr :: "MVST_Parser \<Rightarrow> MVST_Parser" where
  "cr p = p\<lparr>m_pos := m_pos p + m_col p + 1, m_line := m_line p + 1, m_col := 0\<rparr>"

definition incCol :: "MVST_Parser \<Rightarrow> MVST_Parser" where
  "incCol p = p\<lparr>m_col := m_col p + 1\<rparr>"

abbreviation (input) NL :: char where "NL \<equiv> CHR 0x0A"

definition user_action :: "string \<Rightarrow> MVST_Parser \<Rightarrow> MVST_Parser" where
  "user_action yytext p = fold (\<lambda>c. if c = NL then cr else incCol) yytext (recOldPos p)"

section \<open>The rules\<close>

datatype lex_rule =
    L_code | L_line_comment | L_import | L_word tok | L_hex | L_int | L_ident | L_strlit | L_punct "tok list"
  | L_comment | L_end_comment | L_in_comment | L_blank | L_echo

definition rng :: "char \<Rightarrow> char \<Rightarrow> char \<Rightarrow> bool" where
  "rng a b c \<longleftrightarrow> of_char a \<le> (of_char c :: nat) \<and> of_char c \<le> (of_char b :: nat)"

definition rx_any :: rx where   \<comment> \<open>the dot\<close>
  "rx_any = RChr (\<lambda>c. c \<noteq> NL)"

definition rx_digit :: rx where
  "rx_digit = RChr (rng (CHR ''0'') (CHR ''9''))"

definition ltr_char :: "char \<Rightarrow> bool" where
  "ltr_char c \<longleftrightarrow> rng (CHR ''a'') (CHR ''z'') c \<or> rng (CHR ''A'') (CHR ''Z'') c \<or>
     c \<in> {CHR ''_'', CHR 0xA8, CHR 0xAA, CHR 0xAD, CHR 0xAF, CHR 0xB2, CHR 0xB5, CHR 0xB7, CHR 0xB8, CHR 0xB9, CHR 0xBA,
       CHR 0xBC, CHR 0xBD, CHR 0xBE}"

definition rx_ltr :: rx where
  "rx_ltr =
     (let hex = RChr (\<lambda>c. rng (CHR ''0'') (CHR ''9'') c \<or> rng (CHR ''a'') (CHR ''f'') c \<or> rng (CHR ''A'') (CHR ''F'') c)
      in RAlt (RChr ltr_char)
           (RAlt (RSeq (RChr (rng (CHR 0xC0) (CHR 0xFF))) (RStar (RChr (rng (CHR 0x80) (CHR 0xBF)))))
             (RSeq (RLit [CHR 0x5C, CHR ''u'']) (RSeq hex (RSeq hex (RSeq hex hex))))))"

definition rx_ident_rest :: rx where
  "rx_ident_rest =
     RStar (RAlt (RSeq (ROpt (ROne (CHR '':''))) rx_ltr) (RAlt rx_digit (RAlt (ROne (CHR ''.'')) (RLit ''::''))))"

definition rx_ident :: rx where
  "rx_ident = RSeq (RSeq (ROpt (ROne (CHR '':''))) rx_ltr) rx_ident_rest"

definition rx_hex_body :: rx where
  "rx_hex_body = RSeq (ROne (CHR ''0'')) (RSeq (RChr (\<lambda>c. c \<in> {CHR ''x'', CHR ''X''}))
     (RPlus (RChr (\<lambda>c. rng (CHR ''0'') (CHR ''9'') c \<or> rng (CHR ''A'') (CHR ''F'') c))))"

definition rx_hex :: rx where
  "rx_hex = RSeq (ROpt (ROne (CHR ''-''))) rx_hex_body"

definition rx_string_rest :: rx where
  "rx_string_rest =
     RSeq (RStar (RAlt (RSeq (ROne (CHR 0x5C)) rx_any) (RChr (\<lambda>c. c \<noteq> CHR 0x5C \<and> c \<noteq> CHR 0x22)))) (ROne (CHR 0x22))"

definition rx_strlit :: rx where
  "rx_strlit = RSeq (ROpt (ROne (CHR ''L''))) (RSeq (ROne (CHR 0x22)) rx_string_rest)"

definition word_tokens :: "(string \<times> tok) list" where
  "word_tokens =
     [(''program'', TOK_PROGRAM), (''version'', TOK_VERSION), (''byref'', TOK_BYREF), (''svc_byrref'', TOK_SVC_BYRREF),
      (''struct'', TOK_STRUCT), (''enum'', TOK_ENUM), (''union'', TOK_UNION), (''case'', TOK_CASE), (''type'', TOK_TYPE)]"

definition puncts :: "(string \<times> tok list) list" where
  "puncts =
     [('':'', [TOK_COLON]), ('';'', [TOK_SEMI]), (''{'', [TOK_LBRACE]), (''}'', [TOK_RBRACE]), (''};'', [TOK_RBRACE, TOK_SEMI]),
      (''('', [TOK_LBRACKET]), ('')'', [TOK_RBRACKET]), ('','', [TOK_COMMA]), (''='', [TOK_EQUALS]), (''<'', [TOK_LCARET]),
      (''>'', [TOK_RCARET])]"

text \<open>The rules in their order, in the two start conditions; some apply only at the beginning of a line. All ignore case.\<close>

definition line_rules :: "(lex_rule \<times> rx) list" where
  "line_rules =
     [(L_code, RSeq (RLit ''%'') (RStar rx_any)), (L_line_comment, RSeq (RLit ''//'') (RStar rx_any)),
      (L_import, RSeq (RLit ''#import '') (RStar rx_any))]"

definition common_rules :: "(lex_rule \<times> rx) list" where
  "common_rules =
     map (\<lambda>(k, t). (L_word t, RLit k)) word_tokens @
     [(L_hex, rx_hex), (L_int, RSeq (ROne (CHR ''-'')) (RPlus rx_digit)), (L_int, RPlus rx_digit), (L_ident, rx_ident),
      (L_strlit, rx_strlit)] @
     map (\<lambda>(k, ts). (L_punct ts, RLit k)) puncts @
     [(L_comment, RLit ''/*''), (L_blank, RChr (\<lambda>c. c \<in> {CHR '' '', CHR 0x09, NL}))]"

definition comment_rules :: "(lex_rule \<times> rx) list" where
  "comment_rules = [(L_end_comment, RLit ''*/''), (L_in_comment, ROne NL), (L_in_comment, rx_any)]"

definition lex_rules :: "bool \<Rightarrow> bool \<Rightarrow> (lex_rule \<times> rx) list" where
  "lex_rules in_comment bol =
     map (\<lambda>(a, r). (a, caseless r))
       (if in_comment then comment_rules
        else (if bol then line_rules else filter (\<lambda>(a, r). a = L_line_comment) line_rules) @ common_rules)"

section \<open>Scanning\<close>

text \<open>The rule and the length of the next lexeme; a match of nothing would make the scanner stand still, and there is none.\<close>

definition next_lexeme :: "bool \<Rightarrow> bool \<Rightarrow> string \<Rightarrow> lex_rule \<times> nat" where
  "next_lexeme in_comment bol s =
     (case best_rule (lex_rules in_comment bol) s of Some (a, Suc n) \<Rightarrow> (a, Suc n) | _ \<Rightarrow> (L_echo, 1))"

definition start_condition :: "lex_rule \<Rightarrow> bool \<Rightarrow> bool" where
  "start_condition a in_comment = (if a = L_comment then True else if a = L_end_comment then False else in_comment)"

lemma next_lexeme_pos: "0 < snd (next_lexeme in_comment bol s)"
  by (auto simp: next_lexeme_def split: option.splits prod.splits nat.splits)

function scan :: "bool \<Rightarrow> bool \<Rightarrow> string \<Rightarrow> (lex_rule \<times> string) list" where
  "scan in_comment bol s =
     (if s = [] then []
      else let (a, n) = next_lexeme in_comment bol s;
               yytext = take n s
           in (a, yytext) # scan (start_condition a in_comment) (last yytext = NL) (drop n s))"
  by pat_completeness auto
termination
proof (relation "measure (\<lambda>(_, _, s). length s)")
  fix in_comment bol and s :: string and x a n yytext
  assume s: "s \<noteq> []" "x = next_lexeme in_comment bol s" "(a, n) = x"
  then have "0 < n" using next_lexeme_pos [of in_comment bol s] by (metis snd_conv)
  with s show "((start_condition a in_comment, last yytext = NL, drop n s), in_comment, bol, s)
      \<in> measure (\<lambda>(_, _, s). length s)" by simp
qed simp

declare scan.simps [simp del]

section \<open>The actions\<close>

definition LONG_MAX :: int where
  "LONG_MAX = 2 ^ 63 - 1"

definition clamp_long :: "int \<Rightarrow> int" where
  "clamp_long v = max (- LONG_MAX - 1) (min LONG_MAX v)"

text \<open>\<open>atol\<close> and \<open>strtol\<close> in base 16, on the texts that the rules match.\<close>

definition signed :: "(string \<Rightarrow> nat) \<Rightarrow> string \<Rightarrow> int" where
  "signed f s = (case s of [] \<Rightarrow> int (f s) | c # cs \<Rightarrow> if c = CHR ''-'' then - int (f cs) else int (f s))"

definition atol :: "string \<Rightarrow> int" where
  "atol s = clamp_long (signed digits_value s)"

definition hex_digit :: "char \<Rightarrow> nat" where
  "hex_digit c =
     (let n = of_char c
      in if n \<le> 57 then n - 48 else if n \<le> 70 then n - 55 else n - 87)"

definition strtol16 :: "string \<Rightarrow> int" where
  "strtol16 s = clamp_long (signed (\<lambda>t. foldl (\<lambda>a c. 16 * a + hex_digit c) 0 (drop 2 t)) s)"

text \<open>
  What an action hands to the parser, and the code it passes through. The action of \<^verbatim>\<open>#import\<close> drops the nine
  characters up to the quotation mark and the last one; a shorter text is out of range or has no last character:
  then there is no result.
\<close>

definition lex_action :: "lex_rule \<Rightarrow> string \<Rightarrow> ((tok \<times> Token) list \<times> string) option" where
  "lex_action a yytext =
     (case a of
        L_code \<Rightarrow> Some ([], drop 1 yytext @ [NL])
      | L_import \<Rightarrow> if length yytext < 10 then None else Some ([(TOK_IMPORT, TokenS (butlast (drop 9 yytext)))], [])
      | L_word t \<Rightarrow> Some ([(t, Token0)], [])
      | L_hex \<Rightarrow> Some ([(TOK_INTEGER, TokenI (strtol16 yytext))], [])
      | L_int \<Rightarrow> Some ([(TOK_INTEGER, TokenI (atol yytext))], [])
      | L_ident \<Rightarrow> Some ([(TOK_IDENT, TokenS yytext)], [])
      | L_strlit \<Rightarrow> Some ([(TOK_STRLIT, TokenS yytext)], [])
      | L_punct ts \<Rightarrow> Some (map (\<lambda>t. (t, Token0)) ts, [])
      | _ \<Rightarrow> Some ([], []))"

text \<open>
  All lexemes: the tokens in the order in which they reach the parser, each with the state of the scanner, the code, and
  the state at the end.
\<close>

fun run_actions ::
  "(lex_rule \<times> string) list \<Rightarrow> MVST_Parser \<Rightarrow> (((tok \<times> Token) \<times> MVST_Parser) list \<times> string \<times> MVST_Parser) option" where
  "run_actions [] p = Some ([], [], p)"
| "run_actions ((a, yytext) # ls) p =
     (let p1 = user_action yytext p
      in case lex_action a yytext of
           None \<Rightarrow> None
         | Some (ts, code) \<Rightarrow>
             (case run_actions ls p1 of
                None \<Rightarrow> None
              | Some (ts', code', p2) \<Rightarrow> Some (map (\<lambda>t. (t, p1)) ts @ ts', code @ code', p2)))"

definition mvstlex ::
  "string \<Rightarrow> MVST_Parser \<Rightarrow> (((tok \<times> Token) \<times> MVST_Parser) list \<times> string \<times> MVST_Parser) option" where
  "mvstlex src p = run_actions (scan False True src) p"

section \<open>Error reports\<close>

definition tok_name :: "tok option \<Rightarrow> string" where
  "tok_name t = (case t of None \<Rightarrow> ''$'' | Some k \<Rightarrow> (case k of
     TOK_IMPORT \<Rightarrow> ''IMPORT'' | TOK_PROGRAM \<Rightarrow> ''PROGRAM'' | TOK_VERSION \<Rightarrow> ''VERSION'' | TOK_BYREF \<Rightarrow> ''BYREF''
   | TOK_SVC_BYRREF \<Rightarrow> ''SVC_BYRREF'' | TOK_STRUCT \<Rightarrow> ''STRUCT'' | TOK_ENUM \<Rightarrow> ''ENUM'' | TOK_UNION \<Rightarrow> ''UNION''
   | TOK_CASE \<Rightarrow> ''CASE'' | TOK_TYPE \<Rightarrow> ''TYPE'' | TOK_INTEGER \<Rightarrow> ''INTEGER'' | TOK_IDENT \<Rightarrow> ''IDENT'' | TOK_STRLIT \<Rightarrow> ''STRLIT''
   | TOK_COLON \<Rightarrow> ''COLON'' | TOK_SEMI \<Rightarrow> ''SEMI'' | TOK_LBRACE \<Rightarrow> ''LBRACE'' | TOK_RBRACE \<Rightarrow> ''RBRACE'' | TOK_LBRACKET \<Rightarrow> ''LBRACKET''
   | TOK_RBRACKET \<Rightarrow> ''RBRACKET'' | TOK_COMMA \<Rightarrow> ''COMMA'' | TOK_EQUALS \<Rightarrow> ''EQUALS'' | TOK_LCARET \<Rightarrow> ''LCARET'' | TOK_RCARET \<Rightarrow> ''RCARET''))"

text \<open>
  The first three lines of a report, up to the list of expected tokens, which is taken from the tables of the generated parser.
  \<open>m_col\<close> and \<open>m_oldCol\<close> are compared as unsigned numbers; they are not negative.
\<close>

definition error_line :: "MVST_Parser \<Rightarrow> string" where
  "error_line p = takeWhile (\<lambda>c. c \<noteq> NL) (drop (nat (m_pos p)) (fText p))"

definition error_marks :: "MVST_Parser \<Rightarrow> string" where
  "error_marks p = replicate (nat (m_oldCol p)) (CHR '' '') @ replicate (nat (m_col p) - nat (m_oldCol p)) (CHR ''^'')"

definition syntax_error :: "tok option \<Rightarrow> MVST_Parser \<Rightarrow> string" where
  "syntax_error yymajor p =
     ''WSRPCGen: '' @ fName p @ ''('' @ show_int (m_line p) @ '','' @ show_int (m_col p) @ ''): Syntax error: unexpected '' @
     tok_name yymajor @ [NL] @ ''+ '' @ error_line p @ [NL] @ ''+ '' @ error_marks p @ [NL]"

end
