(* ===== verification/Idl_Parser.thy ===== *)
theory Idl_Parser
  imports Idl_Lexer
begin

text \<open>
  The grammar of the RPC interface language, \<^verbatim>\<open>cmd/wsrpcgen/wsrpcgen.y\<close>, with the values that its actions compute, and
  \<open>MVST_Parser::parseFile\<close>. Lemon makes a parser of the grammar; its templates are not part of the repository. The grammar is
  given twice: as inductive definitions, a rule for every production (\<open>def_g\<close> and so on), and as functions that read a
  prefix of the tokens with one token of look-ahead (\<open>p_def\<close> and so on). They agree, so the grammar is not ambiguous and
  the value of a text does not depend on how its derivation is found. How the generated parser goes on after a syntax error is
  not modelled: the result is \<open>None\<close>.
\<close>

type_synonym token = "tok \<times> Token"

section \<open>The grammar\<close>

text \<open>Lists: \<open>x ::= y | x y\<close>, elements that end in a semicolon, elements with commas between them, and optional parts.\<close>

inductive many_g :: "(token list \<Rightarrow> 'a \<Rightarrow> bool) \<Rightarrow> token list \<Rightarrow> 'a list \<Rightarrow> bool" for g where
  "g ts d \<Longrightarrow> many_g g ts [d]"
| "many_g g ts l \<Longrightarrow> g ts' d \<Longrightarrow> many_g g (ts @ ts') (l @ [d])"

inductive semi_g :: "(token list \<Rightarrow> 'a \<Rightarrow> bool) \<Rightarrow> token list \<Rightarrow> 'a \<Rightarrow> bool" for g where
  "g ts d \<Longrightarrow> semi_g g (ts @ [(TOK_SEMI, a)]) d"

inductive comma_g :: "(token list \<Rightarrow> 'a \<Rightarrow> bool) \<Rightarrow> token list \<Rightarrow> 'a list \<Rightarrow> bool" for g where
  "g ts d \<Longrightarrow> comma_g g ts [d]"
| "comma_g g ts l \<Longrightarrow> g ts' d \<Longrightarrow> comma_g g (ts @ (TOK_COMMA, a) # ts') (l @ [d])"

inductive opt_g :: "(token list \<Rightarrow> 'a list \<Rightarrow> bool) \<Rightarrow> token list \<Rightarrow> 'a list \<Rightarrow> bool" for g where
  "opt_g g [] []"
| "g ts l \<Longrightarrow> opt_g g ts l"

text \<open>Types and declarations.\<close>

definition new_TypeRef :: "string \<Rightarrow> TypeRef" where
  "new_TypeRef ty = \<lparr>t_list = False, byRef = False, svcByRRef = False, t_def = None, t_type = ty\<rparr>"

inductive opt_list_g :: "token list \<Rightarrow> bool \<Rightarrow> bool" where
  "opt_list_g [] False"
| "opt_list_g [(TOK_LCARET, a), (TOK_RCARET, b)] True"

inductive basic_type_g :: "token list \<Rightarrow> TypeRef \<Rightarrow> bool" where
  "opt_list_g ts l \<Longrightarrow> basic_type_g ((TOK_IDENT, i) # ts) ((new_TypeRef (stringValue i))\<lparr>t_list := l\<rparr>)"

inductive type_g :: "token list \<Rightarrow> TypeRef \<Rightarrow> bool" where
  "type_g ts t \<Longrightarrow> type_g ((TOK_BYREF, a) # ts) (t\<lparr>byRef := True\<rparr>)"
| "type_g ts t \<Longrightarrow> type_g ((TOK_SVC_BYRREF, a) # ts) (t\<lparr>svcByRRef := True\<rparr>)"
| "basic_type_g ts t \<Longrightarrow> type_g ts t"

inductive decl_g :: "token list \<Rightarrow> Decl \<Rightarrow> bool" where
  "type_g ts t \<Longrightarrow> decl_g (ts @ [(TOK_IDENT, i)]) \<lparr>d_type = t, d_id = stringValue i\<rparr>"

text \<open>Cases of unions and entries of enumerations.\<close>

inductive cas_g :: "token list \<Rightarrow> string \<times> Decl list \<Rightarrow> bool" where
  "many_g (semi_g decl_g) ts d \<Longrightarrow> cas_g ((TOK_CASE, a) # (TOK_IDENT, i) # (TOK_COLON, b) # ts) (stringValue i, d)"

inductive enum_entry_g :: "token list \<Rightarrow> Entry \<Rightarrow> bool" where
  "enum_entry_g [(TOK_IDENT, i)] \<lparr>en_id = stringValue i, en_str = [], en_iVal = []\<rparr>"
| "enum_entry_g [(TOK_IDENT, i), (TOK_LBRACKET, a), (TOK_STRLIT, s), (TOK_RBRACKET, b)]
     \<lparr>en_id = stringValue i, en_str = stringValue s, en_iVal = []\<rparr>"
| "enum_entry_g [(TOK_IDENT, i), (TOK_EQUALS, c), (TOK_INTEGER, v)]
     \<lparr>en_id = stringValue i, en_str = [], en_iVal = show_int (intValue v)\<rparr>"
| "enum_entry_g [(TOK_IDENT, i), (TOK_LBRACKET, a), (TOK_STRLIT, s), (TOK_RBRACKET, b), (TOK_EQUALS, c), (TOK_INTEGER, v)]
     \<lparr>en_id = stringValue i, en_str = stringValue s, en_iVal = show_int (intValue v)\<rparr>"

inductive optcomma_g :: "token list \<Rightarrow> bool" where
  "optcomma_g [(TOK_COMMA, a)]"
| "optcomma_g []"

text \<open>Definitions. A union without a type gets an enumeration of its cases.\<close>

definition case_enum :: "(string \<times> Decl list) list \<Rightarrow> TypeDef" where
  "case_enum c = EnumDef ''Type'' (map (\<lambda>cas. \<lparr>en_id = fst cas, en_str = [], en_iVal = []\<rparr>) c)"

inductive def_g :: "token list \<Rightarrow> TypeDef \<Rightarrow> bool"
and defs_g :: "token list \<Rightarrow> TypeDef list \<Rightarrow> bool"
and optdefs_g :: "token list \<Rightarrow> TypeDef list \<Rightarrow> bool" where
  def_struct: "optdefs_g ts defs \<Longrightarrow> many_g (semi_g decl_g) ts' d \<Longrightarrow>
    def_g ((TOK_STRUCT, a) # (TOK_IDENT, i) # (TOK_LBRACE, b) # ts @ ts' @ [(TOK_RBRACE, c)]) (StructDef (stringValue i) defs d)"
| def_union_typed: "many_g cas_g ts c \<Longrightarrow>
    def_g ((TOK_UNION, a) # (TOK_IDENT, i) # (TOK_LBRACE, b) # (TOK_TYPE, e) # (TOK_IDENT, tID) # (TOK_SEMI, f) # ts @ [(TOK_RBRACE, h)])
      (UnionDef (stringValue i) [] (new_TypeRef (stringValue tID)) c)"
| def_union: "many_g cas_g ts c \<Longrightarrow>
    def_g ((TOK_UNION, a) # (TOK_IDENT, i) # (TOK_LBRACE, b) # ts @ [(TOK_RBRACE, h)])
      (UnionDef (stringValue i) [case_enum c] (new_TypeRef ''Type'') c)"
| def_enum: "comma_g enum_entry_g ts e \<Longrightarrow> optcomma_g ts' \<Longrightarrow>
    def_g ((TOK_ENUM, a) # (TOK_IDENT, i) # (TOK_LBRACE, b) # ts @ ts' @ [(TOK_RBRACE, c)]) (EnumDef (stringValue i) e)"
| defs_one: "def_g ts d \<Longrightarrow> defs_g (ts @ [(TOK_SEMI, a)]) [d]"
| defs_more: "defs_g ts l \<Longrightarrow> def_g ts' d \<Longrightarrow> defs_g (ts @ ts' @ [(TOK_SEMI, a)]) (l @ [d])"
| optdefs_none: "optdefs_g [] []"
| optdefs_some: "defs_g ts l \<Longrightarrow> optdefs_g ts l"

text \<open>Methods, versions, programs. The number of a method is ignored. The number of a program is the token itself, converted.\<close>

inductive optmethnum_g :: "token list \<Rightarrow> bool" where
  "optmethnum_g []"
| "optmethnum_g [(TOK_EQUALS, a), (TOK_INTEGER, v)]"

inductive method_g :: "token list \<Rightarrow> Method \<Rightarrow> bool" where
  "type_g ts ret \<Longrightarrow> opt_g (comma_g decl_g) ts' args \<Longrightarrow> optmethnum_g ts'' \<Longrightarrow>
    method_g (ts @ (TOK_IDENT, i) # (TOK_LBRACKET, a) # ts' @ (TOK_RBRACKET, b) # ts'')
      \<lparr>me_retType = ret, me_name = stringValue i, me_args = args\<rparr>"

inductive version_g :: "token list \<Rightarrow> Version \<Rightarrow> bool" where
  "many_g (semi_g method_g) ts m \<Longrightarrow>
    version_g ((TOK_VERSION, a) # (TOK_IDENT, i) # (TOK_LBRACE, b) # ts @ [(TOK_RBRACE, c), (TOK_EQUALS, e), (TOK_INTEGER, num)])
      \<lparr>v_num = word_of_int (intValue num), v_name = stringValue i, v_methods = m\<rparr>"

inductive program_g :: "token list \<Rightarrow> Program \<Rightarrow> bool" where
  "optdefs_g ts defs \<Longrightarrow> many_g (semi_g version_g) ts' v \<Longrightarrow>
    program_g ((TOK_PROGRAM, a) # (TOK_IDENT, i) # (TOK_LBRACE, b) # ts @ ts' @ [(TOK_RBRACE, c), (TOK_EQUALS, e), (TOK_INTEGER, num)])
      \<lparr>p_name = stringValue i, p_types = defs, p_num = token_ulong num, p_versions = v\<rparr>"

text \<open>A unit: the names of its imports, its types, its programs. What an import leads to is found by its action.\<close>

inductive import_g :: "token list \<Rightarrow> string \<Rightarrow> bool" where
  "import_g [(TOK_IMPORT, s)] (stringValue s)"

inductive trlunit_g :: "token list \<Rightarrow> string list \<times> TypeDef list \<times> Program list \<Rightarrow> bool" where
  "opt_g (many_g import_g) ts i \<Longrightarrow> optdefs_g ts' t \<Longrightarrow> opt_g (many_g (semi_g program_g)) ts'' d \<Longrightarrow>
    trlunit_g (ts @ ts' @ ts'') (i, t, d)"

section \<open>Reading with one token of look-ahead\<close>

type_synonym 'a parser = "token list \<Rightarrow> ('a \<times> token list) option"

definition looks_at :: "tok set \<Rightarrow> token list \<Rightarrow> bool" where
  "looks_at T ts = (case ts of [] \<Rightarrow> False | (k, v) # _ \<Rightarrow> k \<in> T)"

definition p_tok :: "tok \<Rightarrow> Token parser" where
  "p_tok k ts = (case ts of [] \<Rightarrow> None | (k', v) # ts' \<Rightarrow> if k' = k then Some (v, ts') else None)"

definition p_bind :: "'a parser \<Rightarrow> ('a \<Rightarrow> 'b parser) \<Rightarrow> 'b parser" where
  "p_bind p f ts = (case p ts of None \<Rightarrow> None | Some (x, ts') \<Rightarrow> f x ts')"

definition p_ret :: "'a \<Rightarrow> 'a parser" where
  "p_ret x ts = Some (x, ts)"

fun p_toks :: "tok list \<Rightarrow> Token list parser" where
  "p_toks [] = p_ret []"
| "p_toks (k # ks) = p_bind (p_tok k) (\<lambda>v. p_bind (p_toks ks) (\<lambda>vs. p_ret (v # vs)))"

text \<open>Elements as long as the next token can begin one; the length of the text is enough fuel.\<close>

fun p_many0 :: "nat \<Rightarrow> tok set \<Rightarrow> 'a parser \<Rightarrow> 'a list parser" where
  "p_many0 n T p ts =
     (if looks_at T ts then
        (case n of
           0 \<Rightarrow> None
         | Suc m \<Rightarrow> p_bind p (\<lambda>x. p_bind (p_many0 m T p) (\<lambda>xs. p_ret (x # xs))) ts)
      else Some ([], ts))"

definition p_many :: "nat \<Rightarrow> tok set \<Rightarrow> 'a parser \<Rightarrow> 'a list parser" where
  "p_many n T p = p_bind p (\<lambda>x. p_bind (p_many0 n T p) (\<lambda>xs. p_ret (x # xs)))"

definition p_semi :: "'a parser \<Rightarrow> 'a parser" where
  "p_semi p = p_bind p (\<lambda>x. p_bind (p_tok TOK_SEMI) (\<lambda>_. p_ret x))"

text \<open>Elements behind commas, as long as \<open>again\<close> sees one coming.\<close>

fun p_comma0 :: "nat \<Rightarrow> (token list \<Rightarrow> bool) \<Rightarrow> 'a parser \<Rightarrow> 'a list parser" where
  "p_comma0 n again p ts =
     (if again ts then
        (case n of
           0 \<Rightarrow> None
         | Suc m \<Rightarrow> p_bind (p_tok TOK_COMMA) (\<lambda>_. p_bind p (\<lambda>x. p_bind (p_comma0 m again p) (\<lambda>xs. p_ret (x # xs)))) ts)
      else Some ([], ts))"

definition p_comma :: "nat \<Rightarrow> (token list \<Rightarrow> bool) \<Rightarrow> 'a parser \<Rightarrow> 'a list parser" where
  "p_comma n again p = p_bind p (\<lambda>x. p_bind (p_comma0 n again p) (\<lambda>xs. p_ret (x # xs)))"

definition p_opt_list :: "bool parser" where
  "p_opt_list ts = (if looks_at {TOK_LCARET} ts then p_bind (p_toks [TOK_LCARET, TOK_RCARET]) (\<lambda>_. p_ret True) ts else Some (False, ts))"

fun p_type :: "TypeRef parser" where
  "p_type [] = None"
| "p_type ((k, v) # ts) =
     (if k = TOK_BYREF then map_option (\<lambda>(t, r). (t\<lparr>byRef := True\<rparr>, r)) (p_type ts)
      else if k = TOK_SVC_BYRREF then map_option (\<lambda>(t, r). (t\<lparr>svcByRRef := True\<rparr>, r)) (p_type ts)
      else if k = TOK_IDENT then p_bind p_opt_list (\<lambda>l. p_ret ((new_TypeRef (stringValue v))\<lparr>t_list := l\<rparr>)) ts
      else None)"

definition type_first :: "tok set" where
  "type_first = {TOK_BYREF, TOK_SVC_BYRREF, TOK_IDENT}"

definition p_decl :: "Decl parser" where
  "p_decl = p_bind p_type (\<lambda>t. p_bind (p_tok TOK_IDENT) (\<lambda>i. p_ret \<lparr>d_type = t, d_id = stringValue i\<rparr>))"

definition p_decls_semis :: "nat \<Rightarrow> Decl list parser" where
  "p_decls_semis n = p_many n type_first (p_semi p_decl)"

definition p_cas :: "nat \<Rightarrow> (string \<times> Decl list) parser" where
  "p_cas n = p_bind (p_toks [TOK_CASE, TOK_IDENT, TOK_COLON]) (\<lambda>vs. p_bind (p_decls_semis n) (\<lambda>d. p_ret (stringValue (vs ! 1), d)))"

definition p_entry :: "Entry parser" where
  "p_entry =
     p_bind (p_tok TOK_IDENT) (\<lambda>i.
     p_bind (\<lambda>ts. if looks_at {TOK_LBRACKET} ts
                  then p_bind (p_toks [TOK_LBRACKET, TOK_STRLIT, TOK_RBRACKET]) (\<lambda>vs. p_ret (stringValue (vs ! 1))) ts
                  else Some ([], ts)) (\<lambda>str.
     p_bind (\<lambda>ts. if looks_at {TOK_EQUALS} ts
                  then p_bind (p_toks [TOK_EQUALS, TOK_INTEGER]) (\<lambda>vs. p_ret (show_int (intValue (vs ! 1)))) ts
                  else Some ([], ts)) (\<lambda>iVal.
     p_ret \<lparr>en_id = stringValue i, en_str = str, en_iVal = iVal\<rparr>)))"

definition more_entries :: "token list \<Rightarrow> bool" where
  "more_entries ts = (looks_at {TOK_COMMA} ts \<and> looks_at {TOK_IDENT} (tl ts))"

definition p_optcomma :: "unit parser" where
  "p_optcomma ts = (if looks_at {TOK_COMMA} ts then Some ((), tl ts) else Some ((), ts))"

definition def_first :: "tok set" where
  "def_first = {TOK_STRUCT, TOK_UNION, TOK_ENUM}"

fun p_def :: "nat \<Rightarrow> TypeDef parser" where
  "p_def 0 ts = None"
| "p_def (Suc n) ts =
     (if looks_at {TOK_STRUCT} ts then
        p_bind (p_toks [TOK_STRUCT, TOK_IDENT, TOK_LBRACE]) (\<lambda>vs.
        p_bind (p_many0 n def_first (p_semi (p_def n))) (\<lambda>defs.
        p_bind (p_decls_semis n) (\<lambda>d.
        p_bind (p_tok TOK_RBRACE) (\<lambda>_. p_ret (StructDef (stringValue (vs ! 1)) defs d))))) ts
      else if looks_at {TOK_UNION} ts then
        p_bind (p_toks [TOK_UNION, TOK_IDENT, TOK_LBRACE]) (\<lambda>vs ts1.
          if looks_at {TOK_TYPE} ts1 then
            p_bind (p_toks [TOK_TYPE, TOK_IDENT, TOK_SEMI]) (\<lambda>ws.
            p_bind (p_many n {TOK_CASE} (p_cas n)) (\<lambda>c.
            p_bind (p_tok TOK_RBRACE) (\<lambda>_. p_ret (UnionDef (stringValue (vs ! 1)) [] (new_TypeRef (stringValue (ws ! 1))) c)))) ts1
          else
            p_bind (p_many n {TOK_CASE} (p_cas n)) (\<lambda>c.
            p_bind (p_tok TOK_RBRACE) (\<lambda>_. p_ret (UnionDef (stringValue (vs ! 1)) [case_enum c] (new_TypeRef ''Type'') c))) ts1) ts
      else
        p_bind (p_toks [TOK_ENUM, TOK_IDENT, TOK_LBRACE]) (\<lambda>vs.
        p_bind (p_comma n more_entries p_entry) (\<lambda>e.
        p_bind p_optcomma (\<lambda>_.
        p_bind (p_tok TOK_RBRACE) (\<lambda>_. p_ret (EnumDef (stringValue (vs ! 1)) e))))) ts)"

definition p_optdefs :: "nat \<Rightarrow> TypeDef list parser" where
  "p_optdefs n = p_many0 n def_first (p_semi (p_def n))"

definition p_optargs :: "nat \<Rightarrow> Decl list parser" where
  "p_optargs n ts = (if looks_at type_first ts then p_comma n (looks_at {TOK_COMMA}) p_decl ts else Some ([], ts))"

definition p_optmethnum :: "unit parser" where
  "p_optmethnum ts = (if looks_at {TOK_EQUALS} ts then p_bind (p_toks [TOK_EQUALS, TOK_INTEGER]) (\<lambda>_. p_ret ()) ts else Some ((), ts))"

definition p_method :: "nat \<Rightarrow> Method parser" where
  "p_method n =
     p_bind p_type (\<lambda>ret. p_bind (p_toks [TOK_IDENT, TOK_LBRACKET]) (\<lambda>vs. p_bind (p_optargs n) (\<lambda>args.
     p_bind (p_tok TOK_RBRACKET) (\<lambda>_. p_bind p_optmethnum (\<lambda>_.
     p_ret \<lparr>me_retType = ret, me_name = stringValue (vs ! 0), me_args = args\<rparr>)))))"

definition p_version :: "nat \<Rightarrow> Version parser" where
  "p_version n =
     p_bind (p_toks [TOK_VERSION, TOK_IDENT, TOK_LBRACE]) (\<lambda>vs. p_bind (p_many n type_first (p_semi (p_method n))) (\<lambda>m.
     p_bind (p_toks [TOK_RBRACE, TOK_EQUALS, TOK_INTEGER]) (\<lambda>ws.
     p_ret \<lparr>v_num = word_of_int (intValue (ws ! 2)), v_name = stringValue (vs ! 1), v_methods = m\<rparr>)))"

definition p_program :: "nat \<Rightarrow> Program parser" where
  "p_program n =
     p_bind (p_toks [TOK_PROGRAM, TOK_IDENT, TOK_LBRACE]) (\<lambda>vs. p_bind (p_optdefs n) (\<lambda>defs.
     p_bind (p_many n {TOK_VERSION} (p_semi (p_version n))) (\<lambda>v. p_bind (p_toks [TOK_RBRACE, TOK_EQUALS, TOK_INTEGER]) (\<lambda>ws.
     p_ret \<lparr>p_name = stringValue (vs ! 1), p_types = defs, p_num = token_ulong (ws ! 2), p_versions = v\<rparr>))))"

definition p_import :: "string parser" where
  "p_import = p_bind (p_tok TOK_IMPORT) (\<lambda>s. p_ret (stringValue s))"

definition p_trlunit :: "nat \<Rightarrow> (string list \<times> TypeDef list \<times> Program list) parser" where
  "p_trlunit n =
     p_bind (p_many0 n {TOK_IMPORT} p_import) (\<lambda>i. p_bind (p_optdefs n) (\<lambda>t.
     p_bind (p_many0 n {TOK_PROGRAM} (p_semi (p_program n))) (\<lambda>d. p_ret (i, t, d))))"

definition parse_tokens :: "token list \<Rightarrow> (string list \<times> TypeDef list \<times> Program list) option" where
  "parse_tokens ts = (case p_trlunit (length ts) ts of Some (u, []) \<Rightarrow> Some u | _ \<Rightarrow> None)"

section \<open>Files\<close>

text \<open>
  The ways in which reading a file ends: with a unit, with an exception because the file cannot be opened, in the \<open>abort\<close> of
  an import that is not found, with a text that the scanner or the parser does not accept, or not within the fuel, which bounds the
  nesting of imports.
\<close>

datatype idl_result = Parsed trlunit | NoFile | ImportAborted string | BadText string | TooDeep

text \<open>The loop over the directories goes on after a success. The name is put behind the directory as it is.\<close>

fun try_dirs :: "(string \<Rightarrow> idl_result) \<Rightarrow> string \<Rightarrow> string list \<Rightarrow> idl_result \<Rightarrow> idl_result" where
  "try_dirs pf nm [] found = found"
| "try_dirs pf nm (dir # dirs) found =
     (case pf (dir @ nm) of
        NoFile \<Rightarrow> try_dirs pf nm dirs found
      | Parsed u \<Rightarrow> try_dirs pf nm dirs (Parsed u)
      | r \<Rightarrow> r)"

definition import_action :: "(string \<Rightarrow> idl_result) \<Rightarrow> string list \<Rightarrow> string \<Rightarrow> idl_result" where
  "import_action pf dirs nm =
     (case pf nm of
        NoFile \<Rightarrow> (case try_dirs pf nm dirs NoFile of NoFile \<Rightarrow> ImportAborted nm | r \<Rightarrow> r)
      | r \<Rightarrow> r)"

fun import_all :: "(string \<Rightarrow> idl_result) \<Rightarrow> string list \<Rightarrow> string list \<Rightarrow> idl_result + trlunit list" where
  "import_all pf dirs [] = Inr []"
| "import_all pf dirs (nm # nms) =
     (case import_action pf dirs nm of
        Parsed u \<Rightarrow> (case import_all pf dirs nms of Inr us \<Rightarrow> Inr (u # us) | Inl r \<Rightarrow> Inl r)
      | r \<Rightarrow> Inl r)"

text \<open>\<open>parseFile\<close>: \<open>files\<close> gives the text of a file that can be opened. The scanner reads up to the first NUL.\<close>

definition parse_text :: "string \<Rightarrow> string list \<Rightarrow> string \<Rightarrow> (string \<times> string list \<times> TypeDef list \<times> Program list) option" where
  "parse_text nm dirs src =
     (case mvstlex (takeWhile (\<lambda>c. c \<noteq> CHR 0x00) src) (new_MVST_Parser nm src dirs) of
        None \<Rightarrow> None
      | Some (ts, code, p) \<Rightarrow> map_option (Pair code) (parse_tokens (map fst ts)))"

fun parseFile :: "(string \<Rightarrow> string option) \<Rightarrow> nat \<Rightarrow> string list \<Rightarrow> string \<Rightarrow> idl_result" where
  "parseFile files 0 dirs nm = TooDeep"
| "parseFile files (Suc n) dirs nm =
     (case files nm of
        None \<Rightarrow> NoFile
      | Some src \<Rightarrow>
          (case parse_text nm dirs src of
             None \<Rightarrow> BadText nm
           | Some (code, imports, types, programs) \<Rightarrow>
               (case import_all (parseFile files n dirs) dirs imports of
                  Inl r \<Rightarrow> r
                | Inr us \<Rightarrow> Parsed (TrlUnit nm code us types programs))))"

end
