(* ===== verification/Idl_Parser_Props.thy ===== *)
theory Idl_Parser_Props
  imports Idl_Parser
begin

text \<open>
  The functions that read the interface language agree with its grammar. The locale \<open>reads\<close> is the contract between a reading function and a nonterminal.
\<close>

section \<open>A function that reads a nonterminal\<close>

text \<open>
  \<open>T\<close> are the tokens that the nonterminal can begin with, \<open>F\<close> says what may follow it, and \<open>n\<close> bounds the
  length of the text.
\<close>

locale reads =
  fixes n :: nat and p :: "'a parser" and g :: "token list \<Rightarrow> 'a \<Rightarrow> bool" and T :: "tok set" and F :: "token list \<Rightarrow> bool"
  assumes sound: "p ts = Some (v, rest) \<Longrightarrow> \<exists>us. ts = us @ rest \<and> g us v"
    and complete: "g us v \<Longrightarrow> F rest \<Longrightarrow> length (us @ rest) \<le> n \<Longrightarrow> p (us @ rest) = Some (v, rest)"
    and starts: "g us v \<Longrightarrow> looks_at T (us @ rest)"

lemma p_simps [simp]:
  "p_ret x ts = Some (x, ts)"
  "p_tok k ((k', v) # ts) = (if k' = k then Some (v, ts) else None)" "p_tok k [] = None"
  "looks_at T ((k, v) # ts) = (k \<in> T)" "looks_at T [] = False"
  by (simp_all add: p_ret_def p_tok_def looks_at_def)

lemma p_tok_Some: "p_tok k ts = Some (v, rest) \<longleftrightarrow> ts = (k, v) # rest"
  by (auto simp: p_tok_def split: list.splits prod.splits if_splits)

lemma p_bind_Some: "p_bind p f ts = Some (x, rest) \<longleftrightarrow> (\<exists>y ts'. p ts = Some (y, ts') \<and> f y ts' = Some (x, rest))"
  by (auto simp: p_bind_def split: option.splits)

lemma p_bind_eq: "p ts = Some (y, ts') \<Longrightarrow> p_bind p f ts = f y ts'"
  by (simp add: p_bind_def)

lemma p_toks_Some:
  "p_toks ks ts = Some (vs, rest) \<longleftrightarrow> length vs = length ks \<and> ts = zip ks vs @ rest"
proof (induction ks arbitrary: ts vs)
  case (Cons k ks)
  then show ?case by (cases vs) (auto simp: p_bind_Some p_tok_Some)
qed auto

text \<open>Lists of elements.\<close>

lemma many_g_Cons: "many_g g us l \<Longrightarrow> g ts d \<Longrightarrow> many_g g (ts @ us) (d # l)"
proof (induction rule: many_g.induct)
  case (1 us d')
  then show ?case using many_g.intros(2) [OF many_g.intros(1), of g ts d us d'] by simp
next
  case (2 us l us' d')
  then show ?case using many_g.intros(2) [of g "ts @ us" "d # l" us' d'] by simp
qed

lemma opt_many_Cons: "opt_g (many_g g) us l \<Longrightarrow> g ts d \<Longrightarrow> opt_g (many_g g) (ts @ us) (d # l)"
proof (induction rule: opt_g.induct)
  case 1
  then show ?case by (simp add: opt_g.intros many_g.intros)
next
  case (2 us l)
  then show ?case by (intro opt_g.intros(2) many_g_Cons)
qed

lemma many_g_list: "many_g g us l \<longleftrightarrow> l \<noteq> [] \<and> (\<exists>uss. us = concat uss \<and> list_all2 g uss l)"
proof
  show "many_g g us l \<Longrightarrow> l \<noteq> [] \<and> (\<exists>uss. us = concat uss \<and> list_all2 g uss l)"
  proof (induction rule: many_g.induct)
    case (1 ts d)
    then show ?case by (intro conjI exI [of _ "[ts]"]) auto
  next
    case (2 ts l ts' d)
    then obtain uss where "ts = concat uss" "list_all2 g uss l" by auto
    with 2 show ?case by (intro conjI exI [of _ "uss @ [ts']"]) (auto intro: list_all2_appendI)
  qed
  have "list_all2 g uss l \<Longrightarrow> opt_g (many_g g) (concat uss) l" for uss
    by (induction uss l rule: list_all2_induct) (auto intro: opt_g.intros opt_many_Cons)
  then show "l \<noteq> [] \<and> (\<exists>uss. us = concat uss \<and> list_all2 g uss l) \<Longrightarrow> many_g g us l"
    by (auto elim: opt_g.cases)
qed

lemma opt_many_list: "opt_g (many_g g) us l \<longleftrightarrow> (\<exists>uss. us = concat uss \<and> list_all2 g uss l)"
proof (cases "l = []")
  case True
  have "\<not> many_g g us []" by (simp add: many_g_list)
  with True show ?thesis by (auto elim: opt_g.cases intro: opt_g.intros)
next
  case False
  then have "opt_g (many_g g) us l \<longleftrightarrow> many_g g us l" by (auto elim: opt_g.cases intro: opt_g.intros)
  with False show ?thesis by (simp add: many_g_list)
qed

lemma comma_g_Cons: "comma_g g us l \<Longrightarrow> g ts d \<Longrightarrow> comma_g g (ts @ (TOK_COMMA, a) # us) (d # l)"
proof (induction rule: comma_g.induct)
  case (1 us d')
  then show ?case using comma_g.intros(2) [OF comma_g.intros(1), of g ts d us d' a] by simp
next
  case (2 us l us' d' b)
  then show ?case using comma_g.intros(2) [of g "ts @ (TOK_COMMA, a) # us" "d # l" us' d' b] by simp
qed

lemma comma_g_list:
  "comma_g g us l \<longleftrightarrow> (\<exists>u uss d ds. us = u @ concat (map (\<lambda>(a, w). (TOK_COMMA, a) # w) uss) \<and> l = d # ds \<and> g u d \<and>
     list_all2 (\<lambda>(a, w). g w) uss ds)"
proof
  show "comma_g g us l \<Longrightarrow> \<exists>u uss d ds. us = u @ concat (map (\<lambda>(a, w). (TOK_COMMA, a) # w) uss) \<and> l = d # ds \<and> g u d \<and>
     list_all2 (\<lambda>(a, w). g w) uss ds"
  proof (induction rule: comma_g.induct)
    case (1 ts d)
    then show ?case by (intro exI [of _ ts] exI [of _ "[]"] exI [of _ d]) simp
  next
    case (2 ts l ts' d' a)
    then obtain u uss d ds where "ts = u @ concat (map (\<lambda>(a, w). (TOK_COMMA, a) # w) uss)" "l = d # ds" "g u d"
        "list_all2 (\<lambda>(a, w). g w) uss ds" by blast
    with 2(2) show ?case
      by (intro exI [of _ u] exI [of _ "uss @ [(a, ts')]"] exI [of _ d] exI [of _ "ds @ [d']"]) (auto intro!: list_all2_appendI)
  qed
  have "list_all2 (\<lambda>(a, w). g w) uss ds \<Longrightarrow> g u d \<Longrightarrow> comma_g g (u @ concat (map (\<lambda>(a, w). (TOK_COMMA, a) # w) uss)) (d # ds)" for u uss d ds
  proof (induction uss ds arbitrary: u d rule: list_all2_induct)
    case (Cons x xs y ys)
    then show ?case by (cases x) (auto intro: comma_g_Cons)
  qed (simp add: comma_g.intros)
  then show "\<exists>u uss d ds. us = u @ concat (map (\<lambda>(a, w). (TOK_COMMA, a) # w) uss) \<and> l = d # ds \<and> g u d \<and>
     list_all2 (\<lambda>(a, w). g w) uss ds \<Longrightarrow> comma_g g us l" by blast
qed

declare p_many0.simps [simp del] p_comma0.simps [simp del]

lemma many0_stop: "\<not> looks_at T ts \<Longrightarrow> p_many0 m T p ts = Some ([], ts)"
  by (simp add: p_many0.simps)

lemma comma0_stop: "\<not> again ts \<Longrightarrow> p_comma0 m again p ts = Some ([], ts)"
  by (simp add: p_comma0.simps)

context reads
begin

lemma many0_sound: "p_many0 m T p ts = Some (l, rest) \<Longrightarrow> \<exists>us. ts = us @ rest \<and> opt_g (many_g g) us l"
proof (induction m arbitrary: ts l)
  case 0
  then show ?case by (auto simp: p_many0.simps opt_g.intros split: if_splits)
next
  case (Suc m)
  show ?case
  proof (cases "looks_at T ts")
    case True
    then obtain x ts1 xs where step: "p ts = Some (x, ts1)" "p_many0 m T p ts1 = Some (xs, rest)" "l = x # xs"
      using Suc.prems by (auto simp: p_many0.simps [of "Suc m"] p_bind_Some)
    obtain us1 us2 where us: "ts = us1 @ ts1" "g us1 x" "ts1 = us2 @ rest" "opt_g (many_g g) us2 xs"
      using sound [OF step(1)] Suc.IH [OF step(2)] by blast
    then show ?thesis using opt_many_Cons [OF us(4), of us1 x] step(3) by (intro exI [of _ "us1 @ us2"]) simp
  next
    case False
    with Suc.prems show ?thesis by (auto simp: p_many0.simps opt_g.intros)
  qed
qed

lemma many0_complete:
  assumes "opt_g (many_g g) us l" "\<not> looks_at T rest" "F rest" "\<And>ts. looks_at T ts \<Longrightarrow> F ts" "length (us @ rest) \<le> m" "m \<le> n"
  shows "p_many0 m T p (us @ rest) = Some (l, rest)"
proof -
  obtain uss where uss: "us = concat uss" "list_all2 g uss l" using assms(1) by (auto simp: opt_many_list)
  have "p_many0 m T p (concat uss @ rest) = Some (l, rest)" using uss(2) assms(5,6) unfolding uss(1)
  proof (induction uss l arbitrary: m rule: list_all2_induct)
    case Nil
    then show ?case using assms(2) by (simp add: many0_stop)
  next
    case (Cons u uss x xs)
    have u: "looks_at T (u @ concat uss @ rest)" "u \<noteq> []" using starts [OF Cons(1)] starts [OF Cons(1), of "[]"] by auto
    obtain m' where m: "m = Suc m'" using Cons.prems u(2) by (cases m) auto
    have "F (concat uss @ rest)" using Cons(2) assms(3,4) by (cases uss) (auto simp: starts list_all2_Cons1)
    then have "p (u @ concat uss @ rest) = Some (x, concat uss @ rest)" using Cons.prems by (intro complete [OF Cons(1)]) auto
    moreover have "p_many0 m' T p (concat uss @ rest) = Some (xs, rest)"
      using Cons.prems u(2) m by (intro Cons.IH) (cases u; auto)+
    ultimately show ?case using u(1) m by (simp add: p_many0.simps [of "Suc m'"] p_bind_eq)
  qed
  then show ?thesis by (simp add: uss(1))
qed

lemma many_reads:
  assumes "\<And>ts. looks_at T ts \<Longrightarrow> F ts"
  shows "reads n (p_many n T p) (many_g g) T (\<lambda>ts. F ts \<and> \<not> looks_at T ts)"
proof
  fix ts v rest
  assume "p_many n T p ts = Some (v, rest)"
  then obtain x ts1 xs where step: "p ts = Some (x, ts1)" "p_many0 n T p ts1 = Some (xs, rest)" "v = x # xs"
    by (auto simp: p_many_def p_bind_Some)
  obtain us1 us2 where us: "ts = us1 @ ts1" "g us1 x" "ts1 = us2 @ rest" "opt_g (many_g g) us2 xs"
    using sound [OF step(1)] many0_sound [OF step(2)] by blast
  have "many_g g (us1 @ us2) v"
    using opt_many_Cons [OF us(4,2)] step(3) by (auto elim: opt_g.cases)
  then show "\<exists>us. ts = us @ rest \<and> many_g g us v" using us by (intro exI [of _ "us1 @ us2"]) simp
next
  fix us v rest
  assume a: "many_g g us v" "F rest \<and> \<not> looks_at T rest" "length (us @ rest) \<le> n"
  then obtain u uss x xs where u: "us = u @ concat uss" "v = x # xs" "g u x" "list_all2 g uss xs"
    by (auto simp: many_g_list list_all2_Cons2 neq_Nil_conv)
  have "opt_g (many_g g) (concat uss) xs" using u(4) by (auto simp: opt_many_list)
  then have "p_many0 n T p (concat uss @ rest) = Some (xs, rest)"
    using a(2,3) assms u(1) by (intro many0_complete) auto
  moreover have "F (concat uss @ rest)" using u(4) a(2) assms by (cases uss) (auto simp: starts list_all2_Cons1)
  then have "p (u @ concat uss @ rest) = Some (x, concat uss @ rest)" using a(3) u(1) by (intro complete [OF u(3)]) auto
  ultimately show "p_many n T p (us @ rest) = Some (v, rest)" by (simp add: p_many_def p_bind_eq u)
next
  fix us v rest
  assume "many_g g us v"
  then show "looks_at T (us @ rest)" by (auto simp: many_g_list list_all2_Cons2 neq_Nil_conv starts)
qed

lemma semi_reads:
  assumes "\<And>a ts. F ((TOK_SEMI, a) # ts)"
  shows "reads n (p_semi p) (semi_g g) T (\<lambda>_. True)"
proof
  fix ts v rest
  assume "p_semi p ts = Some (v, rest)"
  then obtain a where "p ts = Some (v, (TOK_SEMI, a) # rest)" by (auto simp: p_semi_def p_bind_Some p_tok_Some)
  from sound [OF this] obtain us where us: "ts = us @ (TOK_SEMI, a) # rest" "g us v" by blast
  from semi_g.intros [of g us v a] us show "\<exists>us. ts = us @ rest \<and> semi_g g us v"
    by (intro exI [of _ "us @ [(TOK_SEMI, a)]"]) simp
next
  fix us v rest
  assume "semi_g g us v" "length (us @ rest) \<le> n"
  then show "p_semi p (us @ rest) = Some (v, rest)"
    by (auto elim!: semi_g.cases simp: p_semi_def complete assms p_bind_eq)
next
  fix us v rest
  assume "semi_g g us v"
  then show "looks_at T (us @ rest)" by (auto elim!: semi_g.cases simp: starts)
qed

lemma comma0_sound:
  "p_comma0 m again p ts = Some (l, rest) \<Longrightarrow>
     \<exists>uss. ts = concat (map (\<lambda>(a, w). (TOK_COMMA, a) # w) uss) @ rest \<and> list_all2 (\<lambda>(a, w). g w) uss l"
proof (induction m arbitrary: ts l)
  case 0
  then show ?case by (auto simp: p_comma0.simps split: if_splits intro: exI [of _ "[]"])
next
  case (Suc m)
  show ?case
  proof (cases "again ts")
    case True
    then obtain a ts0 x ts1 xs where step: "ts = (TOK_COMMA, a) # ts0" "p ts0 = Some (x, ts1)" "p_comma0 m again p ts1 = Some (xs, rest)"
        "l = x # xs"
      using Suc.prems by (auto simp: p_comma0.simps [of "Suc m"] p_bind_Some p_tok_Some)
    obtain u uss where "ts0 = u @ ts1" "g u x" "ts1 = concat (map (\<lambda>(a, w). (TOK_COMMA, a) # w) uss) @ rest"
        "list_all2 (\<lambda>(a, w). g w) uss xs"
      using sound [OF step(2)] Suc.IH [OF step(3)] by blast
    with step show ?thesis by (intro exI [of _ "(a, u) # uss"]) simp
  next
    case False
    with Suc.prems show ?thesis by (auto simp: comma0_stop intro: exI [of _ "[]"])
  qed
qed

lemma comma0_complete:
  assumes "list_all2 (\<lambda>(a, w). g w) uss l" "\<not> again rest" "F rest"
    and "\<And>a ts. looks_at T ts \<Longrightarrow> again ((TOK_COMMA, a) # ts)" "\<And>a ts. F ((TOK_COMMA, a) # ts)"
    and "length (concat (map (\<lambda>(a, w). (TOK_COMMA, a) # w) uss) @ rest) \<le> m" "m \<le> n"
  shows "p_comma0 m again p (concat (map (\<lambda>(a, w). (TOK_COMMA, a) # w) uss) @ rest) = Some (l, rest)"
  using assms(1,6,7)
proof (induction uss l arbitrary: m rule: list_all2_induct)
  case Nil
  then show ?case using assms(2) by (simp add: comma0_stop)
next
  case (Cons aw uss x xs)
  obtain a w where aw: "aw = (a, w)" by (cases aw)
  let ?tl = "concat (map (\<lambda>(a, w). (TOK_COMMA, a) # w) uss) @ rest"
  have g: "g w x" using Cons(1) aw by simp
  obtain m' where m: "m = Suc m'" using Cons.prems aw by (cases m) auto
  have "F ?tl" using assms(3,5) by (cases uss) auto
  then have "p (w @ ?tl) = Some (x, ?tl)" using Cons.prems aw by (intro complete [OF g]) auto
  moreover have "p_comma0 m' again p ?tl = Some (xs, rest)" using Cons.prems aw m by (intro Cons.IH) auto
  ultimately show ?case
    using assms(4) [OF starts [OF g, of ?tl]] aw m by (simp add: p_comma0.simps [of "Suc m'"] p_bind_eq)
qed

lemma comma_reads:
  assumes "\<And>a ts. looks_at T ts \<Longrightarrow> again ((TOK_COMMA, a) # ts)" "\<And>a ts. F ((TOK_COMMA, a) # ts)"
  shows "reads n (p_comma n again p) (comma_g g) T (\<lambda>ts. F ts \<and> \<not> again ts)"
proof
  fix ts v rest
  assume "p_comma n again p ts = Some (v, rest)"
  then obtain x ts1 xs where step: "p ts = Some (x, ts1)" "p_comma0 n again p ts1 = Some (xs, rest)" "v = x # xs"
    by (auto simp: p_comma_def p_bind_Some)
  obtain us uss where us: "ts = us @ ts1" "g us x" "ts1 = concat (map (\<lambda>(a, w). (TOK_COMMA, a) # w) uss) @ rest"
      "list_all2 (\<lambda>(a, w). g w) uss xs"
    using sound [OF step(1)] comma0_sound [OF step(2)] by blast
  then have "comma_g g (us @ concat (map (\<lambda>(a, w). (TOK_COMMA, a) # w) uss)) v" using step(3) by (auto simp: comma_g_list)
  then show "\<exists>us. ts = us @ rest \<and> comma_g g us v" using us by (intro exI conjI) simp_all
next
  fix us v rest
  assume a: "comma_g g us v" "F rest \<and> \<not> again rest" "length (us @ rest) \<le> n"
  then obtain u uss x xs where u: "us = u @ concat (map (\<lambda>(a, w). (TOK_COMMA, a) # w) uss)" "v = x # xs" "g u x"
      "list_all2 (\<lambda>(a, w). g w) uss xs" by (auto simp: comma_g_list)
  let ?tl = "concat (map (\<lambda>(a, w). (TOK_COMMA, a) # w) uss) @ rest"
  have "p_comma0 n again p ?tl = Some (xs, rest)" using a(2,3) assms u(1,4) by (intro comma0_complete) auto
  moreover have "F ?tl" using a(2) assms(2) by (cases uss) auto
  then have "p (u @ ?tl) = Some (x, ?tl)" using a(3) u(1) by (intro complete [OF u(3)]) auto
  ultimately show "p_comma n again p (us @ rest) = Some (v, rest)" by (simp add: p_comma_def p_bind_eq u)
next
  fix us v rest
  assume "comma_g g us v"
  then show "looks_at T (us @ rest)" by (auto simp: comma_g_list starts)
qed

end

section \<open>The nonterminals\<close>

lemma opt_list_sound: "p_opt_list ts = Some (l, rest) \<Longrightarrow> \<exists>us. ts = us @ rest \<and> opt_list_g us l"
  by (auto simp: p_opt_list_def p_bind_Some p_tok_Some opt_list_g.simps split: if_splits)

lemma opt_list_complete: "opt_list_g us l \<Longrightarrow> \<not> looks_at {TOK_LCARET} rest \<Longrightarrow> p_opt_list (us @ rest) = Some (l, rest)"
  by (auto simp: p_opt_list_def opt_list_g.simps p_bind_def)

interpretation type: reads n p_type type_g type_first "\<lambda>ts. \<not> looks_at {TOK_LCARET} ts" for n
proof
  fix ts v rest
  assume "p_type ts = Some (v, rest)"
  then show "\<exists>us. ts = us @ rest \<and> type_g us v"
  proof (induction ts arbitrary: v rule: p_type.induct)
    case (2 k t ts)
    consider (byref) "k = TOK_BYREF" | (svc) "k = TOK_SVC_BYRREF" | (ident) "k = TOK_IDENT"
      using "2.prems" by (auto split: if_splits)
    then show ?case
    proof cases
      case byref
      with 2 show ?thesis using type_g.intros(1) by fastforce
    next
      case svc
      with 2 show ?thesis using type_g.intros(2) by fastforce
    next
      case ident
      with "2.prems" obtain l where l: "p_opt_list ts = Some (l, rest)" "v = (new_TypeRef (stringValue t))\<lparr>t_list := l\<rparr>"
        by (auto simp: p_bind_Some)
      from opt_list_sound [OF l(1)] l(2) ident show ?thesis
        by (metis append_Cons basic_type_g.intros type_g.intros(3))
    qed
  qed simp
next
  fix us v rest
  assume "type_g us v" "\<not> looks_at {TOK_LCARET} rest"
  then show "p_type (us @ rest) = Some (v, rest)"
    by (induction rule: type_g.induct) (auto elim!: basic_type_g.cases simp: opt_list_complete p_bind_def)
next
  fix us v rest
  assume "type_g us v"
  then show "looks_at type_first (us @ rest)"
    by (induction rule: type_g.induct) (auto elim!: basic_type_g.cases simp: type_first_def)
qed

lemma p_type_complete: "type_g us t \<Longrightarrow> \<not> looks_at {TOK_LCARET} rest \<Longrightarrow> p_type (us @ rest) = Some (t, rest)"
  by (rule type.complete [OF _ _ order_refl])

interpretation decl: reads n p_decl decl_g type_first "\<lambda>_. True" for n
proof
  fix ts v rest
  assume "p_decl ts = Some (v, rest)"
  then obtain t i where t: "p_type ts = Some (t, (TOK_IDENT, i) # rest)" "v = \<lparr>d_type = t, d_id = stringValue i\<rparr>"
    by (auto simp: p_decl_def p_bind_Some p_tok_Some)
  obtain us where us: "ts = us @ (TOK_IDENT, i) # rest" "type_g us t" using type.sound [OF t(1)] by blast
  with decl_g.intros [OF us(2), of i] t(2) show "\<exists>us. ts = us @ rest \<and> decl_g us v"
    by (intro exI [of _ "us @ [(TOK_IDENT, i)]"]) simp
next
  fix us v and rest :: "token list"
  assume "decl_g us v"
  then show "p_decl (us @ rest) = Some (v, rest)"
    by (auto elim!: decl_g.cases simp: p_decl_def p_bind_def p_type_complete)
next
  fix us v rest
  assume "decl_g us v"
  then show "looks_at type_first (us @ rest)" by (auto elim!: decl_g.cases simp: type.starts)
qed

lemma decls_reads: "reads n (p_decls_semis n) (many_g (semi_g decl_g)) type_first (\<lambda>ts. \<not> looks_at type_first ts)"
  using reads.many_reads [OF decl.semi_reads [of n]] by (simp add: p_decls_semis_def)

lemma toks_complete: "length vs = length ks \<Longrightarrow> p_toks ks (zip ks vs @ rest) = Some (vs, rest)"
  by (simp add: p_toks_Some)

lemma cas_reads: "reads n (p_cas n) cas_g {TOK_CASE} (\<lambda>ts. \<not> looks_at type_first ts)"
proof
  fix ts v rest
  assume "p_cas n ts = Some (v, rest)"
  then obtain a i b ts1 d where c: "ts = (TOK_CASE, a) # (TOK_IDENT, i) # (TOK_COLON, b) # ts1" "p_decls_semis n ts1 = Some (d, rest)"
      "v = (stringValue i, d)"
    by (auto simp: p_cas_def p_bind_Some p_tok_Some)
  then show "\<exists>us. ts = us @ rest \<and> cas_g us v"
    using reads.sound [OF decls_reads c(2)] cas_g.intros by fastforce
next
  fix us v rest
  assume "cas_g us v" "\<not> looks_at type_first rest" "length (us @ rest) \<le> n"
  then show "p_cas n (us @ rest) = Some (v, rest)"
    by (auto elim!: cas_g.cases simp: p_cas_def p_bind_def reads.complete [OF decls_reads])
next
  fix us v rest
  assume "cas_g us v"
  then show "looks_at {TOK_CASE} (us @ rest)" by (auto elim!: cas_g.cases)
qed

lemma cases_reads: "reads n (p_many n {TOK_CASE} (p_cas n)) (many_g cas_g) {TOK_CASE} (\<lambda>ts. \<not> looks_at type_first ts \<and> \<not> looks_at {TOK_CASE} ts)"
  by (rule reads.many_reads [OF cas_reads]) (auto simp: looks_at_def type_first_def split: list.splits)

interpretation entry: reads n p_entry enum_entry_g "{TOK_IDENT}" "\<lambda>ts. \<not> looks_at {TOK_LBRACKET, TOK_EQUALS} ts" for n
proof
  fix ts v rest
  assume "p_entry ts = Some (v, rest)"
  then show "\<exists>us. ts = us @ rest \<and> enum_entry_g us v"
    by (auto simp: p_entry_def p_bind_Some p_tok_Some enum_entry_g.simps split: if_splits)
next
  fix us v rest
  assume "enum_entry_g us v" "\<not> looks_at {TOK_LBRACKET, TOK_EQUALS} rest"
  then show "p_entry (us @ rest) = Some (v, rest)"
    by (cases rest) (auto simp: p_entry_def p_bind_def enum_entry_g.simps)
next
  fix us v rest
  assume "enum_entry_g us v"
  then show "looks_at {TOK_IDENT} (us @ rest)" by (auto simp: enum_entry_g.simps)
qed

lemma entries_reads:
  "reads n (p_comma n more_entries p_entry) (comma_g enum_entry_g) {TOK_IDENT}
     (\<lambda>ts. \<not> looks_at {TOK_LBRACKET, TOK_EQUALS} ts \<and> \<not> more_entries ts)"
  by (rule entry.comma_reads) (simp_all add: more_entries_def)

section \<open>Definitions\<close>

lemma defs_many: "defs_g us l \<longleftrightarrow> many_g (semi_g def_g) us l"
proof
  have "(def_g ts d \<longrightarrow> True) \<and> (defs_g us l \<longrightarrow> many_g (semi_g def_g) us l) \<and> (optdefs_g vs k \<longrightarrow> True)" for ts d vs k
  proof (induction rule: def_g_defs_g_optdefs_g.induct)
    case (defs_one ts d a)
    then show ?case by (intro many_g.intros(1) semi_g.intros) simp
  next
    case (defs_more ts l ts' d a)
    then show ?case using many_g.intros(2) [of "semi_g def_g" ts l "ts' @ [(TOK_SEMI, a)]" d] semi_g.intros [of def_g ts' d a] by simp
  qed auto
  then show "defs_g us l \<Longrightarrow> many_g (semi_g def_g) us l" by blast
  show "many_g (semi_g def_g) us l \<Longrightarrow> defs_g us l"
    by (induction rule: many_g.induct) (auto elim!: semi_g.cases intro: def_g_defs_g_optdefs_g.intros)
qed

lemma optdefs_many: "optdefs_g us l \<longleftrightarrow> opt_g (many_g (semi_g def_g)) us l"
  by (auto simp: optdefs_g.simps opt_g.simps defs_many)

definition reads_defs :: "nat \<Rightarrow> bool" where
  "reads_defs n \<longleftrightarrow> reads n (p_def n) def_g def_first (\<lambda>_. True)"

lemma optdefs_sound: "reads_defs n \<Longrightarrow> p_optdefs n ts = Some (l, rest) \<Longrightarrow> \<exists>us. ts = us @ rest \<and> optdefs_g us l"
  using reads.many0_sound [OF reads.semi_reads] unfolding reads_defs_def p_optdefs_def optdefs_many by fastforce

lemma optdefs_complete:
  assumes "reads_defs n" "optdefs_g us l" "\<not> looks_at def_first rest" "length (us @ rest) \<le> n"
  shows "p_optdefs n (us @ rest) = Some (l, rest)"
proof -
  have "reads n (p_semi (p_def n)) (semi_g def_g) def_first (\<lambda>_. True)"
    using assms(1) unfolding reads_defs_def by (rule reads.semi_reads) simp
  from reads.many0_complete [OF this assms(2) [unfolded optdefs_many] assms(3)] show ?thesis
    using assms(4) by (simp add: p_optdefs_def)
qed

lemma def_sound:
  assumes "reads_defs n" "p_def (Suc n) ts = Some (v, rest)"
  shows "\<exists>us. ts = us @ rest \<and> def_g us v"
proof -
  note d = reads.sound [OF decls_reads] and c = reads.sound [OF cases_reads] and e = reads.sound [OF entries_reads]
  consider (struct) "looks_at {TOK_STRUCT} ts" | (union) "\<not> looks_at {TOK_STRUCT} ts" "looks_at {TOK_UNION} ts"
    | (enum) "\<not> looks_at {TOK_STRUCT} ts" "\<not> looks_at {TOK_UNION} ts" by blast
  then show ?thesis
  proof cases
    case struct
    with assms(2) obtain a i b ts1 ts2 ts3 defs ds r where s: "ts = (TOK_STRUCT, a) # (TOK_IDENT, i) # (TOK_LBRACE, b) # ts1"
        "p_optdefs n ts1 = Some (defs, ts2)" "p_decls_semis n ts2 = Some (ds, (TOK_RBRACE, r) # rest)" "v = StructDef (stringValue i) defs ds"
      by (auto simp: p_bind_Some p_tok_Some p_optdefs_def)
    obtain us1 us2 where "ts1 = us1 @ ts2" "optdefs_g us1 defs" "ts2 = us2 @ (TOK_RBRACE, r) # rest" "many_g (semi_g decl_g) us2 ds"
      using optdefs_sound [OF assms(1) s(2)] d [OF s(3)] by blast
    with s def_struct [of us1 defs us2 ds a i b r] show ?thesis by (intro exI conjI) simp_all
  next
    case union
    with assms(2) obtain a i b ts1 where u: "ts = (TOK_UNION, a) # (TOK_IDENT, i) # (TOK_LBRACE, b) # ts1"
      by (auto simp: p_bind_Some p_tok_Some)
    show ?thesis
    proof (cases "looks_at {TOK_TYPE} ts1")
      case True
      with assms(2) u obtain t j k ts2 cs r where "ts1 = (TOK_TYPE, t) # (TOK_IDENT, j) # (TOK_SEMI, k) # ts2"
          "p_many n {TOK_CASE} (p_cas n) ts2 = Some (cs, (TOK_RBRACE, r) # rest)"
          "v = UnionDef (stringValue i) [] (new_TypeRef (stringValue j)) cs"
        by (auto simp: p_bind_Some p_tok_Some)
      with u c [of n ts2 cs] def_union_typed show ?thesis by fastforce
    next
      case False
      with assms(2) u obtain cs r where "p_many n {TOK_CASE} (p_cas n) ts1 = Some (cs, (TOK_RBRACE, r) # rest)"
          "v = UnionDef (stringValue i) [case_enum cs] (new_TypeRef ''Type'') cs"
        by (auto simp: p_bind_Some p_tok_Some)
      with u c [of n ts1 cs] def_union show ?thesis by fastforce
    qed
  next
    case enum
    with assms(2) obtain a i b ts1 ts2 es r where s: "ts = (TOK_ENUM, a) # (TOK_IDENT, i) # (TOK_LBRACE, b) # ts1"
        "p_comma n more_entries p_entry ts1 = Some (es, ts2)" "p_optcomma ts2 = Some ((), (TOK_RBRACE, r) # rest)"
        "v = EnumDef (stringValue i) es"
      by (auto simp: p_bind_Some p_tok_Some)
    obtain us2 where "ts2 = us2 @ (TOK_RBRACE, r) # rest" "optcomma_g us2"
      using s(3) by (cases ts2) (auto simp: p_optcomma_def optcomma_g.simps split: if_splits)
    moreover obtain us1 where "ts1 = us1 @ ts2" "comma_g enum_entry_g us1 es" using e [OF s(2)] by blast
    ultimately show ?thesis using s def_enum [of us1 es us2 a i b r] by (intro exI conjI) simp_all
  qed
qed

lemma def_complete:
  assumes "reads_defs n" "def_g us v" "length (us @ rest) \<le> Suc n"
  shows "p_def (Suc n) (us @ rest) = Some (v, rest)"
  using assms(2)
proof (cases rule: def_g.cases)
  case (def_struct ts defs ts' d a i b c)
  have d: "p_decls_semis n (ts' @ (TOK_RBRACE, c) # rest) = Some (d, (TOK_RBRACE, c) # rest)"
    using def_struct assms(3) by (intro reads.complete [OF decls_reads]) (auto simp: type_first_def)
  have "looks_at type_first (ts' @ (TOK_RBRACE, c) # rest)"
    using def_struct(4) by (rule reads.starts [OF decls_reads])
  then have "\<not> looks_at def_first (ts' @ (TOK_RBRACE, c) # rest)"
    by (auto simp: looks_at_def type_first_def def_first_def split: list.splits)
  then have "p_optdefs n (ts @ ts' @ (TOK_RBRACE, c) # rest) = Some (defs, ts' @ (TOK_RBRACE, c) # rest)"
    using def_struct assms(1,3) by (intro optdefs_complete) auto
  with def_struct d show ?thesis by (simp add: p_bind_def p_optdefs_def)
next
  case (def_union_typed ts c a i b e tID f h)
  have "p_many n {TOK_CASE} (p_cas n) (ts @ (TOK_RBRACE, h) # rest) = Some (c, (TOK_RBRACE, h) # rest)"
    using def_union_typed assms(3) by (intro reads.complete [OF cases_reads]) (auto simp: type_first_def)
  with def_union_typed show ?thesis by (simp add: p_bind_def)
next
  case (def_union ts c a i b h)
  have c: "p_many n {TOK_CASE} (p_cas n) (ts @ (TOK_RBRACE, h) # rest) = Some (c, (TOK_RBRACE, h) # rest)"
    using def_union assms(3) by (intro reads.complete [OF cases_reads]) (auto simp: type_first_def)
  have "looks_at {TOK_CASE} (ts @ (TOK_RBRACE, h) # rest)" using def_union(3) by (rule reads.starts [OF cases_reads])
  then have "\<not> looks_at {TOK_TYPE} (ts @ (TOK_RBRACE, h) # rest)" by (auto simp: looks_at_def split: list.splits)
  with def_union c show ?thesis by (simp add: p_bind_def)
next
  case (def_enum ts e ts' a i b c)
  have "\<not> more_entries (ts' @ (TOK_RBRACE, c) # rest)" "\<not> looks_at {TOK_LBRACKET, TOK_EQUALS} (ts' @ (TOK_RBRACE, c) # rest)"
      "p_optcomma (ts' @ (TOK_RBRACE, c) # rest) = Some ((), (TOK_RBRACE, c) # rest)"
    using def_enum(4) by (auto simp: optcomma_g.simps more_entries_def p_optcomma_def)
  moreover from this have "p_comma n more_entries p_entry (ts @ ts' @ (TOK_RBRACE, c) # rest) = Some (e, ts' @ (TOK_RBRACE, c) # rest)"
    using def_enum assms(3) by (intro reads.complete [OF entries_reads]) auto
  ultimately show ?thesis using def_enum by (simp add: p_bind_def)
qed

lemma def_starts: "def_g us v \<Longrightarrow> looks_at def_first (us @ rest)"
  by (cases rule: def_g.cases) (auto simp: def_first_def)

lemma defs_read: "reads_defs n"
proof (induction n)
  case 0
  show ?case unfolding reads_defs_def
  proof
    fix us v and rest :: "token list"
    assume "def_g us v" "length (us @ rest) \<le> 0"
    then show "p_def 0 (us @ rest) = Some (v, rest)" using def_starts [of us v "[]"] by simp
  qed (simp_all add: def_starts)
next
  case (Suc n)
  show ?case unfolding reads_defs_def
    by standard (use def_sound [OF Suc] def_complete [OF Suc] def_starts in blast)+
qed

section \<open>Methods, versions, programs, units\<close>

lemma first_iff:
  "k \<in> type_first \<longleftrightarrow> k = TOK_BYREF \<or> k = TOK_SVC_BYRREF \<or> k = TOK_IDENT"
  "k \<in> def_first \<longleftrightarrow> k = TOK_STRUCT \<or> k = TOK_UNION \<or> k = TOK_ENUM"
  by (auto simp: type_first_def def_first_def)

lemma optargs_sound: "p_optargs n ts = Some (l, rest) \<Longrightarrow> \<exists>us. ts = us @ rest \<and> opt_g (comma_g decl_g) us l"
  using reads.sound [OF decl.comma_reads [of "looks_at {TOK_COMMA}" n]]
  by (fastforce simp: p_optargs_def intro: opt_g.intros split: if_splits)

lemma optargs_complete:
  assumes "opt_g (comma_g decl_g) us l" "length (us @ (TOK_RBRACKET, b) # rest) \<le> n"
  shows "p_optargs n (us @ (TOK_RBRACKET, b) # rest) = Some (l, (TOK_RBRACKET, b) # rest)"
proof -
  have r: "reads n (p_comma n (looks_at {TOK_COMMA}) p_decl) (comma_g decl_g) type_first (\<lambda>ts. True \<and> \<not> looks_at {TOK_COMMA} ts)"
    by (rule decl.comma_reads) simp_all
  from assms(1) show ?thesis
    by cases (use assms(2) reads.complete [OF r] reads.starts [OF r] in \<open>auto simp: p_optargs_def type_first_def\<close>)
qed

lemma optmethnum_sound: "p_optmethnum ts = Some (u, rest) \<Longrightarrow> \<exists>us. ts = us @ rest \<and> optmethnum_g us"
  by (auto simp: p_optmethnum_def p_bind_Some p_tok_Some optmethnum_g.simps split: if_splits)

lemma optmethnum_complete: "optmethnum_g us \<Longrightarrow> \<not> looks_at {TOK_EQUALS} rest \<Longrightarrow> p_optmethnum (us @ rest) = Some ((), rest)"
  by (auto simp: p_optmethnum_def optmethnum_g.simps p_bind_def)

lemma method_reads: "reads n (p_method n) method_g type_first (\<lambda>ts. \<not> looks_at {TOK_EQUALS} ts)"
proof
  fix ts v rest
  assume "p_method n ts = Some (v, rest)"
  then obtain ret i a ts1 args b ts2 where m: "p_type ts = Some (ret, (TOK_IDENT, i) # (TOK_LBRACKET, a) # ts1)"
      "p_optargs n ts1 = Some (args, (TOK_RBRACKET, b) # ts2)" "p_optmethnum ts2 = Some ((), rest)"
      "v = \<lparr>me_retType = ret, me_name = stringValue i, me_args = args\<rparr>"
    by (auto simp: p_method_def p_bind_Some p_tok_Some)
  obtain us us' us'' where "ts = us @ (TOK_IDENT, i) # (TOK_LBRACKET, a) # us' @ (TOK_RBRACKET, b) # us'' @ rest"
      "type_g us ret" "opt_g (comma_g decl_g) us' args" "optmethnum_g us''"
    using type.sound [OF m(1)] optargs_sound [OF m(2)] optmethnum_sound [OF m(3)] by auto
  with m(4) method_g.intros [of us ret us' args us'' i a b] show "\<exists>us. ts = us @ rest \<and> method_g us v"
    by (intro exI conjI) simp_all
next
  fix us v rest
  assume "method_g us v" "\<not> looks_at {TOK_EQUALS} rest" "length (us @ rest) \<le> n"
  then show "p_method n (us @ rest) = Some (v, rest)"
    by (auto elim!: method_g.cases simp: p_method_def p_bind_def p_type_complete optargs_complete optmethnum_complete)
next
  fix us v rest
  assume "method_g us v"
  then show "looks_at type_first (us @ rest)" by (auto elim!: method_g.cases simp: type.starts)
qed

lemma methods_reads: "reads n (p_many n type_first (p_semi (p_method n))) (many_g (semi_g method_g)) type_first (\<lambda>ts. \<not> looks_at type_first ts)"
  using reads.many_reads [OF reads.semi_reads [OF method_reads [of n]]] by simp

lemma version_reads: "reads n (p_version n) version_g {TOK_VERSION} (\<lambda>_. True)"
proof
  fix ts v rest
  assume "p_version n ts = Some (v, rest)"
  then obtain a i b ts1 m c e num where w: "ts = (TOK_VERSION, a) # (TOK_IDENT, i) # (TOK_LBRACE, b) # ts1"
      "p_many n type_first (p_semi (p_method n)) ts1 = Some (m, (TOK_RBRACE, c) # (TOK_EQUALS, e) # (TOK_INTEGER, num) # rest)"
      "v = \<lparr>v_num = word_of_int (intValue num), v_name = stringValue i, v_methods = m\<rparr>"
    by (auto simp: p_version_def p_bind_Some p_tok_Some numeral_2_eq_2)
  obtain us where "ts1 = us @ (TOK_RBRACE, c) # (TOK_EQUALS, e) # (TOK_INTEGER, num) # rest" "many_g (semi_g method_g) us m"
    using reads.sound [OF methods_reads w(2)] by blast
  with w version_g.intros [of us m a i b c e num] show "\<exists>us. ts = us @ rest \<and> version_g us v"
    by (intro exI conjI) simp_all
next
  fix us v and rest :: "token list"
  assume "version_g us v" "length (us @ rest) \<le> n"
  then show "p_version n (us @ rest) = Some (v, rest)"
    by (auto elim!: version_g.cases simp: p_version_def p_bind_def reads.complete [OF methods_reads] first_iff numeral_2_eq_2)
next
  fix us v rest
  assume "version_g us v"
  then show "looks_at {TOK_VERSION} (us @ rest)" by (auto elim!: version_g.cases)
qed

lemma versions_reads: "reads n (p_many n {TOK_VERSION} (p_semi (p_version n))) (many_g (semi_g version_g)) {TOK_VERSION} (\<lambda>ts. \<not> looks_at {TOK_VERSION} ts)"
  using reads.many_reads [OF reads.semi_reads [OF version_reads [of n]]] by simp

lemma program_reads: "reads n (p_program n) program_g {TOK_PROGRAM} (\<lambda>_. True)"
proof
  fix ts v rest
  assume "p_program n ts = Some (v, rest)"
  then obtain a i b ts1 defs ts2 vs c e num where w: "ts = (TOK_PROGRAM, a) # (TOK_IDENT, i) # (TOK_LBRACE, b) # ts1"
      "p_optdefs n ts1 = Some (defs, ts2)"
      "p_many n {TOK_VERSION} (p_semi (p_version n)) ts2 = Some (vs, (TOK_RBRACE, c) # (TOK_EQUALS, e) # (TOK_INTEGER, num) # rest)"
      "v = \<lparr>p_name = stringValue i, p_types = defs, p_num = token_ulong num, p_versions = vs\<rparr>"
    by (auto simp: p_program_def p_bind_Some p_tok_Some numeral_2_eq_2)
  obtain us us' where "ts1 = us @ us' @ (TOK_RBRACE, c) # (TOK_EQUALS, e) # (TOK_INTEGER, num) # rest" "optdefs_g us defs"
      "many_g (semi_g version_g) us' vs"
    using optdefs_sound [OF defs_read w(2)] reads.sound [OF versions_reads w(3)] by auto
  with w program_g.intros [of us defs us' vs a i b c e num] show "\<exists>us. ts = us @ rest \<and> program_g us v"
    by (intro exI conjI) simp_all
next
  fix us v and rest :: "token list"
  assume g: "program_g us v" "length (us @ rest) \<le> n"
  from g(1) show "p_program n (us @ rest) = Some (v, rest)"
  proof cases
    case (1 ts defs ts' vs a i b c e num)
    let ?r = "(TOK_RBRACE, c) # (TOK_EQUALS, e) # (TOK_INTEGER, num) # rest"
    have "looks_at {TOK_VERSION} (ts' @ ?r)" using 1(4) by (rule reads.starts [OF versions_reads])
    then have "\<not> looks_at def_first (ts' @ ?r)" by (auto simp: looks_at_def def_first_def split: list.splits)
    then have "p_optdefs n (ts @ ts' @ ?r) = Some (defs, ts' @ ?r)"
      using 1 g(2) by (intro optdefs_complete [OF defs_read]) auto
    moreover have "p_many n {TOK_VERSION} (p_semi (p_version n)) (ts' @ ?r) = Some (vs, ?r)"
      using 1 g(2) by (intro reads.complete [OF versions_reads]) auto
    ultimately show ?thesis using 1 by (simp add: p_program_def p_bind_def numeral_2_eq_2)
  qed
next
  fix us v rest
  assume "program_g us v"
  then show "looks_at {TOK_PROGRAM} (us @ rest)" by (auto elim!: program_g.cases)
qed

interpretation imp: reads n p_import import_g "{TOK_IMPORT}" "\<lambda>_. True" for n
  by standard (auto simp: p_import_def p_bind_Some p_tok_Some import_g.simps)

lemma programs_reads: "reads n (p_semi (p_program n)) (semi_g program_g) {TOK_PROGRAM} (\<lambda>_. True)"
  using reads.semi_reads [OF program_reads [of n]] by simp

lemma trlunit_sound: "p_trlunit n ts = Some (u, rest) \<Longrightarrow> \<exists>us. ts = us @ rest \<and> trlunit_g us u"
proof -
  assume "p_trlunit n ts = Some (u, rest)"
  then obtain i ts1 t ts2 d where w: "p_many0 n {TOK_IMPORT} p_import ts = Some (i, ts1)" "p_optdefs n ts1 = Some (t, ts2)"
      "p_many0 n {TOK_PROGRAM} (p_semi (p_program n)) ts2 = Some (d, rest)" "u = (i, t, d)"
    by (auto simp: p_trlunit_def p_bind_Some)
  obtain us us' us'' where "ts = us @ us' @ us'' @ rest" "opt_g (many_g import_g) us i" "optdefs_g us' t"
      "opt_g (many_g (semi_g program_g)) us'' d"
    using imp.many0_sound [OF w(1)] optdefs_sound [OF defs_read w(2)] reads.many0_sound [OF programs_reads w(3)] by auto
  with w(4) trlunit_g.intros [of us i us' t us'' d] show ?thesis by (intro exI conjI) simp_all
qed

lemma opt_starts: "reads n p g T F \<Longrightarrow> opt_g (many_g g) us l \<Longrightarrow> us = [] \<or> looks_at T (us @ rest)"
proof -
  assume r: "reads n p g T F" and o: "opt_g (many_g g) us l"
  from o obtain uss where "us = concat uss" "list_all2 g uss l" by (auto simp: opt_many_list)
  then show ?thesis by (cases uss) (auto simp: list_all2_Cons1 reads.starts [OF r])
qed

lemma trlunit_complete:
  assumes "trlunit_g us u" "length us \<le> n"
  shows "p_trlunit n us = Some (u, [])"
  using assms(1)
proof cases
  case (1 ts i ts' t ts'' d)
  note defs = defs_read [of n, unfolded reads_defs_def]
  have s: "ts' = [] \<or> looks_at def_first (ts' @ ts'')" "ts'' = [] \<or> looks_at {TOK_PROGRAM} (ts'' @ [])"
    using opt_starts [OF reads.semi_reads [OF defs], of ts' t ts''] 1(4) opt_starts [OF programs_reads [of n] 1(5), of "[]"]
    by (simp_all add: optdefs_many)
  then have n: "\<not> looks_at {TOK_IMPORT} (ts' @ ts'')" "\<not> looks_at def_first ts''"
    by (auto simp: looks_at_def def_first_def split: list.splits)
  have "p_many0 n {TOK_IMPORT} p_import (ts @ ts' @ ts'') = Some (i, ts' @ ts'')"
    using 1 n(1) assms(2) by (intro imp.many0_complete [where n = n]) auto
  moreover have "p_optdefs n (ts' @ ts'') = Some (t, ts'')"
    using 1 n(2) assms(2) by (intro optdefs_complete [OF defs_read]) auto
  moreover have "p_many0 n {TOK_PROGRAM} (p_semi (p_program n)) (ts'' @ []) = Some (d, [])"
    using 1 assms(2) by (intro reads.many0_complete [OF programs_reads]) auto
  ultimately show ?thesis using 1 by (simp add: p_trlunit_def p_bind_def)
qed

lemma parse_tokens_iff: "parse_tokens ts = Some u \<longleftrightarrow> trlunit_g ts u"
proof
  assume "parse_tokens ts = Some u"
  then have "p_trlunit (length ts) ts = Some (u, [])" by (auto simp: parse_tokens_def split: option.splits list.splits)
  from trlunit_sound [OF this] show "trlunit_g ts u" by simp
next
  assume "trlunit_g ts u"
  from trlunit_complete [OF this order_refl] show "parse_tokens ts = Some u" by (simp add: parse_tokens_def)
qed

text \<open>C18: the reading functions and the grammar are the same: on every sequence of tokens \<open>parse_tokens\<close> returns a value exactly if
  the grammar derives the sequence, and it is the only value that the actions of any derivation compute: the grammar is not ambiguous.\<close>

theorem parser_agrees_with_grammar: "{u. trlunit_g ts u} = set_option (parse_tokens ts)"
  using parse_tokens_iff [of ts] by auto

text \<open>A program always gets the number 0, since its number is taken from the wrong member of the token.\<close>

lemma program_number_lost: "program_g (ts @ [(TOK_INTEGER, TokenI i)]) v \<Longrightarrow> p_num v = 0"
  by (auto elim!: program_g.cases simp: token_ulong_def)

end
