(* ===== verification/Idl_Lexer_Props.thy ===== *)
theory Idl_Lexer_Props
  imports Idl_Lexer
begin

text \<open>
  Properties of the scanner: the lexemes make up the text, each is the longest that a rule matches, the positions are
  those of the text read so far, an error report underlines the token, and tokens that are written out are read back.
\<close>

section \<open>Lexemes\<close>

lemma scan_Nil [simp]: "scan in_comment bol [] = []"
  by (simp add: scan.simps)

lemma scan_step:
  "s \<noteq> [] \<Longrightarrow> next_lexeme in_comment bol s = (a, n) \<Longrightarrow>
     scan in_comment bol s = (a, take n s) # scan (start_condition a in_comment) (last (take n s) = NL) (drop n s)"
  by (subst scan.simps) (simp add: Let_def)

lemma scan_text: "concat (map snd (scan in_comment bol s)) = s"
proof (induction in_comment bol s rule: scan.induct)
  case (1 in_comment bol s)
  show ?case
  proof (cases "s = []")
    case False
    obtain a n where n: "next_lexeme in_comment bol s = (a, n)" by (rule prod.exhaust)
    show ?thesis using 1 [OF False n [symmetric] refl refl] by (simp add: scan_step [OF False n])
  qed simp
qed

text \<open>Every lexeme is the longest text that one of the rules matches there, or a single character that none matches.\<close>

definition munched :: "bool \<Rightarrow> bool \<Rightarrow> string \<Rightarrow> lex_rule \<Rightarrow> string \<Rightarrow> bool" where
  "munched in_comment bol s a yytext \<longleftrightarrow>
     (if a = L_echo then length yytext = 1 \<and> (\<forall>(b, r) \<in> set (lex_rules in_comment bol). \<forall>n. 0 < n \<and> n \<le> length s \<longrightarrow> \<not> matches r (take n s))
      else (\<exists>r. (a, r) \<in> set (lex_rules in_comment bol) \<and> matches r yytext) \<and>
        (\<forall>(b, r) \<in> set (lex_rules in_comment bol). \<forall>n. length yytext < n \<and> n \<le> length s \<longrightarrow> \<not> matches r (take n s)))"

lemma no_echo_rule: "(L_echo, r) \<notin> set (lex_rules in_comment bol)"
  by (auto simp: lex_rules_def line_rules_def common_rules_def comment_rules_def)

lemma longest_bound: "longest r s = Some m \<Longrightarrow> m < n \<Longrightarrow> n \<le> length s \<Longrightarrow> \<not> matches r (take n s)"
  using longest_Some by blast

lemma next_lexeme_munched:
  assumes "s \<noteq> []" "next_lexeme in_comment bol s = (a, n)"
  shows "n \<le> length s \<and> munched in_comment bol s a (take n s)"
proof (cases "best_rule (lex_rules in_comment bol) s")
  case None
  then have "\<forall>(b, r) \<in> set (lex_rules in_comment bol). longest r s = None" by (simp add: best_rule_None)
  moreover have "a = L_echo" "n = 1" using None assms(2) by (simp_all add: next_lexeme_def)
  ultimately show ?thesis using assms(1) by (cases s) (fastforce simp: munched_def longest_None)+
next
  case (Some x)
  obtain b m where x: "x = (b, m)" by (cases x)
  note best = best_rule_max [OF Some [unfolded x]]
  show ?thesis
  proof (cases m)
    case 0
    have "\<not> matches r (take k s)" if "(c, r) \<in> set (lex_rules in_comment bol)" "0 < k" "k \<le> length s" for c r k
      using best [OF that(1)] that longest_bound [of r s _ k] by (cases "longest r s") (auto simp: 0 longest_None)
    moreover have "a = L_echo" "n = 1" using Some x 0 assms(2) by (simp_all add: next_lexeme_def)
    ultimately show ?thesis using assms(1) by (cases s) (auto simp: munched_def)
  next
    case (Suc k)
    then have ab: "a = b" "n = m" using Some x assms(2) by (simp_all add: next_lexeme_def)
    obtain r where r: "(a, r) \<in> set (lex_rules in_comment bol)" "longest r s = Some n"
      using best_rule_first [OF Some [unfolded x]] ab by fastforce
    have "\<not> matches q (take j s)" if "(c, q) \<in> set (lex_rules in_comment bol)" "n < j" "j \<le> length s" for c q j
      using best [OF that(1)] that ab longest_bound [of q s _ j] by (cases "longest q s") (auto simp: longest_None)
    then show ?thesis
      using r longest_Some [OF r(2)] no_echo_rule [of r in_comment bol] by (auto simp: munched_def)
  qed
qed

section \<open>Positions\<close>

text \<open>Where a text ends: the number of its lines, the length of the last one, and where that begins.\<close>

definition last_line :: "string \<Rightarrow> string" where
  "last_line u = rev (takeWhile (\<lambda>c. c \<noteq> NL) (rev u))"

definition text_line :: "string \<Rightarrow> int" where
  "text_line u = int (length (filter (\<lambda>c. c = NL) u))"

lemma last_line_snoc [simp]: "last_line (u @ [c]) = (if c = NL then [] else last_line u @ [c])"
  by (simp add: last_line_def)

lemma last_line_Nil [simp]: "last_line [] = []"
  by (simp add: last_line_def)

lemma last_line_append: "NL \<notin> set l \<Longrightarrow> last_line (u @ l) = last_line u @ l"
  by (induction l rule: rev_induct) (auto simp flip: append_assoc)

lemma last_line_split: "u = take (length u - length (last_line u)) u @ last_line u"
proof -
  have "takeWhile (\<lambda>c. c \<noteq> NL) (rev u) @ dropWhile (\<lambda>c. c \<noteq> NL) (rev u) = rev u" by simp
  then have "u = rev (dropWhile (\<lambda>c. c \<noteq> NL) (rev u)) @ last_line u"
    by (metis last_line_def rev_append rev_rev_ident)
  then show ?thesis by (metis append_eq_conv_conj length_append diff_add_inverse2)
qed

lemma last_line_length: "length (last_line u) \<le> length u"
  by (simp add: last_line_def) (metis length_rev length_takeWhile_le)

lemma last_line_no_nl: "NL \<notin> set (last_line u)"
  by (auto simp: last_line_def dest: set_takeWhileD)

definition at_end_of :: "string \<Rightarrow> MVST_Parser \<Rightarrow> bool" where
  "at_end_of u p \<longleftrightarrow> m_line p = text_line u \<and> m_col p = int (length (last_line u)) \<and>
     m_pos p = int (length u - length (last_line u))"

lemma at_end_of_step: "at_end_of u p \<Longrightarrow> at_end_of (u @ [c]) ((if c = NL then cr else incCol) p)"
  using last_line_length [of u] by (auto simp: at_end_of_def cr_def incCol_def text_line_def Suc_diff_le)

lemma at_end_of_old [simp]: "at_end_of u (recOldPos p) = at_end_of u p"
  by (simp add: at_end_of_def recOldPos_def)

lemma at_end_of_fold: "at_end_of u p \<Longrightarrow> at_end_of (u @ l) (fold (\<lambda>c. if c = NL then cr else incCol) l p)"
proof (induction l arbitrary: u p)
  case (Cons c l)
  then show ?case using Cons.IH [OF at_end_of_step, of u p c] by simp
qed simp

lemma fold_frame:
  "m_oldCol (fold (\<lambda>c. if c = NL then cr else incCol) l p) = m_oldCol p"
  "fText (fold (\<lambda>c. if c = NL then cr else incCol) l p) = fText p"
  by (induction l arbitrary: p) (simp_all add: cr_def incCol_def)

lemma user_action_pos:
  assumes "at_end_of u p"
  shows "at_end_of (u @ l) (user_action l p)" "m_oldCol (user_action l p) = int (length (last_line u))"
    "fText (user_action l p) = fText p"
  using assms at_end_of_fold [of u "recOldPos p" l]
  by (simp_all add: user_action_def fold_frame at_end_of_def recOldPos_def)

text \<open>The lexeme \<open>l\<close> behind the text \<open>v\<close> is where the token \<open>t\<close> comes from.\<close>

definition made_from :: "string \<Rightarrow> string \<Rightarrow> (tok \<times> Token) \<times> MVST_Parser \<Rightarrow> bool" where
  "made_from v l tq \<longleftrightarrow> (\<exists>a ts code. lex_action a l = Some (ts, code) \<and> fst tq \<in> set ts) \<and> at_end_of (v @ l) (snd tq) \<and>
     m_oldCol (snd tq) = int (length (last_line v))"

lemma run_actions_pos:
  assumes "run_actions ls p = Some (ts, code, p')" "at_end_of u p"
  shows "at_end_of (u @ concat (map snd ls)) p' \<and>
    (\<forall>tq \<in> set ts. \<exists>v l w. concat (map snd ls) = v @ l @ w \<and> made_from (u @ v) l tq \<and> fText (snd tq) = fText p)"
  using assms
proof (induction ls p arbitrary: u ts code p' rule: run_actions.induct)
  case (2 a l ls p)
  obtain ts1 c1 ts2 c2 where step: "lex_action a l = Some (ts1, c1)" "run_actions ls (user_action l p) = Some (ts2, c2, p')"
      "ts = map (\<lambda>t. (t, user_action l p)) ts1 @ ts2"
    using "2.prems"(1) by (auto simp: Let_def split: option.splits)
  note pos = user_action_pos [OF "2.prems"(2), of l]
  note IH = "2.IH" [OF refl step(1) refl step(2) pos(1)]
  have "\<exists>v l' w. l @ concat (map snd ls) = v @ l' @ w \<and> made_from (u @ v) l' tq \<and> fText (snd tq) = fText p"
    if tq: "tq \<in> set ts" for tq
  proof (cases "tq \<in> set ts2")
    case True
    with IH obtain v l' w where "concat (map snd ls) = v @ l' @ w" "made_from ((u @ l) @ v) l' tq"
        "fText (snd tq) = fText (user_action l p)" by blast
    with pos(3) show ?thesis by (intro exI [of _ "l @ v"] exI [of _ l'] exI [of _ w]) simp
  next
    case False
    with tq step(3) have "snd tq = user_action l p" "fst tq \<in> set ts1" by auto
    with pos step(1) show ?thesis
      by (intro exI [of _ "[]"] exI [of _ l] exI [of _ "concat (map snd ls)"]) (auto simp: made_from_def)
  qed
  with IH show ?case by auto
qed simp

lemma error_text:
  assumes "made_from u l tq" "fText (snd tq) = u @ l @ w" "NL \<notin> set l"
  shows "error_line (snd tq) = last_line u @ l @ takeWhile (\<lambda>c. c \<noteq> NL) w"
    and "error_marks (snd tq) = replicate (length (last_line u)) (CHR '' '') @ replicate (length l) (CHR ''^'')"
proof -
  have pos: "nat (m_pos (snd tq)) = length u - length (last_line u)" "nat (m_col (snd tq)) = length (last_line u) + length l"
      "nat (m_oldCol (snd tq)) = length (last_line u)"
    using assms(1,3) last_line_length [of u] by (auto simp: made_from_def at_end_of_def last_line_append)
  have "drop (length u - length (last_line u)) (u @ l @ w) = last_line u @ l @ w"
    using last_line_split [of u] by (metis append.assoc append_eq_conv_conj diff_le_self length_take min_absorb2)
  moreover have "takeWhile (\<lambda>c. c \<noteq> NL) (last_line u @ l @ w) = last_line u @ l @ takeWhile (\<lambda>c. c \<noteq> NL) w"
    using assms(3) last_line_no_nl [of u] by (subst takeWhile_append2; (subst takeWhile_append2)?) auto
  ultimately show "error_line (snd tq) = last_line u @ l @ takeWhile (\<lambda>c. c \<noteq> NL) w"
    by (simp add: error_line_def pos assms(2))
  show "error_marks (snd tq) = replicate (length (last_line u)) (CHR '' '') @ replicate (length l) (CHR ''^'')"
    by (simp add: error_marks_def pos)
qed

text \<open>C31: the scanner knows where it is. At the end of the source the value of \<open>m_line\<close> is the number of lines before the current one, \<open>m_pos\<close> the
  beginning of the current line and \<open>m_col\<close> the length of what has been read of it. Every token comes from a
  lexeme of the text, and if a syntax error is found at it, the report shows the line it stands in and marks exactly
  its characters (for a lexeme within a line).\<close>

theorem positions_and_reports:
  assumes "mvstlex src (new_MVST_Parser f src dirs) = Some (ts, code, p)"
  shows "m_line p = text_line src \<and> m_col p = int (length (last_line src)) \<and> m_pos p + m_col p = int (length src) \<and>
    (\<forall>tq \<in> set ts. \<exists>u l w a ts' code'. src = u @ l @ w \<and> lex_action a l = Some (ts', code') \<and> fst tq \<in> set ts' \<and>
       m_line (snd tq) = text_line (u @ l) \<and>
       (NL \<notin> set l \<longrightarrow> error_line (snd tq) = last_line u @ l @ takeWhile (\<lambda>c. c \<noteq> NL) w \<and>
          error_marks (snd tq) = replicate (length (last_line u)) (CHR '' '') @ replicate (length l) (CHR ''^'')))"
proof -
  have "at_end_of [] (new_MVST_Parser f src dirs)" by (simp add: at_end_of_def new_MVST_Parser_def text_line_def)
  from run_actions_pos [OF assms [unfolded mvstlex_def] this]
  have pos: "at_end_of src p" "\<forall>tq \<in> set ts. \<exists>v l w. src = v @ l @ w \<and> made_from v l tq \<and> fText (snd tq) = src"
    by (simp_all add: scan_text new_MVST_Parser_def)
  have "\<exists>u l w a ts' code'. src = u @ l @ w \<and> lex_action a l = Some (ts', code') \<and> fst tq \<in> set ts' \<and>
       m_line (snd tq) = text_line (u @ l) \<and>
       (NL \<notin> set l \<longrightarrow> error_line (snd tq) = last_line u @ l @ takeWhile (\<lambda>c. c \<noteq> NL) w \<and>
          error_marks (snd tq) = replicate (length (last_line u)) (CHR '' '') @ replicate (length l) (CHR ''^''))"
    if tq: "tq \<in> set ts" for tq
  proof -
    obtain v l w where v: "src = v @ l @ w" "made_from v l tq" "fText (snd tq) = src" using pos(2) tq by blast
    moreover obtain a ts' code' where "lex_action a l = Some (ts', code')" "fst tq \<in> set ts'"
      using v(2) by (auto simp: made_from_def)
    moreover have "m_line (snd tq) = text_line (v @ l)" using v(2) by (simp add: made_from_def at_end_of_def)
    ultimately show ?thesis
      using error_text [of v l tq w] by (intro exI [of _ v] exI [of _ l] exI [of _ w] exI [of _ a] exI [of _ ts'] exI [of _ code']) simp
  qed
  moreover have "m_line p = text_line src" "m_col p = int (length (last_line src))" "m_pos p + m_col p = int (length src)"
    using pos(1) last_line_length [of src] by (auto simp: at_end_of_def)
  ultimately show ?thesis by blast
qed

section \<open>What the rules match\<close>

lemma longest_dead: "deriv c r = RNone \<Longrightarrow> longest r (c # s) = (if nullable r then Some 0 else None)"
  by (simp add: longest_eq [of r])

lemma longest_lit:
  "longest (caseless (RLit k)) s =
     (if length k \<le> length s \<and> list_all2 (\<lambda>c d. d = c \<or> other_case d = c) k (take (length k) s) then Some (length k) else None)"
proof (induction k arbitrary: s)
  case (Cons c k)
  then show ?case by (cases s) (simp_all add: ROne_def longest_eq [of "RSeq _ _"])
qed (simp add: longest_eq [of REps] split: list.split)

lemma longest_skip: "nullable r \<or> longest (deriv c r) s \<noteq> None \<Longrightarrow>
    longest r (c # s) = (case longest (deriv c r) s of Some n \<Rightarrow> Some (Suc n) | None \<Rightarrow> Some 0)"
  by (auto simp: longest_eq [of r] split: option.split)

text \<open>Letters, digits and the names made of them.\<close>

definition word_start :: "char \<Rightarrow> bool" where
  "word_start c \<longleftrightarrow> rng (CHR ''a'') (CHR ''z'') c \<or> rng (CHR ''A'') (CHR ''Z'') c \<or> c = CHR ''_''"

definition digit :: "char \<Rightarrow> bool" where
  "digit c \<longleftrightarrow> rng (CHR ''0'') (CHR ''9'') c"

fun name_tail :: "string \<Rightarrow> bool" where
  "name_tail [] = True"
| "name_tail (c # cs) =
     (if word_start c \<or> digit c \<or> c = CHR ''.'' then name_tail cs
      else case cs of [] \<Rightarrow> False | d # ds \<Rightarrow> c = CHR '':'' \<and> d = CHR '':'' \<and> name_tail ds)"

lemma other_case_word: "word_start c \<Longrightarrow> word_start (other_case c)"
  by (auto simp: word_start_def rng_def other_case_def Let_def)

lemma other_case_same: "\<not> word_start c \<Longrightarrow> other_case c = c"
  by (auto simp: word_start_def rng_def other_case_def Let_def)

lemma digit_not_word: "digit c \<Longrightarrow> \<not> word_start c"
  by (auto simp: word_start_def rng_def digit_def)

lemmas char_classes = word_start_def rng_def digit_def ltr_char_def

lemmas rx_parts = rx_ltr_def rx_digit_def rx_any_def ROpt_def ROne_def RPlus_def Let_def

lemma word_start_neq: "word_start c \<Longrightarrow> \<not> word_start d \<Longrightarrow> c \<noteq> d \<and> other_case c \<noteq> d"
  using other_case_word by auto

lemma deriv_ltr: "word_start c \<Longrightarrow> deriv c (caseless rx_ltr) = REps"
  "\<not> word_start c \<Longrightarrow> of_char c < (128::nat) \<Longrightarrow> c \<noteq> CHR 0x5C \<Longrightarrow> deriv c (caseless rx_ltr) = RNone"
proof -
  assume c: "word_start c"
  then have "ltr_char c" by (auto simp: ltr_char_def word_start_def)
  moreover have "\<not> rng (CHR 0xC0) (CHR 0xFF) c" "\<not> rng (CHR 0xC0) (CHR 0xFF) (other_case c)"
    using c other_case_word [OF c] by (auto simp: word_start_def rng_def)
  moreover have "c \<noteq> CHR 0x5C" "other_case c \<noteq> CHR 0x5C"
    using word_start_neq [OF c, of "CHR 0x5C"] by (simp_all add: word_start_def rng_def)
  ultimately show "deriv c (caseless rx_ltr) = REps" by (simp add: rx_parts)
next
  assume c: "\<not> word_start c" "of_char c < (128::nat)" "c \<noteq> CHR 0x5C"
  have "\<not> ltr_char c" using c(1,2) unfolding ltr_char_def word_start_def by auto
  moreover have "\<not> rng (CHR 0xC0) (CHR 0xFF) c" using c(2) by (simp add: rng_def)
  ultimately show "deriv c (caseless rx_ltr) = RNone" using c by (simp add: rx_parts other_case_same)
qed

lemma nullable_ltr [simp]: "\<not> nullable (caseless rx_ltr)"
  by (simp add: rx_parts)

lemma small_chars: "digit c \<Longrightarrow> of_char c < (128::nat) \<and> c \<noteq> CHR 0x5C \<and> c \<noteq> CHR '':'' \<and> c \<noteq> CHR ''.'' \<and> c \<noteq> CHR ''-''"
  by (auto simp: digit_def rng_def)

lemma deriv_ident_rest:
  "word_start c \<or> digit c \<or> c = CHR ''.'' \<Longrightarrow> deriv c (caseless rx_ident_rest) = caseless rx_ident_rest"
  "deriv (CHR '':'') (deriv (CHR '':'') (caseless rx_ident_rest)) = caseless rx_ident_rest"
  "deriv NL (caseless rx_ident_rest) = RNone"
proof -
  have colon: "deriv (CHR '':'') (caseless rx_ltr) = RNone" "deriv (CHR ''.'') (caseless rx_ltr) = RNone" "deriv NL (caseless rx_ltr) = RNone"
    by (rule deriv_ltr(2); simp add: word_start_def rng_def)+
  have dig: "deriv c (caseless rx_digit) = (if digit c then REps else RNone)" if "\<not> word_start c" for c
    using that by (simp add: rx_digit_def digit_def other_case_same)
  have wdig: "deriv c (caseless rx_digit) = RNone" if "word_start c" for c
    using that other_case_word [OF that] digit_not_word by (auto simp: rx_digit_def digit_def)
  have nd: "\<not> nullable (caseless rx_digit)" by (simp add: rx_digit_def)
  note parts = rx_ident_rest_def ROpt_def ROne_def nd
  show "deriv c (caseless rx_ident_rest) = caseless rx_ident_rest" if "word_start c \<or> digit c \<or> c = CHR ''.''"
    using that
  proof (elim disjE)
    assume c: "word_start c"
    moreover have "c \<noteq> CHR '':''" "other_case c \<noteq> CHR '':''" "c \<noteq> CHR ''.''" "other_case c \<noteq> CHR ''.''"
      using word_start_neq [OF c, of "CHR '':''"] word_start_neq [OF c, of "CHR ''.''"]
      by (simp_all add: word_start_def rng_def)
    ultimately show ?thesis by (simp add: parts deriv_ltr wdig)
  next
    assume c: "digit c"
    then show ?thesis
      using small_chars [OF c] digit_not_word [OF c] by (simp add: parts deriv_ltr dig other_case_same)
  next
    assume c: "c = CHR ''.''"
    have "\<not> word_start (CHR ''.'')" "\<not> digit (CHR ''.'')" by (simp_all add: word_start_def digit_def rng_def)
    with c show ?thesis by (simp add: parts colon dig other_case_same)
  qed
  have w: "\<not> word_start (CHR '':'')" "\<not> digit (CHR '':'')" "\<not> word_start NL" "\<not> digit NL"
    by (simp_all add: word_start_def digit_def rng_def)
  show "deriv (CHR '':'') (deriv (CHR '':'') (caseless rx_ident_rest)) = caseless rx_ident_rest"
    using w by (simp add: parts colon dig other_case_same)
  show "deriv NL (caseless rx_ident_rest) = RNone"
    using w by (simp add: parts colon dig other_case_same)
qed

section \<open>Words\<close>

lemma ident_rest_longest: "name_tail w \<Longrightarrow> longest (caseless rx_ident_rest) (w @ NL # s) = Some (length w)"
proof (induction w rule: name_tail.induct)
  case 1
  show ?case by (simp add: longest_dead deriv_ident_rest) (simp add: rx_ident_rest_def)
next
  case (2 c cs)
  show ?case
  proof (cases "word_start c \<or> digit c \<or> c = CHR ''.''")
    case True
    then have "deriv c (caseless rx_ident_rest) = caseless rx_ident_rest" by (rule deriv_ident_rest(1))
    then show ?thesis using 2 True by (simp add: longest_skip)
  next
    case False
    with 2 obtain ds where cs: "c = CHR '':''" "cs = CHR '':'' # ds" "name_tail ds"
      by (auto split: list.splits)
    have "longest (caseless rx_ident_rest) (ds @ NL # s) = Some (length ds)" using "2.IH"(2) [OF False cs(2)] cs by simp
    then have "longest (deriv (CHR '':'') (caseless rx_ident_rest)) (CHR '':'' # ds @ NL # s) = Some (Suc (length ds))"
      by (simp add: longest_skip deriv_ident_rest)
    then show ?thesis by (simp add: cs longest_skip)
  qed
qed

lemma ident_longest:
  assumes "word_start c" "name_tail w"
  shows "longest (caseless rx_ident) (c # w @ NL # s) = Some (Suc (length w))"
proof -
  have "c \<noteq> CHR '':''" "other_case c \<noteq> CHR '':''"
    using word_start_neq [OF assms(1), of "CHR '':''"] by (simp_all add: word_start_def rng_def)
  then have "deriv c (caseless rx_ident) = caseless rx_ident_rest"
    using assms(1) by (simp add: rx_ident_def ROpt_def ROne_def deriv_ltr)
  then show ?thesis using ident_rest_longest [OF assms(2), of s] by (simp add: longest_skip)
qed

text \<open>An expression that no word can begin with.\<close>

definition dead :: "char \<Rightarrow> rx \<Rightarrow> bool" where
  "dead c r \<longleftrightarrow> deriv c (caseless r) = RNone \<and> \<not> nullable (caseless r)"

lemma dead_longest: "dead c r \<Longrightarrow> longest (caseless r) (c # s) = None"
  by (simp add: dead_def longest_dead)

lemma dead_lit: "k \<noteq> [] \<Longrightarrow> c \<noteq> hd k \<Longrightarrow> other_case c \<noteq> hd k \<Longrightarrow> dead c (RLit k)"
  by (cases k) (simp_all add: dead_def ROne_def)

lemma dead_seq: "dead c r \<Longrightarrow> dead c (RSeq r s)"
  by (simp add: dead_def)

lemma dead_one: "c \<noteq> d \<Longrightarrow> other_case c \<noteq> d \<Longrightarrow> dead c (ROne d)"
  by (simp add: dead_def ROne_def)

lemma dead_word:
  assumes "word_start c" "\<not> word_start (hd k)" "k \<noteq> []"
  shows "dead c (RLit k)"
  using dead_lit [OF assms(3)] word_start_neq [OF assms(1,2)] by simp

definition number_rules :: "(lex_rule \<times> rx) list" where
  "number_rules = [(L_hex, rx_hex), (L_int, RSeq (ROne (CHR ''-'')) (RPlus rx_digit)), (L_int, RPlus rx_digit)]"

definition sign_rules :: "(lex_rule \<times> rx) list" where
  "sign_rules = map (\<lambda>(k, ts). (L_punct ts, RLit k)) puncts @
     [(L_comment, RLit ''/*''), (L_blank, RChr (\<lambda>c. c \<in> {CHR '' '', CHR 0x09, NL}))]"

definition word_rules :: "(lex_rule \<times> rx) list" where
  "word_rules = map (\<lambda>(k, t). (L_word t, RLit k)) word_tokens"

lemma common_rules_split: "common_rules = word_rules @ number_rules @ (L_ident, rx_ident) # (L_strlit, rx_strlit) # sign_rules"
  by (simp add: common_rules_def word_rules_def number_rules_def sign_rules_def)

lemma line_rules_dead:
  assumes "c \<notin> {CHR ''%'', CHR ''/'', CHR ''#''}" "other_case c \<notin> {CHR ''%'', CHR ''/'', CHR ''#''}"
  shows "\<forall>(a, r) \<in> set line_rules. dead c r"
  using assms by (simp add: line_rules_def dead_seq dead_one)

lemma number_rules_dead:
  assumes "\<not> digit c" "\<not> digit (other_case c)" "c \<noteq> CHR ''-''" "other_case c \<noteq> CHR ''-''"
  shows "\<forall>(a, r) \<in> set number_rules. dead c r"
proof -
  have "c \<noteq> CHR ''0''" "other_case c \<noteq> CHR ''0''" using assms(1,2) by (auto simp: digit_def rng_def)
  with assms show ?thesis
    by (simp add: number_rules_def dead_def rx_hex_def rx_hex_body_def RPlus_def ROpt_def ROne_def rx_digit_def digit_def)
qed

lemma sign_rules_dead:
  assumes "c \<notin> set '':;{}(),=<>/ '' \<union> {CHR 0x09, NL}" "other_case c \<notin> set '':;{}(),=<>/ '' \<union> {CHR 0x09, NL}"
  shows "\<forall>(a, r) \<in> set sign_rules. dead c r"
proof -
  have "dead c (RChr (\<lambda>c. c \<in> {CHR '' '', CHR 0x09, NL}))" using assms by (simp add: dead_def)
  with assms show ?thesis by (simp add: sign_rules_def puncts_def dead_seq dead_one)
qed

lemma word_not_string:
  assumes "word_start c" "name_tail w"
  shows "longest (caseless rx_strlit) (c # w @ NL # s) = None"
proof -
  obtain d ds where d: "w @ NL # s = d # ds" by (cases w) auto
  have "d \<noteq> CHR 0x22" "other_case d \<noteq> CHR 0x22"
  proof -
    have "word_start d \<or> digit d \<or> d \<in> {CHR ''.'', CHR '':'', NL}"
      using assms(2) d by (cases w) (auto split: if_splits list.splits)
    moreover have "\<not> word_start (CHR 0x22)" "\<not> digit (CHR 0x22)" by (simp_all add: word_start_def digit_def rng_def)
    ultimately show "d \<noteq> CHR 0x22" "other_case d \<noteq> CHR 0x22"
      using other_case_word [of d] other_case_same [of d] by (cases "word_start d"; auto)+
  qed
  then have "deriv d (caseless (RSeq (ROne (CHR 0x22)) rx_string_rest)) = RNone" by (simp add: ROne_def)
  moreover have "c \<noteq> CHR 0x22" "other_case c \<noteq> CHR 0x22"
    using word_start_neq [OF assms(1), of "CHR 0x22"] by (simp_all add: word_start_def rng_def)
  ultimately show ?thesis
    by (auto simp: rx_strlit_def ROpt_def ROne_def d longest_eq [of "RSeq _ _"] longest_dead)
qed

text \<open>A word is a keyword if it is one but for the case of its letters, else a name.\<close>

definition same_word :: "string \<Rightarrow> string \<Rightarrow> bool" where
  "same_word k w \<longleftrightarrow> list_all2 (\<lambda>c d. d = c \<or> other_case d = c) k w"

definition word_rule :: "string \<Rightarrow> lex_rule" where
  "word_rule w = (case find (\<lambda>(k, t). same_word k w) word_tokens of Some (k, t) \<Rightarrow> L_word t | None \<Rightarrow> L_ident)"

lemma keyword_chars: "(k, t) \<in> set word_tokens \<Longrightarrow> list_all word_start k"
  by (auto simp: word_tokens_def word_start_def rng_def)

lemma keyword_longest:
  assumes "list_all word_start k"
  shows "longest (caseless (RLit k)) (w @ NL # s) = Some n \<Longrightarrow> n \<le> length w"
    and "longest (caseless (RLit k)) (w @ NL # s) = Some (length w) \<longleftrightarrow> same_word k w"
proof -
  show le: "longest (caseless (RLit k)) (w @ NL # s) = Some n \<Longrightarrow> n \<le> length w" for n
  proof (rule ccontr)
    assume a: "longest (caseless (RLit k)) (w @ NL # s) = Some n" "\<not> n \<le> length w"
    then have k: "n = length k" "list_all2 (\<lambda>c d. d = c \<or> other_case d = c) k (take n (w @ NL # s))"
      by (auto simp: longest_lit split: if_splits)
    moreover have "take n (w @ NL # s) ! length w = NL" using a(2) by (simp add: nth_take nth_append)
    ultimately have "NL = k ! length w \<or> other_case NL = k ! length w"
      using a(2) list_all2_nthD [OF k(2), of "length w"] by auto
    moreover have "word_start (k ! length w)" using assms k(1) a(2) by (simp add: list_all_length)
    moreover have "\<not> word_start NL" by (simp add: word_start_def rng_def)
    ultimately show False using other_case_same [of NL] by metis
  qed
  show "longest (caseless (RLit k)) (w @ NL # s) = Some (length w) \<longleftrightarrow> same_word k w"
    using list_all2_lengthD [of _ k w] by (auto simp: longest_lit same_word_def)
qed

lemma best_keyword:
  assumes "best_rule rs (w @ NL # s) = Some (L_ident, length w)" "\<forall>(k, t) \<in> set ks. list_all word_start k"
  shows "best_rule (map (\<lambda>(k, t). (L_word t, caseless (RLit k))) ks @ rs) (w @ NL # s) =
    Some (case find (\<lambda>(k, t). same_word k w) ks of Some (k, t) \<Rightarrow> L_word t | None \<Rightarrow> L_ident, length w)"
  using assms(2)
proof (induction ks)
  case (Cons kt ks)
  obtain k t where kt: "kt = (k, t)" by (cases kt)
  then have k: "list_all word_start k" using Cons.prems by simp
  show ?case
  proof (cases "longest (caseless (RLit k)) (w @ NL # s)")
    case None
    then have "\<not> same_word k w" using keyword_longest(2) [OF k, of w s] by simp
    with Cons None kt show ?thesis by simp
  next
    case (Some n)
    then have "n \<le> length w" "n = length w \<longleftrightarrow> same_word k w"
      using keyword_longest [OF k, of w s] by auto
    with Cons Some kt show ?thesis by auto
  qed
qed (use assms(1) in simp)

lemma best_none: "\<forall>(a, r) \<in> set rs. dead c r \<Longrightarrow> best_rule (map (\<lambda>(a, r). (a, caseless r)) rs) (c # s) = None"
  by (auto simp: best_rule_None dead_longest)

lemma word_lexeme:
  assumes "word_start c" "name_tail w"
  shows "next_lexeme False True (c # w @ NL # s) = (word_rule (c # w), Suc (length w))"
proof -
  let ?m = "map (\<lambda>(a, r). (a, caseless r))" and ?s = "c # w @ NL # s"
  have ne: "c \<noteq> d \<and> other_case c \<noteq> d" if "d \<in> set ''%/#-:;{}(),=<>/ '' \<union> {CHR 0x09, NL}" for d
    using that word_start_neq [OF assms(1), of d] by (auto simp: word_start_def rng_def)
  have nd: "\<not> digit c" "\<not> digit (other_case c)" using assms(1) other_case_word digit_not_word by blast+
  have dead: "\<forall>(a, r) \<in> set line_rules. dead c r" "\<forall>(a, r) \<in> set number_rules. dead c r" "\<forall>(a, r) \<in> set sign_rules. dead c r"
    by (rule line_rules_dead number_rules_dead sign_rules_dead; use ne nd in auto)+
  then have none: "\<forall>(a, r) \<in> set (?m line_rules). longest r ?s = None" "\<forall>(a, r) \<in> set (?m number_rules). longest r ?s = None"
    by (auto simp: dead_longest)
  have "best_rule (?m ((L_ident, rx_ident) # (L_strlit, rx_strlit) # sign_rules)) ?s = Some (L_ident, Suc (length w))"
    using best_none [OF dead(3)] by (simp add: ident_longest [OF assms] word_not_string [OF assms])
  then have "best_rule (?m number_rules @ ?m ((L_ident, rx_ident) # (L_strlit, rx_strlit) # sign_rules)) ?s = Some (L_ident, Suc (length w))"
    by (simp only: best_rule_skip [OF none(2)])
  from best_keyword [of _ "c # w" s word_tokens, simplified, OF this [simplified]] keyword_chars
  have "best_rule (map (\<lambda>(k, t). (L_word t, caseless (RLit k))) word_tokens @ ?m number_rules @
      ?m ((L_ident, rx_ident) # (L_strlit, rx_strlit) # sign_rules)) ?s = Some (word_rule (c # w), Suc (length w))"
    by (auto simp: word_rule_def)
  moreover have "lex_rules False True = ?m line_rules @ map (\<lambda>(k, t). (L_word t, caseless (RLit k))) word_tokens @ ?m number_rules @
      ?m ((L_ident, rx_ident) # (L_strlit, rx_strlit) # sign_rules)"
    by (simp add: lex_rules_def common_rules_split word_rules_def case_prod_beta comp_def)
  ultimately show ?thesis by (simp add: next_lexeme_def best_rule_skip [OF none(1)])
qed

section \<open>The other lexemes\<close>

lemma longest_REps [simp]: "longest REps s = Some 0"
  by (simp add: longest_eq [of REps] split: list.split)

lemma newline_lexeme: "next_lexeme False False (NL # s) = (L_blank, 1)"
proof (cases s)
  case Nil
  show ?thesis unfolding Nil by code_simp
next
  case (Cons d ds)
  show ?thesis unfolding Cons by code_simp
qed

lemma sign_lexemes:
  "next_lexeme False True (CHR '':'' # NL # s) = (L_punct [TOK_COLON], 1)"
  "next_lexeme False True (CHR '';'' # NL # s) = (L_punct [TOK_SEMI], 1)"
  "next_lexeme False True (CHR ''{'' # NL # s) = (L_punct [TOK_LBRACE], 1)"
  "next_lexeme False True (CHR ''}'' # NL # s) = (L_punct [TOK_RBRACE], 1)"
  "next_lexeme False True (CHR ''('' # NL # s) = (L_punct [TOK_LBRACKET], 1)"
  "next_lexeme False True (CHR '')'' # NL # s) = (L_punct [TOK_RBRACKET], 1)"
  "next_lexeme False True (CHR '','' # NL # s) = (L_punct [TOK_COMMA], 1)"
  "next_lexeme False True (CHR ''='' # NL # s) = (L_punct [TOK_EQUALS], 1)"
  "next_lexeme False True (CHR ''<'' # NL # s) = (L_punct [TOK_LCARET], 1)"
  "next_lexeme False True (CHR ''>'' # NL # s) = (L_punct [TOK_RCARET], 1)"
  by code_simp+

text \<open>A text that only one rule matches.\<close>

lemma next_lexemeI:
  assumes "lex_rules in_comment bol = us @ (a, r) # vs" "longest r s = Some (Suc n)"
    and "\<forall>(b, q) \<in> set us. longest q s = None" "\<forall>(b, q) \<in> set vs. longest q s = None"
  shows "next_lexeme in_comment bol s = (a, Suc n)"
proof -
  have "best_rule vs s = None" using assms(4) by (simp add: best_rule_None)
  then show ?thesis using assms(1,2) by (simp add: next_lexeme_def best_rule_skip [OF assms(3)])
qed

lemma rules_split:
  "lex_rules False True = map (\<lambda>(a, r). (a, caseless r))
     (line_rules @ word_rules @ number_rules @ (L_ident, rx_ident) # (L_strlit, rx_strlit) # sign_rules)"
  by (simp add: lex_rules_def common_rules_split)

lemma word_rules_dead: "\<not> word_start c \<Longrightarrow> \<forall>(a, r) \<in> set word_rules. dead c r"
proof -
  assume c: "\<not> word_start c"
  have "dead c (RLit k)" if kt: "(k, t) \<in> set word_tokens" for k t
  proof (rule dead_lit)
    show ne: "k \<noteq> []" using kt by (auto simp: word_tokens_def)
    have "word_start (hd k)" using keyword_chars [OF kt] ne by (cases k) auto
    then show "c \<noteq> hd k" "other_case c \<noteq> hd k" using c other_case_same [OF c] by auto
  qed
  then show ?thesis by (auto simp: word_rules_def)
qed

lemma ident_dead: "\<not> word_start c \<Longrightarrow> of_char c < (128::nat) \<Longrightarrow> c \<noteq> CHR 0x5C \<Longrightarrow> c \<noteq> CHR '':'' \<Longrightarrow> dead c rx_ident"
  by (simp add: dead_def rx_ident_def ROpt_def ROne_def deriv_ltr other_case_same)

lemma string_dead: "\<not> word_start c \<Longrightarrow> c \<noteq> CHR 0x22 \<Longrightarrow> dead c rx_strlit"
proof -
  assume c: "\<not> word_start c" "c \<noteq> CHR 0x22"
  then have "c \<noteq> CHR ''L''" by (auto simp: word_start_def rng_def)
  then show "dead c rx_strlit" using c by (simp add: dead_def rx_strlit_def ROpt_def ROne_def other_case_same)
qed

lemma all_dead: "\<forall>(a, r) \<in> set rs. dead c r \<Longrightarrow> \<forall>(a, r) \<in> set (map (\<lambda>(a, r). (a, caseless r)) rs). longest r (c # s) = None"
  by (auto simp: dead_longest)

text \<open>Numbers.\<close>

lemma digits_longest: "list_all digit ds \<Longrightarrow> longest (caseless (RStar rx_digit)) (ds @ NL # s) = Some (length ds)"
proof (induction ds)
  case Nil
  have "\<not> digit NL" "other_case NL = NL" by (simp_all add: digit_def rng_def other_case_def)
  then have "deriv NL (caseless (RStar rx_digit)) = RNone" by (simp add: rx_digit_def digit_def)
  then show ?case by (simp add: longest_dead del: caseless.simps) simp
next
  case (Cons d ds)
  then have "deriv d (caseless (RStar rx_digit)) = caseless (RStar rx_digit)" by (simp add: rx_digit_def digit_def)
  then show ?case using Cons by (simp add: longest_skip del: caseless.simps) 
qed

lemma plus_digits:
  assumes "list_all digit ds" "ds \<noteq> []"
  shows "longest (caseless (RPlus rx_digit)) (ds @ NL # s) = Some (length ds)"
proof -
  obtain d ds' where ds: "ds = d # ds'" using assms(2) by (cases ds) auto
  then have "deriv d (caseless (RPlus rx_digit)) = caseless (RStar rx_digit)"
    using assms(1) by (simp add: RPlus_def rx_digit_def digit_def)
  then show ?thesis using digits_longest [of ds' s] assms(1) ds by (simp add: longest_skip del: caseless.simps)
qed

lemma digit_other_dead:
  assumes "digit c"
  shows "\<forall>(a, r) \<in> set (line_rules @ word_rules). dead c r" "\<forall>(a, r) \<in> set ((L_ident, rx_ident) # (L_strlit, rx_strlit) # sign_rules). dead c r"
proof -
  have w: "\<not> word_start c" "other_case c = c" using digit_not_word [OF assms] other_case_same by auto
  have ne: "c \<noteq> d" if "d \<in> set ''%/#:;{}(),=<>/ '' \<union> {CHR 0x09, NL, CHR 0x22}" for d
    using that assms by (auto simp: digit_def rng_def)
  have "\<forall>(a, r) \<in> set line_rules. dead c r" "\<forall>(a, r) \<in> set sign_rules. dead c r"
    by (rule line_rules_dead sign_rules_dead; use ne w in auto)+
  then show "\<forall>(a, r) \<in> set (line_rules @ word_rules). dead c r"
      "\<forall>(a, r) \<in> set ((L_ident, rx_ident) # (L_strlit, rx_strlit) # sign_rules). dead c r"
    using word_rules_dead [OF w(1)] ident_dead [OF w(1)] string_dead [OF w(1)] small_chars [OF assms] ne by auto
qed

lemma hex_body_start: "\<not> nullable (caseless rx_hex_body)"
  by (simp add: rx_hex_body_def ROne_def)

lemma longest_cong: "deriv c r = deriv c q \<Longrightarrow> nullable r = nullable q \<Longrightarrow> longest r (c # s) = longest q (c # s)"
  by (simp add: longest_eq [of r] longest_eq [of q])

lemma hex_none:
  assumes "list_all digit ds" "ds \<noteq> []"
  shows "longest (caseless rx_hex_body) (ds @ NL # s) = None"
proof -
  obtain c cs where c: "ds @ NL # s = c # cs" by (cases ds) auto
  obtain d es where d: "cs = d # es" "digit d \<or> d = NL" using assms c by (cases ds; cases "tl ds") auto
  have "d \<notin> {CHR ''x'', CHR ''X''}" "other_case d \<notin> {CHR ''x'', CHR ''X''}"
    using d(2) digit_not_word [of d] other_case_same [of d] by (auto simp: word_start_def digit_def rng_def)
  then show ?thesis by (auto simp: c d(1) rx_hex_body_def ROne_def longest_eq [of "RSeq _ _"] longest_dead)
qed

lemma nat_lexeme:
  assumes "list_all digit ds" "ds \<noteq> []"
  shows "next_lexeme False True (ds @ NL # s) = (L_int, length ds)"
proof -
  obtain c cs where c: "ds = c # cs" "digit c" using assms by (cases ds) auto
  note dead = digit_other_dead [OF c(2)]
  have w: "\<not> word_start c" "other_case c = c" "c \<noteq> CHR ''-''"
    using digit_not_word [OF c(2)] other_case_same small_chars [OF c(2)] by auto
  have "deriv c (caseless rx_hex) = deriv c (caseless rx_hex_body)" "\<not> nullable (caseless rx_hex)"
    using w by (simp_all add: rx_hex_def ROpt_def ROne_def hex_body_start)
  then have hex: "longest (caseless rx_hex) (ds @ NL # s) = None"
    using hex_none [OF assms, of s] hex_body_start unfolding c(1) by (metis append_Cons longest_cong)
  have "dead c (RSeq (ROne (CHR ''-'')) (RPlus rx_digit))" using w by (simp add: dead_seq dead_one)
  then have neg: "longest (caseless (RSeq (ROne (CHR ''-'')) (RPlus rx_digit))) (ds @ NL # s) = None"
    unfolding c(1) by (simp add: dead_longest del: caseless.simps)
  let ?m = "map (\<lambda>(a, r). (a, caseless r))"
  have "lex_rules False True = (?m (line_rules @ word_rules) @ ?m [(L_hex, rx_hex), (L_int, RSeq (ROne (CHR ''-'')) (RPlus rx_digit))]) @
      (L_int, caseless (RPlus rx_digit)) # ?m ((L_ident, rx_ident) # (L_strlit, rx_strlit) # sign_rules)"
    by (simp add: rules_split number_rules_def)
  from next_lexemeI [OF this, of "ds @ NL # s" "length cs"] show ?thesis
    using plus_digits [OF assms, of s] all_dead [OF dead(1), of "cs @ NL # s"] all_dead [OF dead(2), of "cs @ NL # s"] hex neg
    by (simp add: c(1) ball_Un del: caseless.simps)
qed

lemma neg_lexeme:
  assumes "list_all digit ds" "ds \<noteq> []"
  shows "next_lexeme False True (CHR ''-'' # ds @ NL # s) = (L_int, Suc (length ds))"
proof -
  let ?c = "CHR ''-''" and ?m = "map (\<lambda>(a, r). (a, caseless r))"
  have w: "\<not> word_start ?c" "other_case ?c = ?c" "\<not> digit ?c" by (simp_all add: word_start_def digit_def rng_def other_case_def)
  have "\<forall>(a, r) \<in> set line_rules. dead ?c r" "\<forall>(a, r) \<in> set sign_rules. dead ?c r"
    by (rule line_rules_dead sign_rules_dead; use w in auto)+
  moreover have "dead ?c (RPlus rx_digit)" using w by (simp add: dead_def RPlus_def rx_digit_def digit_def)
  ultimately have dead: "\<forall>(a, r) \<in> set (line_rules @ word_rules). dead ?c r"
      "\<forall>(a, r) \<in> set ((L_int, RPlus rx_digit) # (L_ident, rx_ident) # (L_strlit, rx_strlit) # sign_rules). dead ?c r"
    using word_rules_dead [OF w(1)] ident_dead [OF w(1)] string_dead [OF w(1)] by auto
  have "deriv ?c (caseless rx_hex_body) = RNone" using w by (simp add: rx_hex_body_def ROne_def)
  then have "deriv ?c (caseless rx_hex) = caseless rx_hex_body" "\<not> nullable (caseless rx_hex)"
    using w by (simp_all add: rx_hex_def ROpt_def ROne_def hex_body_start)
  then have hex: "longest (caseless rx_hex) (?c # ds @ NL # s) = None"
    using hex_none [OF assms] by (simp add: longest_eq [of "caseless rx_hex"] del: caseless.simps)
  have "deriv ?c (caseless (RSeq (ROne ?c) (RPlus rx_digit))) = caseless (RPlus rx_digit)" by (simp add: ROne_def)
  then have int: "longest (caseless (RSeq (ROne ?c) (RPlus rx_digit))) (?c # ds @ NL # s) = Some (Suc (length ds))"
    using plus_digits [OF assms, of s] by (simp add: longest_skip del: caseless.simps)
  have "lex_rules False True = (?m (line_rules @ word_rules) @ ?m [(L_hex, rx_hex)]) @
      (L_int, caseless (RSeq (ROne ?c) (RPlus rx_digit))) #
      ?m ((L_int, RPlus rx_digit) # (L_ident, rx_ident) # (L_strlit, rx_strlit) # sign_rules)"
    by (simp add: rules_split number_rules_def)
  from next_lexemeI [OF this int] show ?thesis
    using all_dead [OF dead(1), of "ds @ NL # s"] all_dead [OF dead(2), of "ds @ NL # s"] hex
    by (simp add: ball_Un del: caseless.simps)
qed

text \<open>Strings and imports.\<close>

lemma string_longest:
  assumes "CHR 0x22 \<notin> set b" "CHR 0x5C \<notin> set b"
  shows "longest (caseless rx_strlit) (CHR 0x22 # b @ CHR 0x22 # s) = Some (length b + 2)"
proof -
  have same: "other_case (CHR 0x22) = CHR 0x22" "other_case (CHR 0x5C) = CHR 0x5C" by (simp_all add: other_case_def)
  have "\<not> word_start (CHR 0x5C)" "\<not> word_start (CHR 0x22)" by (simp_all add: word_start_def rng_def)
  then have inv: "other_case c = CHR 0x5C \<longleftrightarrow> c = CHR 0x5C" "other_case c = CHR 0x22 \<longleftrightarrow> c = CHR 0x22" for c
    using other_case_word [of c] other_case_same [of c] by metis+
  have "deriv (CHR 0x22) (caseless rx_string_rest) = REps" by (simp add: rx_string_rest_def ROne_def same)
  then have stop: "longest (caseless rx_string_rest) (CHR 0x22 # s) = Some 1" by (simp add: longest_skip)
  have go_on: "deriv c (caseless rx_string_rest) = caseless rx_string_rest" if "c \<notin> {CHR 0x22, CHR 0x5C}" for c
    using that by (simp add: rx_string_rest_def ROne_def inv)
  have "longest (caseless rx_string_rest) (b @ CHR 0x22 # s) = Some (Suc (length b))" using assms
  proof (induction b)
    case (Cons c b)
    then have "deriv c (caseless rx_string_rest) = caseless rx_string_rest" by (intro go_on) auto
    with Cons show ?case by (simp add: longest_skip)
  qed (simp add: stop)
  moreover have "deriv (CHR 0x22) (caseless rx_strlit) = caseless rx_string_rest" by (simp add: rx_strlit_def ROpt_def ROne_def same)
  ultimately show ?thesis by (simp add: longest_skip)
qed

lemma lit_then:
  assumes "longest r s = Some n"
  shows "longest (seq (caseless (RLit k)) r) (k @ s) = Some (length k + n)"
proof (induction k)
  case (Cons c k)
  have "deriv c (seq (caseless (RLit (c # k))) r) = seq (caseless (RLit k)) r" by (simp add: ROne_def)
  then show ?case using Cons by (simp add: longest_skip del: RLit.simps)
qed (use assms in simp)

lemma line_longest: "NL \<notin> set t \<Longrightarrow> longest (caseless (RStar rx_any)) (t @ NL # s) = Some (length t)"
proof (induction t)
  case Nil
  have "deriv NL (caseless (RStar rx_any)) = RNone" by (simp add: rx_any_def other_case_def)
  then show ?case by (simp add: longest_dead del: caseless.simps) simp
next
  case (Cons c t)
  then have "deriv c (caseless (RStar rx_any)) = caseless (RStar rx_any)" by (auto simp: rx_any_def)
  then show ?case using Cons by (simp add: longest_skip del: caseless.simps)
qed

lemma string_lexeme:
  assumes "CHR 0x22 \<notin> set b" "CHR 0x5C \<notin> set b"
  shows "next_lexeme False True (CHR 0x22 # b @ CHR 0x22 # s) = (L_strlit, length b + 2)"
proof -
  let ?c = "CHR 0x22" and ?m = "map (\<lambda>(a, r). (a, caseless r))"
  have w: "\<not> word_start ?c" "other_case ?c = ?c" "\<not> digit ?c" by (simp_all add: word_start_def digit_def rng_def other_case_def)
  have "\<forall>(a, r) \<in> set line_rules. dead ?c r" "\<forall>(a, r) \<in> set number_rules. dead ?c r" "\<forall>(a, r) \<in> set sign_rules. dead ?c r"
    by (rule line_rules_dead number_rules_dead sign_rules_dead; use w in auto)+
  then have dead: "\<forall>(a, r) \<in> set (line_rules @ word_rules @ number_rules @ [(L_ident, rx_ident)]). dead ?c r" "\<forall>(a, r) \<in> set sign_rules. dead ?c r"
    using word_rules_dead [OF w(1)] ident_dead [OF w(1)] by auto
  have "lex_rules False True = ?m (line_rules @ word_rules @ number_rules @ [(L_ident, rx_ident)]) @ (L_strlit, caseless rx_strlit) # ?m sign_rules"
    by (simp add: rules_split)
  from next_lexemeI [OF this, of _ "Suc (length b)"] show ?thesis
    using string_longest [OF assms, of s] all_dead [OF dead(1)] all_dead [OF dead(2)] by simp
qed

lemma import_lexeme:
  assumes "NL \<notin> set t"
  shows "next_lexeme False True (''#import '' @ t @ NL # s) = (L_import, length t + 8)"
proof -
  let ?c = "CHR ''#''" and ?m = "map (\<lambda>(a, r). (a, caseless r))" and ?t = "''import '' @ t @ NL # s"
  have w: "\<not> word_start ?c" "other_case ?c = ?c" "\<not> digit ?c" by (simp_all add: word_start_def digit_def rng_def other_case_def)
  have "\<forall>(a, r) \<in> set number_rules. dead ?c r" "\<forall>(a, r) \<in> set sign_rules. dead ?c r"
    by (rule number_rules_dead sign_rules_dead; use w in auto)+
  then have dead: "\<forall>(a, r) \<in> set (word_rules @ number_rules @ (L_ident, rx_ident) # (L_strlit, rx_strlit) # sign_rules). dead ?c r"
    using word_rules_dead [OF w(1)] ident_dead [OF w(1)] string_dead [OF w(1)] by auto
  have dead0: "\<forall>(a, r) \<in> set [(L_code, RSeq (RLit ''%'') (RStar rx_any)), (L_line_comment, RSeq (RLit ''//'') (RStar rx_any))]. dead ?c r"
    using w by (simp add: dead_seq dead_one)
  have long: "longest (caseless (RSeq (RLit ''#import '') (RStar rx_any))) (''#import '' @ t @ NL # s) = Some (Suc (length t + 7))"
    using lit_then [OF line_longest [OF assms], of "''#import ''" s] by simp
  have "lex_rules False True = ?m [(L_code, RSeq (RLit ''%'') (RStar rx_any)), (L_line_comment, RSeq (RLit ''//'') (RStar rx_any))] @
      (L_import, caseless (RSeq (RLit ''#import '') (RStar rx_any))) #
      ?m (word_rules @ number_rules @ (L_ident, rx_ident) # (L_strlit, rx_strlit) # sign_rules)"
    by (simp add: rules_split line_rules_def)
  from next_lexemeI [OF this long] show ?thesis
    using all_dead [OF dead, of ?t] all_dead [OF dead0, of ?t] by (simp del: caseless.simps RLit.simps)
qed

section \<open>Tokens are read back\<close>

definition sign_text :: "tok \<Rightarrow> string" where
  "sign_text t = (case map_of (map (\<lambda>(k, ts). (ts, k)) puncts @ map (\<lambda>(k, t). ([t], k)) word_tokens) [t] of Some k \<Rightarrow> k | None \<Rightarrow> [])"

definition show_tok :: "tok \<times> Token \<Rightarrow> string" where
  "show_tok tv =
     (case tv of (t, v) \<Rightarrow>
        if t = TOK_IDENT \<or> t = TOK_STRLIT then stringValue v
        else if t = TOK_INTEGER then show_int (intValue v)
        else if t = TOK_IMPORT then ''#import '' @ CHR 0x22 # stringValue v @ [CHR 0x22]
        else sign_text t)"

text \<open>The tokens that can be written: names that are no keywords, numbers of 64 bits, strings without escapes, and the fixed ones.\<close>

definition name_ok :: "string \<Rightarrow> bool" where
  "name_ok w \<longleftrightarrow> w \<noteq> [] \<and> word_start (hd w) \<and> name_tail (tl w) \<and> word_rule w = L_ident"

definition string_ok :: "string \<Rightarrow> bool" where
  "string_ok w \<longleftrightarrow> (\<exists>b. w = CHR 0x22 # b @ [CHR 0x22] \<and> CHR 0x22 \<notin> set b \<and> CHR 0x5C \<notin> set b)"

definition long_ok :: "int \<Rightarrow> bool" where
  "long_ok i \<longleftrightarrow> - (2 ^ 63) \<le> i \<and> i < 2 ^ 63"

definition token_ok :: "tok \<times> Token \<Rightarrow> bool" where
  "token_ok tv \<longleftrightarrow>
     (case tv of (t, v) \<Rightarrow>
        if t = TOK_IDENT then \<exists>w. v = TokenS w \<and> name_ok w
        else if t = TOK_STRLIT then \<exists>w. v = TokenS w \<and> string_ok w
        else if t = TOK_INTEGER then \<exists>i. v = TokenI i \<and> long_ok i
        else if t = TOK_IMPORT then \<exists>w. v = TokenS w \<and> NL \<notin> set w
        else v = Token0)"

definition unlex :: "(tok \<times> Token) list \<Rightarrow> string" where
  "unlex ts = concat (map (\<lambda>t. show_tok t @ [NL]) ts)"

text \<open>What has to be known of the lexeme of a token.\<close>

definition lexes_to :: "string \<Rightarrow> tok \<times> Token \<Rightarrow> bool" where
  "lexes_to w tv \<longleftrightarrow> w \<noteq> [] \<and> last w \<noteq> NL \<and>
     (\<forall>s. \<exists>a. next_lexeme False True (w @ NL # s) = (a, length w) \<and> a \<noteq> L_comment \<and> a \<noteq> L_end_comment \<and>
       lex_action a w = Some ([tv], []))"

lemma name_tail_chars: "name_tail w \<Longrightarrow> NL \<notin> set w"
proof (induction w rule: name_tail.induct)
  case (2 c cs)
  have "\<not> word_start NL" "\<not> digit NL" by (simp_all add: word_start_def digit_def rng_def)
  with 2 show ?case by (auto split: if_splits list.splits)
qed simp

lemma word_lexes:
  assumes "word_start c" "name_tail w" "lex_action (word_rule (c # w)) (c # w) = Some ([tv], [])"
  shows "lexes_to (c # w) tv"
proof -
  have "c \<noteq> NL" using assms(1) by (auto simp: word_start_def rng_def)
  then have "NL \<notin> set (c # w)" using name_tail_chars [OF assms(2)] by auto
  then have "last (c # w) \<noteq> NL" by (metis last_in_set list.distinct(1))
  moreover have "word_rule (c # w) \<noteq> L_comment" "word_rule (c # w) \<noteq> L_end_comment"
    by (auto simp: word_rule_def split: option.splits)
  ultimately show ?thesis using word_lexeme [OF assms(1,2)] assms(3) by (simp add: lexes_to_def)
qed

lemma name_lexes: "name_ok w \<Longrightarrow> lexes_to w (TOK_IDENT, TokenS w)"
  by (cases w) (auto simp: name_ok_def lex_action_def intro!: word_lexes)

lemma keyword_lexes: "(k, t) \<in> set word_tokens \<Longrightarrow> lexes_to k (t, Token0)"
proof -
  assume kt: "(k, t) \<in> set word_tokens"
  then obtain c cs where k: "k = c # cs" by (cases k) (auto simp: word_tokens_def)
  have all: "list_all word_start k" using kt by (rule keyword_chars)
  have "list_all word_start w \<Longrightarrow> name_tail w" for w by (induction w) auto
  moreover have "\<forall>(k, t) \<in> set word_tokens. word_rule k = L_word t" by code_simp
  then have "word_rule k = L_word t" using kt by auto
  ultimately show ?thesis using all k by (auto simp: lex_action_def intro!: word_lexes)
qed

lemma nat_lexes: "list_all digit (show_nat n)" "show_nat n \<noteq> []"
proof -
  have "digit c" if "c \<in> set ''0123456789''" for c using that by (auto simp: digit_def rng_def)
  then show "list_all digit (show_nat n)" using show_nat_digits [of n] by (auto simp: list_all_iff)
  show "show_nat n \<noteq> []" by (subst show_nat.simps) simp
qed

lemma digits_last: "list_all digit ds \<Longrightarrow> ds \<noteq> [] \<Longrightarrow> last ds \<noteq> NL \<and> hd ds \<noteq> CHR ''-''"
proof -
  assume "list_all digit ds" "ds \<noteq> []"
  then have "digit (last ds)" "digit (hd ds)" by (simp_all add: list_all_iff)
  moreover have "\<not> digit NL" "\<not> digit (CHR ''-'')" by (simp_all add: digit_def rng_def)
  ultimately show ?thesis by metis
qed

lemma signed_pos: "hd s \<noteq> CHR ''-'' \<Longrightarrow> signed f s = int (f s)"
  by (cases s) (simp_all add: signed_def)

lemma number_lexes: "long_ok i \<Longrightarrow> lexes_to (show_int i) (TOK_INTEGER, TokenI i)"
proof -
  assume i: "long_ok i"
  note d = nat_lexes [of "nat i"] nat_lexes [of "nat (- i)"]
  have v: "digits_value (show_nat n) = n" for n by (simp add: digits_value_def show_nat_value)
  have clamp: "clamp_long i = i" using i by (simp add: clamp_long_def LONG_MAX_def long_ok_def)
  show ?thesis
  proof (cases "i < 0")
    case True
    then have "atol (show_int i) = i" using clamp by (simp add: atol_def signed_def show_int_def v)
    then show ?thesis
      using True neg_lexeme [OF d(3,4)] digits_last [OF d(3,4)] d(4) by (simp add: lexes_to_def show_int_def lex_action_def)
  next
    case False
    have "signed digits_value (show_nat (nat i)) = int (nat i)"
      using digits_last [OF d(1,2)] by (simp add: signed_pos v)
    then have "atol (show_int i) = i" using False clamp by (simp add: atol_def show_int_def)
    then show ?thesis
      using False nat_lexeme [OF d(1,2)] digits_last [OF d(1,2)] d(2) by (simp add: lexes_to_def show_int_def lex_action_def)
  qed
qed

lemma string_lexes: "string_ok w \<Longrightarrow> lexes_to w (TOK_STRLIT, TokenS w)"
  using string_lexeme by (auto simp: string_ok_def lexes_to_def lex_action_def)

lemma import_lexes:
  assumes "NL \<notin> set w"
  shows "lexes_to (''#import '' @ CHR 0x22 # w @ [CHR 0x22]) (TOK_IMPORT, TokenS w)"
proof -
  have "NL \<notin> set (CHR 0x22 # w @ [CHR 0x22])" using assms by simp
  from import_lexeme [OF this] show ?thesis by (simp add: lexes_to_def lex_action_def)
qed

lemma sign_lexes: "(k, [t]) \<in> set puncts \<Longrightarrow> lexes_to k (t, Token0)"
  by (auto simp: puncts_def lexes_to_def lex_action_def sign_lexemes)

lemma token_lexes: "token_ok tv \<Longrightarrow> lexes_to (show_tok tv) tv"
proof -
  assume ok: "token_ok tv"
  obtain t v where tv: "tv = (t, v)" by (cases tv)
  consider "t = TOK_IDENT" | "t = TOK_STRLIT" | "t = TOK_INTEGER" | "t = TOK_IMPORT"
    | (sign) "v = Token0" "t \<notin> {TOK_IDENT, TOK_STRLIT, TOK_INTEGER, TOK_IMPORT}"
    using ok tv by (auto simp: token_ok_def split: if_splits)
  then show ?thesis
  proof cases
    case sign
    have "(sign_text t, [t]) \<in> set puncts \<or> (sign_text t, t) \<in> set word_tokens"
      using sign(2) by (cases t) (simp_all add: sign_text_def puncts_def word_tokens_def)
    then show ?thesis using sign_lexes keyword_lexes sign tv by (auto simp: show_tok_def)
  qed (use ok tv name_lexes string_lexes number_lexes import_lexes in \<open>auto simp: token_ok_def show_tok_def\<close>)
qed

lemma scan_token:
  assumes "lexes_to w tv"
  shows "\<exists>a. scan False True (w @ NL # s) = (a, w) # (L_blank, [NL]) # scan False True s \<and> lex_action a w = Some ([tv], [])"
proof -
  obtain a where a: "next_lexeme False True (w @ NL # s) = (a, length w)" "a \<noteq> L_comment" "a \<noteq> L_end_comment"
      "lex_action a w = Some ([tv], [])" using assms by (auto simp: lexes_to_def)
  have "scan False False (NL # s) = (L_blank, [NL]) # scan False True s"
    by (subst scan_step [OF _ newline_lexeme]) (simp_all add: start_condition_def)
  then have "scan False True (w @ NL # s) = (a, w) # (L_blank, [NL]) # scan False True s"
    using assms a(2,3) by (subst scan_step [OF _ a(1)]) (auto simp: start_condition_def lexes_to_def)
  with a(4) show ?thesis by blast
qed

lemma unlex_read:
  "\<forall>t \<in> set ts. token_ok t \<Longrightarrow> \<exists>tqs p'. run_actions (scan False True (unlex ts)) p = Some (tqs, [], p') \<and> map fst tqs = ts"
proof (induction ts arbitrary: p)
  case (Cons t ts)
  obtain a where a: "scan False True (show_tok t @ NL # unlex ts) = (a, show_tok t) # (L_blank, [NL]) # scan False True (unlex ts)"
      "lex_action a (show_tok t) = Some ([t], [])"
    using scan_token [OF token_lexes] Cons.prems by fastforce
  let ?p = "user_action [NL] (user_action (show_tok t) p)"
  obtain tqs p' where "run_actions (scan False True (unlex ts)) ?p = Some (tqs, [], p')" "map fst tqs = ts"
    using Cons by fastforce
  moreover have "unlex (t # ts) = show_tok t @ NL # unlex ts" by (simp add: unlex_def)
  ultimately show ?case using a by (simp add: Let_def lex_action_def)
qed (simp add: unlex_def)

theorem positions_and_reports_witness:
  "\<exists>ts code p. mvstlex (unlex [(TOK_IDENT, TokenS ''a''), (TOK_SEMI, Token0)]) (new_MVST_Parser ''f'' (unlex [(TOK_IDENT, TokenS ''a''), (TOK_SEMI, Token0)]) []) =
     Some (ts, code, p) \<and> m_line p = 2 \<and> m_pos p + m_col p = 4"
proof -
  let ?src = "unlex [(TOK_IDENT, TokenS ''a''), (TOK_SEMI, Token0)]"
  have "name_ok ''a''" by code_simp
  then obtain ts p where l: "mvstlex ?src (new_MVST_Parser ''f'' ?src []) = Some (ts, [], p)"
    using unlex_read [of "[(TOK_IDENT, TokenS ''a''), (TOK_SEMI, Token0)]" "new_MVST_Parser ''f'' ?src []"]
    by (auto simp: mvstlex_def token_ok_def)
  have "text_line ?src = 2" "length ?src = 4" by code_simp+
  with positions_and_reports [OF l] l show ?thesis by auto
qed

text \<open>A colon between two names is part of a name: behind \<^verbatim>\<open>case\<close> it is not seen.\<close>

lemma colon_in_name: "scan False True ''A:int'' = [(L_ident, ''A:int'')]"
  by code_simp

text \<open>A carriage return is no blank: it is copied to the output.\<close>

lemma cr_copied: "scan False True [CHR 0x0D, NL] = [(L_echo, [CHR 0x0D]), (L_blank, [NL])]"
  by code_simp

end
