(* ===== verification/Idl_Files.thy ===== *)
theory Idl_Files
  imports Idl_Parser_Props Idl_Lexer_Props
begin

text \<open>
  Scanner, grammar and imports together: what \<open>MVST_Parser::parseFile\<close> makes of the files of an interface.
\<close>

section \<open>Texts\<close>

lemma derived_text:
  assumes "trlunit_g ts u" "\<forall>t \<in> set ts. token_ok t" "CHR 0x00 \<notin> set (unlex ts)"
  shows "parse_text nm dirs (unlex ts) = Some ([], u)"
proof -
  have src: "takeWhile (\<lambda>c. c \<noteq> CHR 0x00) (unlex ts) = unlex ts" using assms(3) by (auto simp: takeWhile_eq_all_conv)
  obtain tqs p' where "mvstlex (unlex ts) (new_MVST_Parser nm (unlex ts) dirs) = Some (tqs, [], p')" "map fst tqs = ts"
    using unlex_read [OF assms(2), of "new_MVST_Parser nm (unlex ts) dirs"] by (auto simp: mvstlex_def)
  moreover have "parse_tokens ts = Some u" using assms(1) by (simp add: parse_tokens_iff)
  ultimately show ?thesis unfolding parse_text_def src by simp
qed

section \<open>Imports\<close>

lemma import_all_Parsed:
  "list_all2 (\<lambda>i u. import_action pf dirs i = Parsed u) is us \<Longrightarrow> import_all pf dirs is = Inr us"
  by (induction rule: list_all2_induct) simp_all

text \<open>The directories are tried only if the name itself cannot be opened, and the last one that has the file counts.\<close>

lemma try_dirs_last:
  assumes "\<forall>d \<in> set dirs'. pf (d @ nm) = NoFile" "pf (d @ nm) = Parsed u"
    and "\<forall>d \<in> set dirs. pf (d @ nm) = NoFile \<or> (\<exists>v. pf (d @ nm) = Parsed v)"
  shows "try_dirs pf nm (dirs @ d # dirs') found = Parsed u"
proof -
  have stop: "try_dirs pf nm dirs' found = found" for found using assms(1) by (induction dirs') auto
  show ?thesis using assms(2,3) stop by (induction dirs arbitrary: found) auto
qed

text \<open>C19: an interface that is written out is read back. If the grammar derives a sequence of tokens that can be written, then
  the file with their text is read as the unit that the derivation computes, with the units of its imports in
  order; nothing else ends up in the unit.\<close>

theorem interface_read_back:
  assumes "trlunit_g ts (imports, types, programs)" "\<forall>t \<in> set ts. token_ok t" "CHR 0x00 \<notin> set (unlex ts)"
    and "files nm = Some (unlex ts)" "list_all2 (\<lambda>i u. import_action (parseFile files n dirs) dirs i = Parsed u) imports us"
  shows "parseFile files (Suc n) dirs nm = Parsed (TrlUnit nm [] us types programs)"
  using derived_text [OF assms(1-3), of nm dirs] import_all_Parsed [OF assms(5)] assms(4) by simp

text \<open>\<^verbatim>\<open>struct A { int x; };\<close>\<close>

definition demo_tokens :: "token list" where
  "demo_tokens =
     [(TOK_STRUCT, Token0), (TOK_IDENT, TokenS ''A''), (TOK_LBRACE, Token0), (TOK_IDENT, TokenS ''int''), (TOK_IDENT, TokenS ''x''),
      (TOK_SEMI, Token0), (TOK_RBRACE, Token0), (TOK_SEMI, Token0)]"

lemma demo_derived: "trlunit_g demo_tokens ([], [StructDef ''A'' [] [\<lparr>d_type = new_TypeRef ''int'', d_id = ''x''\<rparr>]], [])"
  unfolding parse_tokens_iff [symmetric] by code_simp

lemma demo_ok: "\<forall>t \<in> set demo_tokens. token_ok t" "CHR 0x00 \<notin> set (unlex demo_tokens)"
proof -
  have "name_ok ''A''" "name_ok ''int''" "name_ok ''x''" by code_simp+
  then show "\<forall>t \<in> set demo_tokens. token_ok t" by (auto simp: demo_tokens_def token_ok_def)
  show "CHR 0x00 \<notin> set (unlex demo_tokens)" by code_simp
qed

theorem interface_read_back_witness:
  "parseFile [''a.x'' \<mapsto> unlex demo_tokens] 1 [] ''a.x'' =
     Parsed (TrlUnit ''a.x'' [] [] [StructDef ''A'' [] [\<lparr>d_type = new_TypeRef ''int'', d_id = ''x''\<rparr>]] [])"
  using interface_read_back [OF demo_derived demo_ok, of "[''a.x'' \<mapsto> unlex demo_tokens]" "''a.x''" 0 "[]" "[]"] by simp

section \<open>Nesting\<close>

lemma try_dirs_deep:
  "(\<And>d. d \<in> set dirs \<Longrightarrow> pf (d @ nm) \<noteq> TooDeep) \<Longrightarrow> found \<noteq> TooDeep \<Longrightarrow> try_dirs pf nm dirs found \<noteq> TooDeep"
  by (induction dirs arbitrary: found) (auto split: idl_result.split)

lemma import_all_deep:
  assumes "\<And>i f. i \<in> set is \<Longrightarrow> f \<in> insert i ((\<lambda>d. d @ i) ` set dirs) \<Longrightarrow> pf f \<noteq> TooDeep"
  shows "import_all pf dirs is \<noteq> Inl TooDeep"
  using assms
proof (induction "is")
  case (Cons i "is")
  have "pf i \<noteq> TooDeep" "\<And>d. d \<in> set dirs \<Longrightarrow> pf (d @ i) \<noteq> TooDeep" using Cons.prems [of i] by auto
  then have "import_action pf dirs i \<noteq> TooDeep"
    using try_dirs_deep [of dirs pf i NoFile] by (auto simp: import_action_def split: idl_result.split)
  moreover have "import_all pf dirs is \<noteq> Inl TooDeep" by (rule Cons.IH, rule Cons.prems) auto
  ultimately show ?case by (auto split: idl_result.split sum.split)
qed simp



text \<open>A file that imports itself, or two that import each other, are read without end.\<close>

lemma self_import_never_ends:
  assumes "files nm = Some src" "parse_text nm dirs src = Some (code, nm # is, ts, ps)"
  shows "parseFile files n dirs nm = TooDeep"
  by (induction n) (use assms in \<open>simp_all add: import_action_def\<close>)

end
