(* ===== verification/Event_KQueue.thy ===== *)
theory Event_KQueue
  imports Event_Props
begin

text \<open>
  The second driver of the event loop, \<^verbatim>\<open>lib/eci/Event-KQueue.cc\<close>, over the kernel queues of the
  BSD systems. It keeps the same lists of sources as the first, but the kernel keeps what is watched.

  \<^item> The kernel is a parameter: \<open>kev\<close> is a call of \<open>kevent\<close> that changes one filter (\<open>None\<close> is success,
    \<open>Some\<close> the \<open>errno\<close>), \<open>kq_wait\<close> of the environment one that waits for an event. What the driver
    relies on in the kernel are the laws of the locale \<open>kernel_queue\<close>.
  \<^item> A function that reaches its end without a \<open>return\<close> has the result \<open>None\<close>.
  \<^item> Console output is not modelled.
\<close>

section \<open>State\<close>

datatype kfilter = EVFILT_READ | EVFILT_WRITE | EVFILT_TIMER | EVFILT_SIGNAL | EVFILT_OTHER int

datatype kchange = EvAdd int kfilter bool int | EvDelete int kfilter

record kevent =
  ke_ident :: int
  ke_filter :: kfilter
  ke_eof :: bool
  ke_data :: int

record ('h, 'k) KqLoop =
  kqFD :: int
  k_fdSources :: "'h FDSource list"
  k_sigSources :: "'h SignalSource list"
  k_timerSources :: "'h TimerSource list"
  kern :: 'k
  ignored :: "int list"
  k_errno :: int
  k_nextNode :: nat
  k_faults :: "fault list"

type_synonym 'k kernel = "kchange \<Rightarrow> 'k \<Rightarrow> int option \<times> 'k"

record ('h, 'k, 'w) kq_env =
  kq_invoke :: "'h \<Rightarrow> callback \<Rightarrow> ('h, 'k) KqLoop \<times> 'w \<Rightarrow> ('h, 'k) KqLoop \<times> 'w"
  kq_wait :: "timespec option \<Rightarrow> 'k \<Rightarrow> 'w \<Rightarrow> (int + kevent option) \<times> 'k \<times> 'w"

definition kq_fault :: "fault \<Rightarrow> ('h, 'k) KqLoop \<Rightarrow> ('h, 'k) KqLoop" where
  "kq_fault f st = st\<lparr>k_faults := k_faults st @ [f]\<rparr>"

text \<open>\<open>kevent(kqFD, &ev, 1, 0, 0, 0)\<close>: 0, or -1 with \<open>errno\<close> set.\<close>

definition kevent_change :: "'k kernel \<Rightarrow> kchange \<Rightarrow> ('h, 'k) KqLoop \<Rightarrow> int \<times> ('h, 'k) KqLoop" where
  "kevent_change kev c st =
     (case kev c (kern st) of
        (None, k) \<Rightarrow> (0, st\<lparr>kern := k\<rparr>)
      | (Some e, k) \<Rightarrow> (-1, st\<lparr>kern := k, k_errno := e\<rparr>))"

section \<open>Registering\<close>

definition kq_addFD ::
  "'k kernel \<Rightarrow> bool \<Rightarrow> 'h option \<Rightarrow> int \<Rightarrow> int \<Rightarrow> ('h, 'k) KqLoop \<Rightarrow> int \<times> ('h, 'k) KqLoop" where
  "kq_addFD kev alloc_ok handler fd events st =
     (if \<not> alloc_ok then (- ENOMEM, st)
      else
        (let pop = (\<lambda>s. s\<lparr>k_fdSources := butlast (k_fdSources s)\<rparr>);
             st1 = st\<lparr>k_fdSources := k_fdSources st @ [\<lparr>fs_node = k_nextNode st, fs_handler = handler, fs_fd = fd\<rparr>],
                      k_nextNode := k_nextNode st + 1\<rparr>;
             (r1, st2) = (if events AND POLLIN \<noteq> 0 then kevent_change kev (EvAdd fd EVFILT_READ False 0) st1 else (0, st1));
             addedRead = (events AND POLLIN \<noteq> 0)
         in if r1 = -1 then (- k_errno st2, pop st2)
            else if events AND POLLOUT \<noteq> 0 then
              (let (r2, st3) = kevent_change kev (EvAdd fd EVFILT_WRITE False 0) st2
               in if r2 = -1 then
                    (let st4 = pop st3;
                         st5 = (if addedRead then snd (kevent_change kev (EvDelete fd EVFILT_READ) st4) else st4)
                     in (- k_errno st5, st5))
                  else (0, st3))
            else (0, st2)))"

text \<open>\<open>addSignal\<close>: \<open>ign\<close> is the \<open>errno\<close> of \<open>signal(signum, SIG_IGN)\<close> if it failed.\<close>

definition kq_pop_sig :: "('h, 'k) KqLoop \<Rightarrow> ('h, 'k) KqLoop" where
  "kq_pop_sig s =
     (if k_sigSources s = [] then kq_fault (OutOfBounds ''sigSources'' (-1)) s
      else s\<lparr>k_sigSources := butlast (k_sigSources s)\<rparr>)"

definition kq_addSignal ::
  "'k kernel \<Rightarrow> bool \<Rightarrow> int option \<Rightarrow> 'h option \<Rightarrow> int \<Rightarrow> ('h, 'k) KqLoop \<Rightarrow> int option \<times> ('h, 'k) KqLoop" where
  "kq_addSignal kev alloc_ok ign handler signum st =
     (if \<not> alloc_ok then (Some (- ENOMEM), st)
      else
        (let st1 = st\<lparr>k_sigSources := k_sigSources st @ [\<lparr>ss_node = k_nextNode st, ss_handler = handler, ss_sigNum = signum\<rparr>],
                      k_nextNode := k_nextNode st + 1\<rparr>;
             (r1, st2) = kevent_change kev (EvAdd signum EVFILT_SIGNAL False 0) st1
         in if r1 = -1 then (Some (- k_errno st2), kq_pop_sig st2)
            else case ign of
                   None \<Rightarrow> (None, st2\<lparr>ignored := ignored st2 @ [signum]\<rparr>)
                 | Some olderrno \<Rightarrow>
                     (let st3 = kq_pop_sig (st2\<lparr>k_errno := olderrno\<rparr>);
                          (r2, st4) = kevent_change kev (EvDelete signum EVFILT_SIGNAL) st3
                      in if r2 = -1 then (Some (- k_errno st4), kq_pop_sig st4) else (Some (- olderrno), st4))))"

text \<open>\<open>addTimer\<close>: \<open>rnd\<close> is what \<open>rand\<close> returned.\<close>

definition kq_addTimer ::
  "'k kernel \<Rightarrow> bool \<Rightarrow> int \<Rightarrow> 'h option \<Rightarrow> timespec option \<Rightarrow> ('h, 'k) KqLoop \<Rightarrow> int \<times> ('h, 'k) KqLoop" where
  "kq_addTimer kev alloc_ok rnd handler ts st =
     (let ident = \<bar>rnd\<bar>
      in if \<not> alloc_ok then (- ENOMEM, st)
         else
           (let st1 = st\<lparr>k_timerSources := k_timerSources st @ [\<lparr>ts_node = k_nextNode st, ts_handler = handler, ts_id = ident\<rparr>],
                         k_nextNode := k_nextNode st + 1\<rparr>;
                (r, st2) = kevent_change kev (EvAdd ident EVFILT_TIMER True (timeSpecToMSecs ts)) st1
            in if r = -1 then (- k_errno st2, st2\<lparr>k_timerSources := butlast (k_timerSources st2)\<rparr>)
               else (ident, st2)))"

section \<open>Deregistering\<close>

definition kq_delFD :: "'k kernel \<Rightarrow> int \<Rightarrow> ('h, 'k) KqLoop \<Rightarrow> int \<times> ('h, 'k) KqLoop" where
  "kq_delFD kev fd st =
     (let st1 = st\<lparr>k_fdSources := remove_first (\<lambda>s. fs_fd s = fd) (k_fdSources st)\<rparr>;
          (r1, st2) = kevent_change kev (EvDelete fd EVFILT_READ) st1;
          (r2, st3) = kevent_change kev (EvDelete fd EVFILT_WRITE) st2;
          succeeded = (r1 \<noteq> -1 \<or> r2 \<noteq> -1)
      in (if succeeded then 0 else - ENOENT, st3))"

definition kq_delSignal :: "int \<Rightarrow> ('h, 'k) KqLoop \<Rightarrow> int \<times> ('h, 'k) KqLoop" where
  "kq_delSignal sigNum st = (- EBADF, st)"

definition kq_delTimer :: "'k kernel \<Rightarrow> int \<Rightarrow> ('h, 'k) KqLoop \<Rightarrow> int \<times> ('h, 'k) KqLoop" where
  "kq_delTimer kev entryID st =
     (let st1 = st\<lparr>k_timerSources := remove_first (\<lambda>s. ts_id s = entryID) (k_timerSources st)\<rparr>;
          (r, st2) = kevent_change kev (EvDelete entryID EVFILT_TIMER) st1
      in if r = -1 then (- k_errno st2, st2) else (0, st2))"

text \<open>\<open>init\<close>: \<open>Inr\<close> is the descriptor that \<open>kqueue\<close> returned, with the new queue.\<close>

definition kq_init :: "int + int \<times> 'k \<Rightarrow> ('h, 'k) KqLoop \<Rightarrow> int option \<times> ('h, 'k) KqLoop" where
  "kq_init queue st =
     (case queue of
        Inl e \<Rightarrow> (Some (- e), st\<lparr>kqFD := -1, k_errno := e\<rparr>)
      | Inr (fd, k) \<Rightarrow> (None, st\<lparr>kqFD := fd, kern := k\<rparr>))"

section \<open>One iteration of the event loop\<close>

definition kq_call ::
  "('h, 'k, 'w) kq_env \<Rightarrow> 'h option \<Rightarrow> callback \<Rightarrow> ('h, 'k) KqLoop \<times> 'w \<Rightarrow> ('h, 'k) KqLoop \<times> 'w" where
  "kq_call e h cb s = (case h of Some h' \<Rightarrow> kq_invoke e h' cb s | None \<Rightarrow> (kq_fault NullCall (fst s), snd s))"

definition kq_revents :: "kevent \<Rightarrow> int" where
  "kq_revents ev =
     (if ke_filter ev = EVFILT_READ then
        (if ke_eof ev then (if ke_data ev \<noteq> 0 then POLLIN OR POLLHUP else POLLHUP) else POLLIN)
      else if ke_eof ev then POLLHUP else POLLOUT)"

text \<open>\<open>timerSources.erase(it)\<close>: the node must still be in the list.\<close>

definition kq_erase_timer :: "nat \<Rightarrow> ('h, 'k) KqLoop \<Rightarrow> ('h, 'k) KqLoop" where
  "kq_erase_timer node st =
     (if \<exists>s \<in> set (k_timerSources st). ts_node s = node
      then st\<lparr>k_timerSources := remove_first (\<lambda>s. ts_node s = node) (k_timerSources st)\<rparr>
      else kq_fault (Dangling ''timerSources'') st)"

text \<open>The \<open>switch\<close> over the filter of the event.\<close>

definition kq_dispatch ::
  "('h, 'k, 'w) kq_env \<Rightarrow> kevent \<Rightarrow> ('h, 'k) KqLoop \<times> 'w \<Rightarrow> ('h, 'k) KqLoop \<times> 'w" where
  "kq_dispatch e ev s =
     (if ke_filter ev = EVFILT_READ \<or> ke_filter ev = EVFILT_WRITE then
        (case find (\<lambda>src. fs_fd src = ke_ident ev) (k_fdSources (fst s)) of
           None \<Rightarrow> s
         | Some src \<Rightarrow> kq_call e (fs_handler src) (FdEvent (ke_ident ev) (kq_revents ev)) s)
      else if ke_filter ev = EVFILT_TIMER then
        (case find (\<lambda>src. ts_id src = ke_ident ev) (k_timerSources (fst s)) of
           None \<Rightarrow> s
         | Some src \<Rightarrow>
             (let s1 = kq_call e (ts_handler src) (TimerEvent (ke_ident ev)) s
              in (kq_erase_timer (ts_node src) (fst s1), snd s1)))
      else if ke_filter ev = EVFILT_SIGNAL then
        (case find (\<lambda>src. ss_sigNum src = ke_ident ev) (k_sigSources (fst s)) of
           None \<Rightarrow> s
         | Some src \<Rightarrow> kq_call e (ss_handler src) (SignalEvent (ke_ident ev)) s)
      else s)"

definition kq_loop ::
  "('h, 'k, 'w) kq_env \<Rightarrow> timespec option \<Rightarrow> ('h, 'k) KqLoop \<times> 'w \<Rightarrow> int \<times> ('h, 'k) KqLoop \<times> 'w" where
  "kq_loop e ts s =
     (let (st, w) = s; (r, k, w1) = kq_wait e ts (kern st) w; st1 = st\<lparr>kern := k\<rparr>
      in case r of
           Inl err \<Rightarrow> (- err, st1\<lparr>k_errno := err\<rparr>, w1)
         | Inr None \<Rightarrow> (0, st1, w1)
         | Inr (Some ev) \<Rightarrow> (1, kq_dispatch e ev (st1, w1)))"

section \<open>What the driver relies on in the kernel\<close>

text \<open>
  \<^verbatim>\<open>kqueue(2)\<close>: \<open>EV_ADD\<close> adds the filter, or modifies it if it is there already; \<open>EV_DELETE\<close> removes it,
  and fails with \<open>ENOENT\<close> if there is none. (As for the other driver, running out of memory is left out.)
\<close>

locale kernel_queue =
  fixes kev :: "kchange \<Rightarrow> 'k \<Rightarrow> int option \<times> 'k"
    and filters :: "'k \<Rightarrow> (int \<times> kfilter) set"
  assumes add_ret: "fst (kev (EvAdd i f oneshot d) k) = None"
    and add_filters: "filters (snd (kev (EvAdd i f oneshot d) k)) = insert (i, f) (filters k)"
    and delete_ret: "fst (kev (EvDelete i f) k) = (if (i, f) \<in> filters k then None else Some ENOENT)"
    and delete_filters: "filters (snd (kev (EvDelete i f) k)) = filters k - {(i, f)}"

definition kq_watched :: "('h, 'k) KqLoop \<Rightarrow> (int \<times> 'h option) list" where
  "kq_watched st = map (\<lambda>s. (fs_fd s, fs_handler s)) (k_fdSources st)"

text \<open>Each descriptor has one source, and the kernel has a filter for exactly the descriptors with a source.\<close>

definition kq_inv :: "('k \<Rightarrow> (int \<times> kfilter) set) \<Rightarrow> ('h, 'k) KqLoop \<Rightarrow> bool" where
  "kq_inv filters st \<longleftrightarrow>
     distinct (map fst (kq_watched st)) \<and>
     (\<forall>fd. fd \<in> fst ` set (kq_watched st) \<longleftrightarrow> (fd, EVFILT_READ) \<in> filters (kern st) \<or> (fd, EVFILT_WRITE) \<in> filters (kern st))"

text \<open>The events that the header supports.\<close>

definition kq_useful :: "int \<Rightarrow> bool" where
  "kq_useful ev \<longleftrightarrow> ev AND POLLIN \<noteq> 0 \<or> ev AND POLLOUT \<noteq> 0"

context kernel_queue
begin

lemma change_add:
  "fst (kevent_change kev (EvAdd i f oneshot d) st) = 0"
  "snd (kevent_change kev (EvAdd i f oneshot d) st) = st\<lparr>kern := snd (kev (EvAdd i f oneshot d) (kern st))\<rparr>"
  using add_ret [of i f oneshot d "kern st"]
  by (auto simp: kevent_change_def split: prod.splits option.splits)

lemma change_delete:
  "fst (kevent_change kev (EvDelete i f) st) = (if (i, f) \<in> filters (kern st) then 0 else -1)"
  "filters (kern (snd (kevent_change kev (EvDelete i f) st))) = filters (kern st) - {(i, f)}"
  "k_fdSources (snd (kevent_change kev (EvDelete i f) st)) = k_fdSources st"
  "k_timerSources (snd (kevent_change kev (EvDelete i f) st)) = k_timerSources st"
proof -
  obtain r k where k: "kev (EvDelete i f) (kern st) = (r, k)" by fastforce
  have r: "r = (if (i, f) \<in> filters (kern st) then None else Some ENOENT)" and fs: "filters k = filters (kern st) - {(i, f)}"
    using delete_ret [of i f "kern st"] delete_filters [of i f "kern st"] unfolding k by simp_all
  show "fst (kevent_change kev (EvDelete i f) st) = (if (i, f) \<in> filters (kern st) then 0 else -1)"
    "filters (kern (snd (kevent_change kev (EvDelete i f) st))) = filters (kern st) - {(i, f)}"
    "k_fdSources (snd (kevent_change kev (EvDelete i f) st)) = k_fdSources st"
    "k_timerSources (snd (kevent_change kev (EvDelete i f) st)) = k_timerSources st"
    unfolding kevent_change_def k r by (simp_all add: fs)
qed

lemma addFD_effect:
  "fst (kq_addFD kev True h fd ev st) = 0"
  "kq_watched (snd (kq_addFD kev True h fd ev st)) = kq_watched st @ [(fd, h)]"
  "filters (kern (snd (kq_addFD kev True h fd ev st))) = filters (kern st) \<union>
     (if ev AND POLLIN \<noteq> 0 then {(fd, EVFILT_READ)} else {}) \<union> (if ev AND POLLOUT \<noteq> 0 then {(fd, EVFILT_WRITE)} else {})"
  by (auto simp: kq_addFD_def kq_watched_def Let_def case_prod_beta change_add add_filters)

lemma delFD_effect:
  "kq_watched (snd (kq_delFD kev fd st)) = remove_first (\<lambda>x. fst x = fd) (kq_watched st)"
  "filters (kern (snd (kq_delFD kev fd st))) = filters (kern st) - {(fd, EVFILT_READ), (fd, EVFILT_WRITE)}"
  "fst (kq_delFD kev fd st) =
     (if (fd, EVFILT_READ) \<in> filters (kern st) \<or> (fd, EVFILT_WRITE) \<in> filters (kern st) then 0 else - ENOENT)"
proof -
  show "kq_watched (snd (kq_delFD kev fd st)) = remove_first (\<lambda>x. fst x = fd) (kq_watched st)"
    using map_remove_first [of "\<lambda>s. (fs_fd s, fs_handler s)" "\<lambda>x. fst x = fd" "k_fdSources st"]
    by (simp add: kq_delFD_def kq_watched_def Let_def case_prod_beta change_delete(3))
  show "filters (kern (snd (kq_delFD kev fd st))) = filters (kern st) - {(fd, EVFILT_READ), (fd, EVFILT_WRITE)}"
    by (simp add: kq_delFD_def Let_def case_prod_beta change_delete(2)) blast
  show "fst (kq_delFD kev fd st) =
     (if (fd, EVFILT_READ) \<in> filters (kern st) \<or> (fd, EVFILT_WRITE) \<in> filters (kern st) then 0 else - ENOENT)"
    by (simp add: kq_delFD_def Let_def case_prod_beta change_delete(1,2))
qed

end

sublocale kernel_queue \<subseteq> kq_list: watch_list "kq_inv filters" "\<lambda>_. {}" kq_watched "kq_addFD kev True" "kq_delFD kev" kq_useful
proof unfold_locales
  fix st :: "('h, 'k) KqLoop" and h :: "'h option" and fd ev :: int
  show "kq_inv filters st \<Longrightarrow> distinct (map fst (kq_watched st))" by (simp add: kq_inv_def)
  show "{} \<inter> fst ` set (kq_watched st) = {}" by simp
  show "fst (kq_addFD kev True h fd ev st) = 0" by (rule addFD_effect)
  show "kq_watched (snd (kq_addFD kev True h fd ev st)) = kq_watched st @ [(fd, h)]" by (rule addFD_effect)
  show "kq_inv filters (snd (kq_addFD kev True h fd ev st))"
    if "kq_inv filters st" "kq_useful ev" "fd \<notin> fst ` set (kq_watched st)"
    using that unfolding kq_inv_def kq_useful_def addFD_effect by auto
  show "kq_watched (snd (kq_delFD kev fd st)) = remove_first (\<lambda>x. fst x = fd) (kq_watched st)" by (rule delFD_effect)
  assume inv: "kq_inv filters st"
  then show "fst (kq_delFD kev fd st) = (if fd \<in> fst ` set (kq_watched st) then 0 else - ENOENT)"
    unfolding delFD_effect kq_inv_def by simp
  from inv have "distinct (map fst (kq_watched st))" by (simp add: kq_inv_def)
  note removed = remove_first_distinct [OF this, of fd]
  have fsts: "fst ` set (filter (\<lambda>x. fst x \<noteq> fd) (kq_watched st)) = fst ` set (kq_watched st) - {fd}" by auto
  show "kq_inv filters (snd (kq_delFD kev fd st))"
    using inv fsts unfolding kq_inv_def delFD_effect removed by (simp add: distinct_map_filter) blast
qed simp_all

context kernel_queue
begin

lemma kq_refines:
  assumes "kq_inv filters st" "admissible {} kq_useful ops (kq_watched st)"
  shows "run_codes (kq_addFD kev True) (kq_delFD kev) ops st = spec_codes ops (kq_watched st)"
    "kq_inv filters (run_watch (kq_addFD kev True) (kq_delFD kev) ops st)"
    "kq_watched (run_watch (kq_addFD kev True) (kq_delFD kev) ops st) = fold spec_watch ops (kq_watched st)"
  using kq_list.run_codes_spec [OF assms] kq_list.run_refines [OF assms] by simp_all

end

text \<open>A kernel that keeps the filters in a list.\<close>

fun list_kev :: "(int \<times> kfilter) list kernel" where
  "list_kev (EvAdd i f oneshot d) k = (None, List.insert (i, f) k)"
| "list_kev (EvDelete i f) k = (if (i, f) \<in> set k then None else Some ENOENT, removeAll (i, f) k)"

interpretation list_queue: kernel_queue list_kev set
  by unfold_locales auto

definition kq_blank :: "('h, (int \<times> kfilter) list) KqLoop" where
  "kq_blank = \<lparr>kqFD = 3, k_fdSources = [], k_sigSources = [], k_timerSources = [], kern = [], ignored = [], k_errno = 0,
     k_nextNode = 0, k_faults = []\<rparr>"

section \<open>Properties\<close>


definition poll_start :: "nat EventLoop" where
  "poll_start = snd (init (Inr (3, 4)) True None None blank_loop)"



text \<open>A queue that reports input and hang-up on descriptor 5.\<close>

definition kq_hangup :: "timespec option \<Rightarrow> (int \<times> kfilter) list \<Rightarrow> string \<Rightarrow> (int + kevent option) \<times> (int \<times> kfilter) list \<times> string" where
  "kq_hangup ts k w = (Inr (Some \<lparr>ke_ident = 5, ke_filter = EVFILT_READ, ke_eof = True, ke_data = 12\<rparr>), k, w)"

definition kq_default :: "(nat, (int \<times> kfilter) list, string) kq_env" where
  "kq_default = \<lparr>kq_invoke = (\<lambda>h cb (st, w). (st, w @ default_text cb)), kq_wait = kq_hangup\<rparr>"


text \<open>The header promises that the identifier of a timer is unique. The driver draws it at random: if
  the number drawn is the identifier of a timer that is still set, \<open>addTimer\<close> succeeds and returns it again, the kernel has one
  filter for both timers, and when it goes off the handler of the first is called and that of the second is left waiting.\<close>

theorem kq_timer_collision:
  assumes "kernel_queue kev filters" "0 \<le> rnd" "(rnd, EVFILT_TIMER) \<in> filters (kern st)"
    and "find (\<lambda>s. ts_id s = rnd) (k_timerSources st) = Some src" "ts_handler src = Some h1"
  shows "\<exists>st'. kq_addTimer kev True rnd (Some h2) ts st = (rnd, st') \<and> filters (kern st') = filters (kern st) \<and>
    k_timerSources st' = k_timerSources st @ [\<lparr>ts_node = k_nextNode st, ts_handler = Some h2, ts_id = rnd\<rparr>] \<and>
    (\<forall>e eof d w. kq_invoke e h1 (TimerEvent rnd) = (\<lambda>s. s) \<longrightarrow>
       kq_dispatch e \<lparr>ke_ident = rnd, ke_filter = EVFILT_TIMER, ke_eof = eof, ke_data = d\<rparr> (st', w) =
         (st'\<lparr>k_timerSources := remove_first (\<lambda>s. ts_node s = ts_node src) (k_timerSources st')\<rparr>, w))"
proof -
  define st' where "st' = snd (kq_addTimer kev True rnd (Some h2) ts st)"
  note change = kernel_queue.change_add [OF assms(1)]
  have ret: "kq_addTimer kev True rnd (Some h2) ts st = (rnd, st')"
    and sources: "k_timerSources st' = k_timerSources st @ [\<lparr>ts_node = k_nextNode st, ts_handler = Some h2, ts_id = rnd\<rparr>]"
    and queue: "filters (kern st') = filters (kern st)"
    using assms(2,3) kernel_queue.add_filters [OF assms(1)]
    by (auto simp: st'_def kq_addTimer_def Let_def case_prod_beta change)
  have "find (\<lambda>s. ts_id s = rnd) (k_timerSources st') = Some src" by (simp add: sources find_append assms(4))
  moreover have "\<exists>s \<in> set (k_timerSources st'). ts_node s = ts_node src"
    using find_SomeD [OF assms(4)] by (auto simp: sources)
  ultimately show ?thesis
    using ret sources queue assms(5) by (simp add: kq_dispatch_def kq_call_def kq_erase_timer_def Let_def)
qed

theorem kq_timer_collision_witness:
  "\<exists>st'. kq_addTimer list_kev True 7 (Some 2) None (snd (kq_addTimer list_kev True 7 (Some (1 :: nat)) None kq_blank)) = (7, st')"
proof -
  define st where "st = snd (kq_addTimer list_kev True 7 (Some (1 :: nat)) None kq_blank)"
  have "k_timerSources st = [\<lparr>ts_node = 0, ts_handler = Some 1, ts_id = 7\<rparr>]" "kern st = [(7, EVFILT_TIMER)]"
    by (simp_all add: st_def kq_addTimer_def kq_blank_def kevent_change_def)
  then show ?thesis
    using kq_timer_collision [OF list_queue.kernel_queue_axioms, of 7 st "\<lparr>ts_node = 0, ts_handler = Some 1, ts_id = 7\<rparr>" 1 2 None]
    unfolding st_def by auto
qed

end
