(* ===== verification/Addsys.thy ===== *)
theory Addsys
  imports Ucl_Api Sqlite
begin

text \<open>
  The importer of service bundles, \<^verbatim>\<open>cmd/addsys.cc\<close>: a bundle is read with libucl, turned into a tree
  of classes, instances and properties, and written to the repository in one transaction.

  \<^item> libucl is the parameter \<open>u\<close>, SQLite the parameter \<open>A\<close>.
  \<^item> The functions that append to a list of properties return what they append.
  \<^item> Undefined behaviour ends the processing of a bundle (the null pointers it is about cannot be
    worked with): it is an error value like a failed assertion. The recursion of \<open>processPage\<close> takes fuel.
  \<^item> Console output is not modelled.
\<close>

section \<open>Data\<close>

datatype Property = PropString (pr_key: string) string | PropPage (pr_key: string) "Property list"

record Instance =
  in_name :: string
  in_properties :: "Property list"

record SvcClass =
  cl_name :: string
  cl_instances :: "Instance list"
  cl_properties :: "Property list"

datatype proc_error = Undefined fault | AssertionFailed string | NoFuel

text \<open>A loop whose body may fail.\<close>

fun collect :: "('a \<Rightarrow> 'e + 'b) \<Rightarrow> 'a list \<Rightarrow> 'e + 'b list" where
  "collect f [] = Inr []"
| "collect f (x # xs) =
     (case f x of Inl e \<Rightarrow> Inl e | Inr y \<Rightarrow> (case collect f xs of Inl e \<Rightarrow> Inl e | Inr ys \<Rightarrow> Inr (y # ys)))"

text \<open>A \<open>char *\<close> that is used without a check.\<close>

definition need :: "string \<Rightarrow> string option \<Rightarrow> (string \<Rightarrow> proc_error + 'a) \<Rightarrow> proc_error + 'a" where
  "need what s f = (case s of None \<Rightarrow> Inl (Undefined (NullString what)) | Some x \<Rightarrow> f x)"

section \<open>Processing a bundle\<close>

text \<open>\<open>new PropString(...)\<close> for a string member.\<close>

definition string_prop :: "'o ucl_api \<Rightarrow> 'o \<Rightarrow> proc_error + Property" where
  "string_prop u member =
     need ''key'' (ucl_object_key u member) (\<lambda>k.
     need ''value'' (ucl_object_tostring u member) (\<lambda>v. Inr (PropString k v)))"

fun processPage :: "'o ucl_api \<Rightarrow> nat \<Rightarrow> 'o \<Rightarrow> string option \<Rightarrow> proc_error + Property" where
  "processPage u 0 obj type = Inl NoFuel"
| "processPage u (Suc n) obj type =
     (if ucl_object_type u obj \<noteq> UCL_OBJECT then Inl (AssertionFailed ''ucl_object_type(obj) == UCL_OBJECT'')
      else need ''key'' (ucl_object_key u obj) (\<lambda>key.
        case (if type = None then need ''type'' type (\<lambda>t. Inr [PropString ''type'' t]) else Inr []) of
          Inl e \<Rightarrow> Inl e
        | Inr typeProps \<Rightarrow>
            (case collect (\<lambda>member. if ucl_object_type u member = UCL_STRING then string_prop u member
                                     else processPage u n member None) (ucl_iterate_object u obj) of
               Inl e \<Rightarrow> Inl e
             | Inr members \<Rightarrow> Inr (PropPage key (typeProps @ members)))))"

definition processProp :: "'o ucl_api \<Rightarrow> nat \<Rightarrow> 'o \<Rightarrow> proc_error + Property" where
  "processProp u n obj =
     (if ucl_object_type u obj = UCL_STRING then string_prop u obj else processPage u n obj None)"

text \<open>
  \<open>processDeps\<close>: the two strings made from the name of the instance and the direction of the dependency are
  not added to the page.
\<close>

definition dep_page :: "'o ucl_api \<Rightarrow> bool \<Rightarrow> 'o \<Rightarrow> 'o \<Rightarrow> proc_error + Property" where
  "dep_page u isDependents uclArrDep uclDep =
     need ''instance'' (ucl_object_tostring u uclDep) (\<lambda>nstName.
     let propNstPath = PropString ''instance'' nstName;
         propDepType = PropString ''type'' (if isDependents then ''dependent'' else ''dependency'')
     in need ''depType'' (ucl_object_key u uclArrDep) (\<lambda>depType.
        Inr (PropPage (''dependency_'' @ depType @ nstName) [])))"

definition processDeps :: "'o ucl_api \<Rightarrow> 'o \<Rightarrow> bool \<Rightarrow> proc_error + Property list" where
  "processDeps u obj isDependents =
     map_sum (\<lambda>e. e) concat
       (collect (\<lambda>uclArrDep. collect (dep_page u isDependents uclArrDep) (ucl_iterate_object u uclArrDep)) (ucl_iterate_object u obj))"

definition processMethods :: "'o ucl_api \<Rightarrow> nat \<Rightarrow> 'o \<Rightarrow> proc_error + Property list" where
  "processMethods u n obj = collect (\<lambda>uclPage. processPage u n uclPage (Some ''method'')) (ucl_iterate_object u obj)"

definition processInst :: "'o ucl_api \<Rightarrow> nat \<Rightarrow> 'o \<Rightarrow> proc_error + Instance" where
  "processInst u n inst =
     need ''name'' (ucl_object_key u inst) (\<lambda>name.
       map_sum (\<lambda>e. e) (\<lambda>pss. \<lparr>in_name = name, in_properties = concat pss\<rparr>)
         (collect (\<lambda>obj. need ''key'' (ucl_object_key u obj) (\<lambda>key.
            if key = ''depends'' then processDeps u obj False
            else if key = ''dependents'' then processDeps u obj True
            else if key = ''methods'' then processMethods u n obj
            else Inr [])) (ucl_iterate_object u inst)))"

text \<open>The body of the loop of \<open>process\<close>, for the class built so far.\<close>

definition process_member :: "'o ucl_api \<Rightarrow> nat \<Rightarrow> 'o \<Rightarrow> SvcClass \<Rightarrow> proc_error + SvcClass" where
  "process_member u n obj cls =
     (let addProps = map_sum (\<lambda>e. e) (\<lambda>ps. cls\<lparr>cl_properties := cl_properties cls @ ps\<rparr>)
      in need ''key'' (ucl_object_key u obj) (\<lambda>key.
           if key = ''name'' then need ''name'' (ucl_object_tostring u obj) (\<lambda>s. Inr (cls\<lparr>cl_name := s\<rparr>))
           else if key = ''depends'' then addProps (processDeps u obj False)
           else if key = ''dependents'' then addProps (processDeps u obj True)
           else if key = ''instances'' then
             map_sum (\<lambda>e. e) (\<lambda>is. cls\<lparr>cl_instances := cl_instances cls @ is\<rparr>)
               (collect (processInst u n) (ucl_iterate_object u obj))
           else if key = ''methods'' then addProps (processMethods u n obj)
           else map_sum (\<lambda>e. e) (\<lambda>p. cls\<lparr>cl_properties := cl_properties cls @ [p]\<rparr>) (processProp u n obj)))"

fun process_members :: "'o ucl_api \<Rightarrow> nat \<Rightarrow> 'o list \<Rightarrow> SvcClass \<Rightarrow> proc_error + SvcClass" where
  "process_members u n [] cls = Inr cls"
| "process_members u n (obj # objs) cls =
     (case process_member u n obj cls of Inl e \<Rightarrow> Inl e | Inr cls1 \<Rightarrow> process_members u n objs cls1)"

definition process :: "'o ucl_api \<Rightarrow> nat \<Rightarrow> 'o \<Rightarrow> SvcClass list \<Rightarrow> proc_error + SvcClass list" where
  "process u n uclCls classes =
     map_sum (\<lambda>e. e) (\<lambda>cls. classes @ [cls])
       (process_members u n (ucl_iterate_object u uclCls) \<lparr>cl_name = [], cl_instances = [], cl_properties = []\<rparr>)"

text \<open>
  \<open>parse\<close>: \<open>file\<close> is the object that libucl reads from the bundle, if it can be read; \<open>valid\<close> is
  \<open>ucl_object_validate\<close> for the schema of bundles. A bundle that is not valid is skipped.
\<close>

definition parse :: "'o ucl_api \<Rightarrow> ('o \<Rightarrow> bool) \<Rightarrow> nat \<Rightarrow> 'o option \<Rightarrow> SvcClass list \<Rightarrow> proc_error + SvcClass list" where
  "parse u valid n file classes =
     (case file of
        None \<Rightarrow> Inr classes
      | Some obj \<Rightarrow> if \<not> valid obj then Inr classes else process u n obj classes)"

section \<open>Writing to the repository\<close>

text \<open>The row identifiers are cut to \<open>int\<close>.\<close>

definition last_id :: "('db, 's) sqlite_api \<Rightarrow> ('db, int) sql" where
  "last_id A = sql_lift (\<lambda>db. (int32 (sq_last_insert_rowid A db), db))"

text \<open>The loop over the rows of the old property values.\<close>

fun delete_values :: "('db, 's) sqlite_api \<Rightarrow> nat \<Rightarrow> 's \<Rightarrow> ('db, 's) sql" where
  "delete_values A 0 stmt = (\<lambda>db. (Spinning, db))"
| "delete_values A (Suc n) stmt =
     sql_bind (sql_lift (\<lambda>db. case sq_step A stmt db of (res, stmt1, db1) \<Rightarrow> ((res, stmt1), db1))) (\<lambda>(res, stmt1).
       if res = SQLITE_DONE then sql_return stmt1
       else if res = SQLITE_ROW then
         (let rowID = sq_column_int A stmt1 0
          in sql_bind (exec_or_die A ''Failed to delete old property values''
                 ''DELETE FROM PropertyValues WHERE rowid = %d;'' [ArgD rowID]) (\<lambda>_.
             sql_bind (exec_or_die A ''Failed to delete old properties''
                 ''DELETE FROM Properties WHERE FK_PropertyValueID = %d;'' [ArgD rowID]) (\<lambda>_.
             delete_values A n stmt1)))
       else delete_values A n stmt1)"

definition deleteBundle :: "('db, 's) sqlite_api \<Rightarrow> nat \<Rightarrow> int \<Rightarrow> ('db, unit) sql" where
  "deleteBundle A n bundleID =
     sql_bind (sql_lift (sqlite3_prepare_v2f A ''SELECT rowid FROM PropertyValues WHERE FK_BundleID = %d;'' [ArgD bundleID]))
       (\<lambda>(res, stmt).
         case (if res \<noteq> SQLITE_OK then None else stmt) of
           None \<Rightarrow> die ''Failed to get old property values''
         | Some s \<Rightarrow>
             sql_bind (delete_values A n s) (\<lambda>s1.
             sql_bind (sql_lift (\<lambda>db. ((), sq_finalize A s1 db))) (\<lambda>_.
             exec_or_die A ''Failed to delete old bundle'' ''DELETE FROM Bundles WHERE BundleID = %d;'' [ArgD bundleID])))"

text \<open>Get an identifier with a query, or insert a row and take its identifier.\<close>

definition get_or_create ::
  "('db, 's) sqlite_api \<Rightarrow> string \<times> fmt_arg list \<Rightarrow> string \<times> fmt_arg list \<Rightarrow> string \<Rightarrow> string \<Rightarrow> ('db, int) sql" where
  "get_or_create A sel ins insMsg selMsg =
     sql_bind (sql_lift (sqlite3_get_single_intf A (fst sel) (snd sel))) (\<lambda>(res, v).
       if res = SQLITE_DONE then sql_bind (exec_or_die A insMsg (fst ins) (snd ins)) (\<lambda>_. last_id A)
       else case (if res \<noteq> SQLITE_ROW then None else v) of None \<Rightarrow> die selMsg | Some i \<Rightarrow> sql_return i)"

definition insert_property :: "('db, 's) sqlite_api \<Rightarrow> int \<Rightarrow> int \<Rightarrow> int \<Rightarrow> int \<Rightarrow> ('db, unit) sql" where
  "insert_property A parentSvcId parentInstId parentPageId propValId =
     (let (propParentKey, propParentID) =
            (if parentPageId \<noteq> 0 then (''FK_Parent_PropertyGroupID'', parentPageId)
             else if parentInstId \<noteq> 0 then (''FK_Parent_InstanceID'', parentInstId)
             else (''FK_Parent_ServiceID'', parentSvcId))
      in exec_or_die A ''Failed to insert property'' ''INSERT INTO Properties(%s, FK_PropertyValueID) VALUES (%d, %d);''
           [ArgS propParentKey, ArgD propParentID, ArgD propValId])"

fun importProp :: "('db, 's) sqlite_api \<Rightarrow> int \<Rightarrow> int \<Rightarrow> int \<Rightarrow> int \<Rightarrow> Property \<Rightarrow> ('db, unit) sql"
and importProps :: "('db, 's) sqlite_api \<Rightarrow> int \<Rightarrow> int \<Rightarrow> int \<Rightarrow> int \<Rightarrow> Property list \<Rightarrow> ('db, unit) sql" where
  "importProp A bundleID svc inst parentPageId (PropString key value) =
     sql_bind (exec_or_die A ''Failed to insert property value''
         ''INSERT INTO PropertyValues(FK_BundleID, Type, PropertyKey, StringValue)VALUES(%d, 'String', '%s', '%s');''
         [ArgD bundleID, ArgS key, ArgS value]) (\<lambda>_.
     sql_bind (last_id A) (\<lambda>propValId.
     insert_property A svc inst parentPageId propValId))"
| "importProp A bundleID svc inst parentPageId (PropPage key properties) =
     (let parentKey = (if parentPageId \<noteq> 0 then ''FK_Parent_PropertyGroupID'' else ''FK_Parent_ServiceID'');
          parentID = (if parentPageId \<noteq> 0 then parentPageId else svc)
      in sql_bind (get_or_create A
             (''SELECT PropertyGroupID FROM PropertyGroups WHERE %s = %d AND Name = '%s';'', [ArgS parentKey, ArgD parentID, ArgS key])
             (''INSERT INTO PropertyGroups(Name, %s) VALUES ('%s', %d);'', [ArgS parentKey, ArgS key, ArgD parentID])
             ''Failed to insert property group entry'' ''Failed to get property group ID'') (\<lambda>pageID.
         sql_bind (importProps A bundleID svc inst pageID properties) (\<lambda>_.
         sql_bind (exec_or_die A ''Failed to insert property value''
             ''INSERT INTO PropertyValues (FK_BundleID, Type, PropertyKey, FK_PageValue_PropertyGroupID) VALUES(%d, 'Page', '%s', '%d');''
             [ArgD bundleID, ArgS key, ArgD pageID]) (\<lambda>_.
         sql_bind (last_id A) (\<lambda>propValId.
         insert_property A svc inst parentPageId propValId)))))"
| "importProps A bundleID svc inst parentPageId [] = sql_return ()"
| "importProps A bundleID svc inst parentPageId (p # ps) =
     sql_bind (importProp A bundleID svc inst parentPageId p) (\<lambda>_. importProps A bundleID svc inst parentPageId ps)"

definition importInst :: "('db, 's) sqlite_api \<Rightarrow> int \<Rightarrow> int \<Rightarrow> Instance \<Rightarrow> ('db, unit) sql" where
  "importInst A bundleID svcId inst =
     sql_bind (get_or_create A
         (''SELECT InstanceID FROM Instances WHERE FK_Parent_ServiceID = %d AND Name = '%s';'', [ArgD svcId, ArgS (in_name inst)])
         (''INSERT INTO Instances(FK_Parent_ServiceID, Name) VALUES (%d, '%s');'', [ArgD svcId, ArgS (in_name inst)])
         ''Failed to insert instance name'' ''Failed to get instance ID'') (\<lambda>instId.
     importProps A bundleID svcId instId 0 (in_properties inst))"

text \<open>The steps between the beginning and the end of the transaction.\<close>

definition import_body :: "('db, 's) sqlite_api \<Rightarrow> nat \<Rightarrow> int \<Rightarrow> string \<Rightarrow> SvcClass \<Rightarrow> ('db, unit) sql" where
  "import_body A n layer bundleFullPath klass =
     sql_bind (sqlite3_get_two_intf A ''SELECT BundleID, RefCount FROM Bundles WHERE Filename = '%s';'' [ArgS bundleFullPath])
       (\<lambda>(res, v).
     sql_bind (case (if res \<noteq> SQLITE_ROW then None else v) of
                 Some (oldID, rcOldBundle) \<Rightarrow> if rcOldBundle = 0 then deleteBundle A n oldID else sql_return ()
               | None \<Rightarrow> if res \<noteq> SQLITE_DONE then die ''Failed to get bundle ID'' else sql_return ()) (\<lambda>_.
     sql_bind (exec_or_die A ''Failed to insert bundle descriptor''
         ''INSERT INTO Bundles(Filename, MD5Sum, Layer) VALUES('%s', 0, %d);'' [ArgS bundleFullPath, ArgD layer]) (\<lambda>_.
     sql_bind (last_id A) (\<lambda>bundleID.
     sql_bind (get_or_create A
         (''SELECT ServiceID FROM Services WHERE Name = '%s';'', [ArgS (cl_name klass)])
         (''INSERT INTO Services(Name) VALUES ('%s');'', [ArgS (cl_name klass)])
         ''Failed to insert service name'' ''Failed to get service ID'') (\<lambda>svcId.
     sql_bind (importProps A bundleID svcId 0 0 (cl_properties klass)) (\<lambda>_.
     sql_each (importInst A bundleID svcId) (cl_instances klass)))))))"

definition import_class :: "('db, 's) sqlite_api \<Rightarrow> nat \<Rightarrow> int \<Rightarrow> string \<Rightarrow> SvcClass \<Rightarrow> ('db, unit) sql" where
  "import_class A n layer bundleFullPath klass =
     sql_bind (sql_lift (sq_exec A ''BEGIN TRANSACTION;'')) (\<lambda>res.
     sql_bind (sql_check ''Failed to begin transaction'' res) (\<lambda>_.
     sql_bind (import_body A n layer bundleFullPath klass) (\<lambda>_.
     sql_bind (sql_lift (sq_exec A ''COMMIT;'')) (\<lambda>res2.
     sql_check ''Failed to commit'' res2))))"

section \<open>The command\<close>

text \<open>
  \<open>AddSys::main\<close>, for the results of \<open>getopt\<close>, the operands after the options, the outcome of
  \<open>sqlite3_open_v2\<close>, what libucl reads from a path, and the absolute path of the operand. The schema of bundles is
  a text that the build puts into the program; \<open>validate\<close> is \<open>ucl_object_validate\<close>.
\<close>

fun addsys_getopt :: "(char \<times> string) list \<Rightarrow> int \<times> string option \<Rightarrow> string + int \<times> string option" where
  "addsys_getopt [] s = Inr s"
| "addsys_getopt ((c, optarg) # opts) (layer, pathDb) =
     (if c = CHR ''l'' then
        (if optarg = ''1'' then addsys_getopt opts (1, pathDb)
         else if optarg = ''2'' then addsys_getopt opts (2, pathDb)
         else if optarg = ''3'' then addsys_getopt opts (3, pathDb)
         else if optarg = ''4'' then addsys_getopt opts (4, pathDb)
         else Inl ''Invalid argument: not a layer'')
      else if c = CHR ''r'' then addsys_getopt opts (layer, Some optarg)
      else addsys_getopt opts (layer, pathDb))"

definition addsys_main ::
  "'o ucl_api \<Rightarrow> ('db, 's) sqlite_api \<Rightarrow> ('o \<Rightarrow> 'o \<Rightarrow> bool) \<Rightarrow> nat \<Rightarrow> string \<Rightarrow> (string \<Rightarrow> 'o option) \<Rightarrow> (string \<Rightarrow> string) \<Rightarrow>
     (string \<Rightarrow> int \<times> 'db) \<Rightarrow> (char \<times> string) list \<Rightarrow> string list \<Rightarrow> (proc_error + int) sql_run \<times> 'db option" where
  "addsys_main u A validate n kserviceBundleSchema_json readf realpath openf opts operands =
     (case ucl_parse u kserviceBundleSchema_json of
        None \<Rightarrow> (Died ''Internal error while parsing schema'', None)
      | Some schemaBundle \<Rightarrow>
     (case addsys_getopt opts (0, None) of
        Inl msg \<Rightarrow> (Died msg, None)
      | Inr (layer, pathDb) \<Rightarrow>
          if layer = 0 then (Died ''Invalid argument: no layer specified'', None)
          else case pathDb of
                 None \<Rightarrow> (Died ''Invalid argument: no repository path specified'', None)
               | Some path \<Rightarrow>
                   if length operands \<noteq> 1 then (Died ''Invalid argument: only one service bundle path is allowed'', None)
                   else (let (res, db) = openf path
                         in if res \<noteq> SQLITE_OK then (Died ''Failed to open repository'', Some db)
                            else case parse u (validate schemaBundle) n (readf (hd operands)) [] of
                                   Inl e \<Rightarrow> (Ret (Inl e), Some db)
                                 | Inr classes \<Rightarrow>
                                     (case sql_each (import_class A n layer (realpath (hd operands))) classes db of
                                        (Ret _, db1) \<Rightarrow> (Ret (Inr 0), Some db1)
                                      | (Died msg, db1) \<Rightarrow> (Died msg, Some db1)
                                      | (Spinning, db1) \<Rightarrow> (Spinning, Some db1)))))"

section \<open>The transaction\<close>

definition row_stmt :: "string \<Rightarrow> bool" where
  "row_stmt q \<longleftrightarrow> take 12 q \<in> {''INSERT INTO '', ''DELETE FROM ''}"

lemma fmt_text_plain:
  assumes "CHR ''%'' \<notin> set p" "cs \<noteq> []"
  shows "fmt_text (p @ cs) args = p @ fmt_text cs args"
  using assms
proof (induction p)
  case (Cons c p)
  obtain d ds where "p @ cs = d # ds" using Cons.prems by (cases "p @ cs") auto
  with Cons show ?case by auto
qed simp

lemma row_stmt_fmt:
  assumes "p \<in> {''INSERT INTO '', ''DELETE FROM ''}" "cs \<noteq> []"
  shows "row_stmt (fmt_text (p @ cs) args)"
proof -
  have "CHR ''%'' \<notin> set p" "length p = 12" using assms(1) by auto
  then show ?thesis using assms fmt_text_plain [of p cs args] by (simp add: row_stmt_def)
qed

lemma writes_row:
  assumes "take 12 fmt \<in> {''INSERT INTO '', ''DELETE FROM ''}" "drop 12 fmt \<noteq> []"
  shows "writes row_stmt (exec_or_die (traced A) msg fmt args)"
  using row_stmt_fmt [OF assms, of args] by (intro writes_exec) simp

lemma writes_last_id [simp]: "writes P (last_id (traced A))"
  by (auto intro!: writesI simp: last_id_def sql_lift_def)

lemma writes_get_or_create:
  assumes "take 12 (fst ins) \<in> {''INSERT INTO '', ''DELETE FROM ''}" "drop 12 (fst ins) \<noteq> []"
  shows "writes row_stmt (get_or_create (traced A) sel ins m1 m2)"
  unfolding get_or_create_def
  by (rule writes_bind) (auto intro!: writes_bind writes_row [OF assms] split: option.split)

lemma writes_insert_property: "writes row_stmt (insert_property (traced A) svc inst page val)"
  by (simp add: insert_property_def writes_row)

lemma writes_importProp_aux:
  "A' = traced A \<Longrightarrow> writes row_stmt (importProp A' bundleID svc inst page p)"
  "A' = traced A \<Longrightarrow> writes row_stmt (importProps A' bundleID svc inst page ps)"
  by (induction A' bundleID svc inst page p and A' bundleID svc inst page ps rule: importProp_importProps.induct)
    (simp_all add: Let_def writes_bind writes_row writes_get_or_create writes_insert_property)

lemmas writes_importProps = writes_importProp_aux(2) [OF refl]

lemma writes_delete_values: "writes row_stmt (delete_values (traced A) n stmt)"
proof (induction n arbitrary: stmt)
  case 0
  then show ?case by (auto intro!: writesI)
next
  case (Suc n)
  have step: "writes row_stmt (sql_lift (\<lambda>db. case sq_step (traced A) stmt db of (res, stmt1, db1) \<Rightarrow> ((res, stmt1), db1)))"
    by (auto intro!: writesI simp: sql_lift_def traced_def split: prod.splits)
  show ?case unfolding delete_values.simps
    by (rule writes_bind [OF step]) (auto simp: Let_def intro!: writes_bind writes_row Suc)
qed

lemma writes_deleteBundle: "writes row_stmt (deleteBundle (traced A) n bundleID)"
proof -
  have fin: "writes row_stmt (sql_lift (\<lambda>db. ((), sq_finalize (traced A) s db)))" for s
    by (auto intro!: writesI simp: sql_lift_def traced_def split: prod.splits)
  show ?thesis unfolding deleteBundle_def
    by (rule writes_bind) (auto intro!: writes_bind writes_row writes_delete_values fin split: option.split)
qed

lemma writes_import_body: "writes row_stmt (import_body (traced A) n layer path klass)"
proof -
  have old: "writes row_stmt (case v of Some (oldID, rcOldBundle) \<Rightarrow> if rcOldBundle = 0 then deleteBundle (traced A) n oldID else sql_return ()
               | None \<Rightarrow> if res \<noteq> SQLITE_DONE then die m else sql_return ())" for v m and res :: int
    by (auto simp: writes_deleteBundle split: option.split)
  show ?thesis unfolding import_body_def importInst_def
    by (intro writes_bind writes_reads) (auto intro!: writes_bind writes_row writes_get_or_create writes_importProps writes_each old)
qed

text \<open>A log of one completed transaction that writes only rows.\<close>

definition transaction :: "(string \<times> int) list \<Rightarrow> bool" where
  "transaction log \<longleftrightarrow> (\<exists>mid. log = (''BEGIN TRANSACTION;'', SQLITE_OK) # mid @ [(''COMMIT;'', SQLITE_OK)] \<and>
     (\<forall>(q, res) \<in> set mid. row_stmt q \<and> res = SQLITE_OK))"

lemma import_class_trace:
  "if fst (import_class (traced A) n layer path klass ([], db)) = Ret ()
   then transaction (fst (snd (import_class (traced A) n layer path klass ([], db))))
   else (''COMMIT;'', SQLITE_OK) \<notin> set (fst (snd (import_class (traced A) n layer path klass ([], db))))"
proof -
  have exec: "sql_lift (sq_exec (traced A) q) (l, d) = (Ret (fst (sq_exec A q d)), l @ [(q, fst (sq_exec A q d))], snd (sq_exec A q d))"
    for q l d by (simp add: sql_lift_def traced_def split: prod.splits)
  let ?res = "fst (sq_exec A ''BEGIN TRANSACTION;'' db)" and ?db = "snd (sq_exec A ''BEGIN TRANSACTION;'' db)"
  obtain r l db2 where body: "import_body (traced A) n layer path klass ([(''BEGIN TRANSACTION;'', ?res)], ?db) = (r, l, db2)"
    by (metis prod.collapse)
  from writesD [OF writes_import_body body] obtain mid where mid: "l = (''BEGIN TRANSACTION;'', ?res) # mid"
    "\<forall>(q, res) \<in> set mid. row_stmt q" "\<And>x. r = Ret x \<Longrightarrow> \<forall>(q, res) \<in> set mid. res = SQLITE_OK" by auto
  have "\<not> row_stmt ''COMMIT;''" by (simp add: row_stmt_def)
  with mid(2) have commit: "(''COMMIT;'', SQLITE_OK) \<notin> set mid" by auto
  have run: "import_class (traced A) n layer path klass ([], db) =
      (if ?res \<noteq> SQLITE_OK then (Died ''Failed to begin transaction'', [(''BEGIN TRANSACTION;'', ?res)], ?db)
       else case r of Ret x \<Rightarrow> (if fst (sq_exec A ''COMMIT;'' db2) \<noteq> SQLITE_OK then Died ''Failed to commit'' else Ret (),
              l @ [(''COMMIT;'', fst (sq_exec A ''COMMIT;'' db2))], snd (sq_exec A ''COMMIT;'' db2))
            | Died m \<Rightarrow> (Died m, l, db2) | Spinning \<Rightarrow> (Spinning, l, db2))"
  proof (cases "?res = SQLITE_OK")
    case True
    with body have "import_body (traced A) n layer path klass ([(''BEGIN TRANSACTION;'', 0)], ?db) = (r, l, db2)" by simp
    with True show ?thesis
      by (cases r) (simp_all add: import_class_def sql_bind_def exec sql_check_def die_def sql_return_def)
  qed (simp add: import_class_def sql_bind_def exec sql_check_def die_def sql_return_def)
  show ?thesis unfolding run transaction_def using mid commit by (auto split: sql_run.splits)
qed


text \<open>A bundle has one class.\<close>

lemma parse_one:
  "parse u valid n file [] = Inr classes \<Longrightarrow>
     (if file = None \<or> \<not> valid (the file) then classes = [] else \<exists>klass. classes = [klass])"
  by (cases "process_members u n (ucl_iterate_object u (the file)) \<lparr>cl_name = [], cl_instances = [], cl_properties = []\<rparr>")
    (auto simp: parse_def process_def split: option.splits if_splits)

lemma sql_each_one: "sql_each f [x] db = (case f x db of (Ret _, db1) \<Rightarrow> (Ret (), db1) | (Died m, db1) \<Rightarrow> (Died m, db1) | (Spinning, db1) \<Rightarrow> (Spinning, db1))"
  by (auto simp: sql_bind_def sql_return_def split: prod.split sql_run.split)

lemma import_one:
  assumes "sql_each (import_class (traced A) n layer path) [klass] ([], db) = (r, log, db1)"
  shows "if r = Ret () then transaction log else (''COMMIT;'', SQLITE_OK) \<notin> set log"
  using assms import_class_trace [of A n layer path klass db] unfolding sql_each_one
  by (auto split: prod.splits sql_run.splits)

text \<open>From the moment the repository has been opened.\<close>

lemma addsys_opened:
  assumes "addsys_main u A validate n schema readf realpath openf opts operands = (r, Some d)"
  obtains schemaBundle layer path res db where "ucl_parse u schema = Some schemaBundle" "openf path = (res, db)"
    "(r, Some d) =
       (if res \<noteq> SQLITE_OK then (Died ''Failed to open repository'', Some db)
        else case parse u (validate schemaBundle) n (readf (hd operands)) [] of
               Inl e \<Rightarrow> (Ret (Inl e), Some db)
             | Inr classes \<Rightarrow>
                 (case sql_each (import_class A n layer (realpath (hd operands))) classes db of
                    (Ret _, db1) \<Rightarrow> (Ret (Inr 0), Some db1)
                  | (Died msg, db1) \<Rightarrow> (Died msg, Some db1)
                  | (Spinning, db1) \<Rightarrow> (Spinning, Some db1)))"
proof -
  from assms obtain schemaBundle layer path where pre: "ucl_parse u schema = Some schemaBundle"
    "addsys_getopt opts (0, None) = Inr (layer, Some path)" "length operands = 1" "layer \<noteq> 0"
    by (auto simp: addsys_main_def Let_def split: option.splits sum.splits if_splits)
  obtain res db where opened: "openf path = (res, db)" by (rule prod.exhaust)
  show ?thesis
    by (rule that [OF pre(1) opened, of layer], unfold assms [symmetric]) (simp add: addsys_main_def pre opened)
qed



text \<open>A database on which every statement succeeds and every query has no rows.\<close>

definition empty_sqlite :: "(nat, unit) sqlite_api" where
  "empty_sqlite =
     \<lparr>sq_exec = (\<lambda>q n. (SQLITE_OK, Suc n)), sq_prepare = (\<lambda>q n. (SQLITE_OK, (), n)), sq_bind_int = (\<lambda>i v s. (SQLITE_OK, s)),
      sq_step = (\<lambda>s n. (SQLITE_DONE, s, n)), sq_reset = (\<lambda>s. s), sq_column_int = (\<lambda>s i. 0), sq_column_count = (\<lambda>s. 0),
      sq_finalize = (\<lambda>s n. n), sq_last_insert_rowid = int, sq_malloc = (\<lambda>t. True)\<rparr>"

abbreviation small_class :: SvcClass where
  "small_class \<equiv> \<lparr>cl_name = ''A'', cl_instances = [], cl_properties = []\<rparr>"

lemma empty_import: "fst (import_class (traced empty_sqlite) 1 1 ''/b'' small_class ([], 0)) = Ret ()"
proof -
  have get: "sqlite3_get_single_intf (traced empty_sqlite) f args db = ((SQLITE_DONE, None), db)"
    "sqlite3_get_two_intf (traced empty_sqlite) f args db = (Ret (SQLITE_DONE, None), db)" if "fmt_text f args \<noteq> []" for f args db
    using that by (auto simp: sqlite3_get_single_intf_def sqlite3_get_single_int_def sqlite3_get_two_intf_def sqlite3_get_two_int_def
        eciVASPrintF_def traced_def empty_sqlite_def Let_def split: prod.split)
  have exec: "exec_or_die (traced empty_sqlite) m f args (l, n) = (Ret (), l @ [(fmt_text f args, 0)], Suc n)"
    if "fmt_text f args \<noteq> []" for m f args l n
    using that by (simp add: exec_or_die_def sql_bind_def sql_lift_def sqlite3_execf_def eciVASPrintF_def traced_def empty_sqlite_def
        Let_def sql_check_def sql_return_def)
  have last: "last_id (traced empty_sqlite) (l, n) = (Ret (int32 (int n)), l, n)" for l n
    by (simp add: last_id_def sql_lift_def traced_def empty_sqlite_def)
  have plain: "sql_lift (sq_exec (traced empty_sqlite) q) (l, n) = (Ret 0, l @ [(q, 0)], Suc n)" for q l n
    by (simp add: sql_lift_def traced_def empty_sqlite_def)
  show ?thesis
    by (simp add: import_class_def import_body_def get_or_create_def sql_bind_def sql_lift_def [of "sqlite3_get_single_intf _ _ _"]
        plain get exec last sql_check_def sql_return_def)
qed



section \<open>What becomes of a bundle\<close>

lemma collect_Inr: "collect f xs = Inr ys \<Longrightarrow> y \<in> set ys \<Longrightarrow> \<exists>x \<in> set xs. f x = Inr y"
  by (induction xs arbitrary: ys) (auto split: sum.splits)

lemma collect_map: "(\<And>x. x \<in> set xs \<Longrightarrow> f x = Inr (g x)) \<Longrightarrow> collect f xs = Inr (map g xs)"
  by (induction xs) auto

lemma page_without_type: "\<exists>e. processPage u n obj None = Inl e"
  by (cases n) (auto simp: need_def split: option.split)


text \<open>A page \<open>execStart\<close> with a command.\<close>

definition exec_page :: utree where
  "exec_page = UNode (Some ''execStart'') (UObj [UNode (Some ''command'') (UStr ''a b c'')])"


end
