(* ===== verification/Sd_Daemon.thy ===== *)
theory Sd_Daemon
  imports Eci_Prelude "HOL-Library.State_Monad"
begin

text \<open>
  The service side of socket activation and readiness notification, \<^verbatim>\<open>lib/eci-daemon/sd-daemon.c\<close>: the
  functions a daemon calls to take over the descriptors it was started with (\<open>sd_listen_fds\<close>), to find out
  what a descriptor is (\<open>sd_is_fifo\<close>, \<open>sd_is_socket\<close> and its variants), and to talk back to its supervisor
  (\<open>sd_notify\<close>, \<open>sd_notify_barrier\<close>, \<open>sd_watchdog_enabled\<close>).

  The functions are programs of the state monad over a \<open>process\<close>: the environment, \<open>errno\<close>, and the \<open>world\<close>
  the system calls act on. The system calls are not part of the repository: the record \<open>posix\<close> of them is an
  argument. A call that fails is \<open>Inl\<close> the value it leaves in \<open>errno\<close>; a call that succeeds leaves \<open>errno\<close>
  as it was. Memory is a list of characters, a C string is read as if followed by null characters. A
  \<open>goto finish\<close> ends the part of a function above the label, which is a definition of its own.
\<close>

section \<open>Processes and system calls\<close>

abbreviation (input) INT_MAX :: int where "INT_MAX \<equiv> 2147483647"
abbreviation (input) SD_LISTEN_FDS_START :: int where "SD_LISTEN_FDS_START \<equiv> 3"
abbreviation (input) FD_CLOEXEC :: int where "FD_CLOEXEC \<equiv> 1"
abbreviation (input) AF_UNIX :: int where "AF_UNIX \<equiv> 1"
abbreviation (input) AF_INET :: int where "AF_INET \<equiv> 2"
abbreviation (input) AF_INET6 :: int where "AF_INET6 \<equiv> 10"
abbreviation (input) SO_TYPE :: int where "SO_TYPE \<equiv> 3"
abbreviation (input) SO_SNDBUF :: int where "SO_SNDBUF \<equiv> 7"
abbreviation (input) SO_ACCEPTCONN :: int where "SO_ACCEPTCONN \<equiv> 30"
abbreviation (input) SO_SNDBUFFORCE :: int where "SO_SNDBUFFORCE \<equiv> 32"
abbreviation (input) POLLNVAL :: int where "POLLNVAL \<equiv> 32"
abbreviation (input) NUL :: char where "NUL \<equiv> CHR 0x00"

record stat =
  st_mode :: int
  st_dev :: int
  st_ino :: int
  st_rdev :: int

text \<open>A datagram as it is given to \<open>sendmsg\<close>: the address and its length, the text, the descriptors of the
  \<open>SCM_RIGHTS\<close> header and the identity of the \<open>SCM_CREDENTIALS\<close> header.\<close>

record message =
  msg_name :: string
  msg_namelen :: nat
  msg_iov :: string
  msg_rights :: "int list"
  msg_creds :: "(int \<times> int \<times> int) option"

text \<open>
  \<open>px_getsockopt\<close> gets what the option variable held before the call and gives what it holds after it,
  with the length the call stored; \<open>px_getsockname\<close> gives the bytes it wrote to the buffer and the length
  of the address; \<open>px_ppoll\<close> the number of ready entries and the \<open>revents\<close> of the only one.
  \<open>px_garbage\<close> is what an uninitialised \<open>int\<close> holds, \<open>px_nxthdr\<close> whether \<open>CMSG_NXTHDR\<close> finds the second
  header of a control buffer that was never cleared.
\<close>

record 'w posix =
  px_getpid :: "'w \<Rightarrow> int"
  px_getuid :: "'w \<Rightarrow> int"
  px_geteuid :: "'w \<Rightarrow> int"
  px_getgid :: "'w \<Rightarrow> int"
  px_getegid :: "'w \<Rightarrow> int"
  px_getfd :: "int \<Rightarrow> 'w \<Rightarrow> (int + int) \<times> 'w"
  px_setfd :: "int \<Rightarrow> int \<Rightarrow> 'w \<Rightarrow> (int + unit) \<times> 'w"
  px_fstat :: "int \<Rightarrow> 'w \<Rightarrow> (int + stat) \<times> 'w"
  px_stat :: "string \<Rightarrow> 'w \<Rightarrow> (int + stat) \<times> 'w"
  px_faccessat :: "string \<Rightarrow> 'w \<Rightarrow> (int + unit) \<times> 'w"
  px_getsockopt :: "int \<Rightarrow> int \<Rightarrow> int \<Rightarrow> 'w \<Rightarrow> (int + int \<times> nat) \<times> 'w"
  px_setsockopt :: "int \<Rightarrow> int \<Rightarrow> int \<Rightarrow> 'w \<Rightarrow> (int + unit) \<times> 'w"
  px_getsockname :: "int \<Rightarrow> 'w \<Rightarrow> (int + string \<times> nat) \<times> 'w"
  px_socket :: "'w \<Rightarrow> (int + int) \<times> 'w"
  px_sendmsg :: "int \<Rightarrow> message \<Rightarrow> 'w \<Rightarrow> (int + unit) \<times> 'w"
  px_close :: "int \<Rightarrow> 'w \<Rightarrow> (int + unit) \<times> 'w"
  px_pipe2 :: "'w \<Rightarrow> (int + int \<times> int) \<times> 'w"
  px_ppoll :: "int \<Rightarrow> int \<Rightarrow> timespec option \<Rightarrow> 'w \<Rightarrow> (int + int \<times> int) \<times> 'w"
  px_garbage :: "'w \<Rightarrow> int"
  px_nxthdr :: "'w \<Rightarrow> bool"

text \<open>\<open>printed\<close> are the failed assertions that were reported, \<open>overruns\<close> the writes behind a heap block.\<close>

record 'w process =
  environ :: "string \<Rightarrow> string option"
  p_errno :: int
  world :: 'w
  printed :: "string list"
  overruns :: "fault list"

type_synonym ('w, 'a) prog = "('w process, 'a) state"

text \<open>How a function that may not return ends: killed by an access through a null pointer, or still running
  with the fuel it was given.\<close>

datatype 'a c_run = Returned 'a | Segfault | Unfinished

abbreviation ret :: "'a \<Rightarrow> ('s, 'a) state" where "ret \<equiv> State_Monad.return"

definition syscall :: "('w \<Rightarrow> (int + 'a) \<times> 'w) \<Rightarrow> ('w, 'a option) prog" where
  "syscall f = State (\<lambda>s. case f (world s) of
       (Inr x, w) \<Rightarrow> (Some x, s\<lparr>world := w\<rparr>)
     | (Inl e, w) \<Rightarrow> (None, s\<lparr>world := w, p_errno := e\<rparr>))"

definition query :: "('w \<Rightarrow> 'a) \<Rightarrow> ('w, 'a) prog" where
  "query f = State (\<lambda>s. (f (world s), s))"

definition get_errno :: "('w, int) prog" where
  "get_errno = State (\<lambda>s. (p_errno s, s))"

definition neg_errno :: "('w, int) prog" where
  "neg_errno = do { e \<leftarrow> get_errno; ret (- e) }"

definition getenv :: "string \<Rightarrow> ('w, string option) prog" where
  "getenv k = State (\<lambda>s. (environ s k, s))"

text \<open>\<open>unsetenv\<close> of a name without \<^verbatim>\<open>=\<close> succeeds.\<close>

definition unsetenv :: "string \<Rightarrow> ('w, unit) prog" where
  "unsetenv k = State (\<lambda>s. ((), s\<lparr>environ := (environ s)(k := None)\<rparr>))"

text \<open>\<open>assert_return\<close> and \<open>assert_se\<close> report a failed assertion; the first one also returns.\<close>

definition log_assert_failed_return :: "string \<Rightarrow> ('w, unit) prog" where
  "log_assert_failed_return expr = State (\<lambda>s. ((), s\<lparr>printed := printed s @ [expr]\<rparr>))"

definition assert_return :: "string \<Rightarrow> bool \<Rightarrow> int \<Rightarrow> ('w, int) prog \<Rightarrow> ('w, int) prog" where
  "assert_return expr b r m = (if b then m else do { log_assert_failed_return expr; ret r })"

definition assert_se :: "string \<Rightarrow> bool \<Rightarrow> ('w, unit) prog" where
  "assert_se expr b = (if b then ret () else log_assert_failed_return expr)"

text \<open>The macro \<open>IN_SET\<close> of \<^verbatim>\<open>macro.h\<close>: a \<open>switch\<close> with a case for each of the values.\<close>

fun IN_SET :: "int \<Rightarrow> int list \<Rightarrow> bool" where
  "IN_SET x [] = False"
| "IN_SET x (v # vs) = (if x = v then True else IN_SET x vs)"

lemma IN_SET_iff [simp]: "IN_SET x vs \<longleftrightarrow> x \<in> set vs"
  by (induction vs) auto

text \<open>A pointer stored at an index of a heap block of so many bytes.\<close>

definition store_pointer :: "nat \<Rightarrow> nat \<Rightarrow> ('w, unit) prog" where
  "store_pointer sz i =
     State (\<lambda>s. ((), if 8 * i + 8 \<le> sz then s
                     else s\<lparr>overruns := overruns s @ [OutOfBounds ''l'' (int i)]\<rparr>))"

section \<open>Numbers in the environment\<close>

definition c_isspace :: "char \<Rightarrow> bool" where
  "c_isspace c \<longleftrightarrow> c \<in> {CHR '' '', CHR 0x09, CHR 0x0A, CHR 0x0B, CHR 0x0C, CHR 0x0D}"

definition c_isdigit :: "char \<Rightarrow> bool" where
  "c_isdigit c \<longleftrightarrow> c \<in> set ''0123456789''"

text \<open>\<open>strtoul\<close> in base 10: the value, the offset of the end pointer, and whether it reports \<open>ERANGE\<close>. A
  text without digits has the value 0 and the end pointer at its beginning.\<close>

definition strtoul :: "string \<Rightarrow> 64 word \<times> nat \<times> bool" where
  "strtoul s =
     (let t = dropWhile c_isspace s;
          u = (case t of [] \<Rightarrow> [] | c # cs \<Rightarrow> if c \<in> {CHR ''+'', CHR ''-''} then cs else t);
          ds = takeWhile c_isdigit u;
          v = digits_value ds;
          p = length s - length u + length ds
      in if ds = [] then (0, 0, False)
         else if v \<ge> 2 ^ 64 then (- 1, p, True)
         else (if t \<noteq> [] \<and> hd t = CHR ''-'' then - of_nat v else of_nat v, p, False))"

definition c_strtoul :: "string \<Rightarrow> ('w, 64 word \<times> nat) prog" where
  "c_strtoul s =
     (case strtoul s of (v, p, erange) \<Rightarrow>
        State (\<lambda>q. ((v, p), if erange then q\<lparr>p_errno := ERANGE\<rparr> else q)))"

section \<open>Socket activation\<close>

definition unsetenv_all :: "bool \<Rightarrow> ('w, unit) prog" where
  "unsetenv_all unset_environment =
     (if \<not> unset_environment then ret ()
      else do {
        unsetenv ''LISTEN_PID'';
        unsetenv ''LISTEN_FDS'';
        unsetenv ''LISTEN_FDNAMES''
      })"

text \<open>The loop that marks the descriptors: \<open>Some\<close> the error it ends with, or \<open>None\<close>.\<close>

fun cloexec_loop :: "'w posix \<Rightarrow> int \<Rightarrow> nat \<Rightarrow> ('w, int option) prog" where
  "cloexec_loop K fd 0 = ret None"
| "cloexec_loop K fd (Suc n) =
     do {
       flags \<leftarrow> syscall (px_getfd K fd);
       case flags of
         None \<Rightarrow> do { r \<leftarrow> neg_errno; ret (Some r) }
       | Some f \<Rightarrow>
           if f AND FD_CLOEXEC \<noteq> 0 then cloexec_loop K (fd + 1) n
           else do {
             ok \<leftarrow> syscall (px_setfd K fd (f OR FD_CLOEXEC));
             case ok of
               None \<Rightarrow> do { r \<leftarrow> neg_errno; ret (Some r) }
             | Some _ \<Rightarrow> cloexec_loop K (fd + 1) n
           }
     }"

text \<open>From the second \<open>getenv\<close> on.\<close>

definition listen_fds_count :: "'w posix \<Rightarrow> ('w, int) prog" where
  "listen_fds_count K =
     do {
       env \<leftarrow> getenv ''LISTEN_FDS'';
       case env of
         None \<Rightarrow> ret 0
       | Some e \<Rightarrow> do {
           (v, p) \<leftarrow> c_strtoul e;
           let n = int32 (uint v);
           err \<leftarrow> get_errno;
           if err > 0 then ret (- err)
           else if p = 0 \<or> p < length e \<or> n \<le> 0 then ret (- EINVAL)
           else if n \<le> 0 \<or> n > INT_MAX - SD_LISTEN_FDS_START then ret (- EINVAL)
           else do {
             failed \<leftarrow> cloexec_loop K SD_LISTEN_FDS_START (nat n);
             case failed of Some r \<Rightarrow> ret r | None \<Rightarrow> ret n
           }
         }
     }"

definition listen_fds_body :: "'w posix \<Rightarrow> ('w, int) prog" where
  "listen_fds_body K =
     do {
       env \<leftarrow> getenv ''LISTEN_PID'';
       case env of
         None \<Rightarrow> ret 0
       | Some e \<Rightarrow> do {
           (v, p) \<leftarrow> c_strtoul e;
           let pid = int32 (uint v);
           err \<leftarrow> get_errno;
           if err > 0 then ret (- err)
           else if p = 0 \<or> p < length e \<or> pid \<le> 0 then ret (- EINVAL)
           else do {
             me \<leftarrow> query (px_getpid K);
             if me \<noteq> pid then ret 0 else listen_fds_count K
           }
         }
     }"

definition sd_listen_fds :: "'w posix \<Rightarrow> bool \<Rightarrow> ('w, int) prog" where
  "sd_listen_fds K unset_environment =
     do {
       r \<leftarrow> listen_fds_body K;
       unsetenv_all unset_environment;
       ret r
     }"

text \<open>\<open>strtok_r(ec, ":", &save)\<close> on a fresh string: the first token.\<close>

definition strtok_first :: "string \<Rightarrow> string option" where
  "strtok_first s =
     (case dropWhile (\<lambda>c. c = CHR '':'') s of [] \<Rightarrow> None | t \<Rightarrow> Some (takeWhile (\<lambda>c. c \<noteq> CHR '':'') t))"

text \<open>The loop over the names, with fuel; nothing in its body changes \<open>el\<close>. Allocation always succeeds: a
  failed one would end the process at the store behind it.\<close>

fun names_loop :: "nat \<Rightarrow> string option \<Rightarrow> string list \<Rightarrow> ('w, string list option) prog" where
  "names_loop 0 el l = ret None"
| "names_loop (Suc k) el l =
     (case el of
        None \<Rightarrow> ret (Some l)
      | Some t \<Rightarrow> do {
          store_pointer (8 * length l + 2) (length l);
          names_loop k el (l @ [t])
        })"

text \<open>From the call of \<open>sd_listen_fds\<close> on; \<open>l\<close> are the names found, if any were looked for. With the
  result come the names that are stored for the caller. \<open>cleanup\<close> only frees memory.\<close>

definition listen_fds_names :: "'w posix \<Rightarrow> bool \<Rightarrow> string list option \<Rightarrow> ('w, int \<times> string list option) prog" where
  "listen_fds_names K unset_environment l =
     do {
       n_fds \<leftarrow> sd_listen_fds K unset_environment;
       if n_fds \<le> 0 then ret (n_fds, None)
       else (case l of
         Some names \<Rightarrow>
           if int (length names) \<noteq> n_fds then ret (- EINVAL, None) else ret (n_fds, Some names)
       | None \<Rightarrow> do {
           store_pointer (8 * nat n_fds + 1) (nat n_fds);
           ret (n_fds, Some (replicate (nat n_fds) ''unknown''))
         })
     }"

definition sd_listen_fds_with_names ::
  "nat \<Rightarrow> 'w posix \<Rightarrow> bool \<Rightarrow> bool \<Rightarrow> ('w, (int \<times> string list option) c_run) prog" where
  "sd_listen_fds_with_names fuel K unset_environment names =
     (if \<not> names then do { r \<leftarrow> sd_listen_fds K unset_environment; ret (Returned (r, None)) }
      else do {
        env \<leftarrow> getenv ''LISTEN_FDNAMES'';
        case env of
          None \<Rightarrow> do { r \<leftarrow> listen_fds_names K unset_environment None; ret (Returned r) }
        | Some e \<Rightarrow> do {
            loop \<leftarrow> names_loop fuel (strtok_first e) [];
            case loop of
              None \<Rightarrow> ret Unfinished
            | Some [] \<Rightarrow> ret Segfault
            | Some l \<Rightarrow> do {
                store_pointer (8 * (length l - 1) + 2) (length l);
                r \<leftarrow> listen_fds_names K unset_environment (Some l);
                ret (Returned r)
              }
          }
      })"

section \<open>What a descriptor is\<close>

definition S_ISFIFO :: "int \<Rightarrow> bool" where "S_ISFIFO m \<longleftrightarrow> m AND 0xF000 = 0x1000"
definition S_ISCHR :: "int \<Rightarrow> bool" where "S_ISCHR m \<longleftrightarrow> m AND 0xF000 = 0x2000"
definition S_ISREG :: "int \<Rightarrow> bool" where "S_ISREG m \<longleftrightarrow> m AND 0xF000 = 0x8000"
definition S_ISSOCK :: "int \<Rightarrow> bool" where "S_ISSOCK m \<longleftrightarrow> m AND 0xF000 = 0xC000"

text \<open>What a failed \<open>stat\<close> of the path makes of the answer.\<close>

definition stat_failed :: "('w, int) prog" where
  "stat_failed = do { e \<leftarrow> get_errno; if IN_SET e [ENOENT, ENOTDIR] then ret 0 else ret (- e) }"

definition sd_is_fifo :: "'w posix \<Rightarrow> int \<Rightarrow> string option \<Rightarrow> ('w, int) prog" where
  "sd_is_fifo K fd path =
     assert_return ''fd >= 0'' (fd \<ge> 0) (- EBADF) (do {
       st \<leftarrow> syscall (px_fstat K fd);
       case st of
         None \<Rightarrow> neg_errno
       | Some st_fd \<Rightarrow>
           if \<not> S_ISFIFO (st_mode st_fd) then ret 0
           else (case path of
             None \<Rightarrow> ret 1
           | Some pth \<Rightarrow> do {
               sp \<leftarrow> syscall (px_stat K pth);
               case sp of
                 None \<Rightarrow> stat_failed
               | Some st_path \<Rightarrow>
                   ret (of_bool (st_dev st_path = st_dev st_fd \<and> st_ino st_path = st_ino st_fd))
             })
     })"

definition sd_is_spskal :: "'w posix \<Rightarrow> int \<Rightarrow> string option \<Rightarrow> ('w, int) prog" where
  "sd_is_spskal K fd path =
     assert_return ''fd >= 0'' (fd \<ge> 0) (- EBADF) (do {
       st \<leftarrow> syscall (px_fstat K fd);
       case st of
         None \<Rightarrow> neg_errno
       | Some st_fd \<Rightarrow>
           if \<not> S_ISREG (st_mode st_fd) \<and> \<not> S_ISCHR (st_mode st_fd) then ret 0
           else (case path of
             None \<Rightarrow> ret 1
           | Some pth \<Rightarrow> do {
               sp \<leftarrow> syscall (px_stat K pth);
               case sp of
                 None \<Rightarrow> stat_failed
               | Some st_path \<Rightarrow>
                   if S_ISREG (st_mode st_fd) \<and> S_ISREG (st_mode st_path) then
                     ret (of_bool (st_dev st_path = st_dev st_fd \<and> st_ino st_path = st_ino st_fd))
                   else if S_ISCHR (st_mode st_fd) \<and> S_ISCHR (st_mode st_path) then
                     ret (of_bool (st_rdev st_path = st_rdev st_fd))
                   else ret 0
             })
     })"

section \<open>Sockets\<close>

text \<open>\<open>n\<close> bytes of memory from an offset on, and the integers stored there.\<close>

definition mem :: "string \<Rightarrow> nat \<Rightarrow> nat \<Rightarrow> string" where
  "mem m i n = take n (drop i m @ replicate n NUL)"

definition u16 :: "string \<Rightarrow> nat \<Rightarrow> int" where
  "u16 m i = (case mem m i 2 of [a, b] \<Rightarrow> of_char a + 256 * of_char b | _ \<Rightarrow> 0)"

definition be16toh :: "string \<Rightarrow> nat \<Rightarrow> int" where
  "be16toh m i = (case mem m i 2 of [a, b] \<Rightarrow> 256 * of_char a + of_char b | _ \<Rightarrow> 0)"

definition u32 :: "string \<Rightarrow> nat \<Rightarrow> int" where
  "u32 m i = u16 m i + 65536 * u16 m (i + 2)"

text \<open>The fields of \<open>union sockaddr_union\<close>, 128 bytes: the family and the port at the same offsets for both
  internet families, \<open>sun_path\<close> at offset 2.\<close>

abbreviation (input) sa_family :: "string \<Rightarrow> int" where "sa_family sa \<equiv> u16 sa 0"
abbreviation (input) sin_port :: "string \<Rightarrow> int" where "sin_port sa \<equiv> u16 sa 2"
abbreviation (input) sin_addr :: "string \<Rightarrow> int" where "sin_addr sa \<equiv> u32 sa 4"
abbreviation (input) sin6_flowinfo :: "string \<Rightarrow> int" where "sin6_flowinfo sa \<equiv> u32 sa 4"
abbreviation (input) sin6_addr :: "string \<Rightarrow> string" where "sin6_addr sa \<equiv> mem sa 8 16"
abbreviation (input) sin6_scope_id :: "string \<Rightarrow> int" where "sin6_scope_id sa \<equiv> u32 sa 24"

definition sockaddr_port :: "string \<Rightarrow> int + int" where
  "sockaddr_port sa =
     (if sa_family sa = AF_INET then Inr (be16toh sa 2)
      else if sa_family sa = AF_INET6 then Inr (be16toh sa 2)
      else Inl (- EAFNOSUPPORT))"

text \<open>\<open>getsockname\<close> into a cleared \<open>sockaddr_union\<close>, with the check of the length that follows it.\<close>

definition with_sockname :: "'w posix \<Rightarrow> int \<Rightarrow> (string \<Rightarrow> nat \<Rightarrow> ('w, int) prog) \<Rightarrow> ('w, int) prog" where
  "with_sockname K fd f =
     do {
       nm \<leftarrow> syscall (px_getsockname K fd);
       case nm of
         None \<Rightarrow> neg_errno
       | Some (bs, l) \<Rightarrow> if l < 2 then ret (- EINVAL) else f (mem (take 128 bs) 0 128) l
     }"

definition sd_is_socket_internal :: "'w posix \<Rightarrow> int \<Rightarrow> int \<Rightarrow> int \<Rightarrow> ('w, int) prog" where
  "sd_is_socket_internal K fd type listening =
     assert_return ''fd >= 0'' (fd \<ge> 0) (- EBADF) (
     assert_return ''type >= 0'' (type \<ge> 0) (- EINVAL) (do {
       st \<leftarrow> syscall (px_fstat K fd);
       case st of
         None \<Rightarrow> neg_errno
       | Some st_fd \<Rightarrow>
           if \<not> S_ISSOCK (st_mode st_fd) then ret 0
           else do {
             wrong \<leftarrow>
               (if type \<noteq> 0 then do {
                  opt \<leftarrow> syscall (px_getsockopt K fd SO_TYPE 0);
                  case opt of
                    None \<Rightarrow> do { r \<leftarrow> neg_errno; ret (Some r) }
                  | Some (other_type, l) \<Rightarrow>
                      ret (if l \<noteq> 4 then Some (- EINVAL) else if other_type \<noteq> type then Some 0 else None)
                } else ret None);
             case wrong of
               Some r \<Rightarrow> ret r
             | None \<Rightarrow>
                 if listening \<ge> 0 then do {
                   opt \<leftarrow> syscall (px_getsockopt K fd SO_ACCEPTCONN 0);
                   case opt of
                     None \<Rightarrow> neg_errno
                   | Some (accepting, l) \<Rightarrow>
                       ret (if l \<noteq> 4 then - EINVAL
                            else if (accepting = 0) \<noteq> (listening = 0) then 0 else 1)
                 } else ret 1
           }
     }))"

definition sd_is_socket :: "'w posix \<Rightarrow> int \<Rightarrow> int \<Rightarrow> int \<Rightarrow> int \<Rightarrow> ('w, int) prog" where
  "sd_is_socket K fd family type listening =
     assert_return ''fd >= 0'' (fd \<ge> 0) (- EBADF) (
     assert_return ''family >= 0'' (family \<ge> 0) (- EINVAL) (do {
       r \<leftarrow> sd_is_socket_internal K fd type listening;
       if r \<le> 0 then ret r
       else if family > 0 then with_sockname K fd (\<lambda>sa l. ret (of_bool (sa_family sa = family)))
       else ret 1
     }))"

definition sd_is_socket_inet :: "'w posix \<Rightarrow> int \<Rightarrow> int \<Rightarrow> int \<Rightarrow> int \<Rightarrow> int \<Rightarrow> ('w, int) prog" where
  "sd_is_socket_inet K fd family type listening port =
     assert_return ''fd >= 0'' (fd \<ge> 0) (- EBADF) (
     assert_return ''IN_SET(family, 0, AF_INET, AF_INET6)'' (IN_SET family [0, AF_INET, AF_INET6]) (- EINVAL) (do {
       r \<leftarrow> sd_is_socket_internal K fd type listening;
       if r \<le> 0 then ret r
       else with_sockname K fd (\<lambda>sa l.
         if \<not> IN_SET (sa_family sa) [AF_INET, AF_INET6] then ret 0
         else if family \<noteq> 0 \<and> sa_family sa \<noteq> family then ret 0
         else if port > 0 then
           (case sockaddr_port sa of Inl e \<Rightarrow> ret e | Inr sa_port \<Rightarrow> ret (of_bool (port = sa_port)))
         else ret 1)
     }))"

definition sd_is_socket_sockaddr :: "'w posix \<Rightarrow> int \<Rightarrow> int \<Rightarrow> string option \<Rightarrow> nat \<Rightarrow> int \<Rightarrow> ('w, int) prog" where
  "sd_is_socket_sockaddr K fd type addr addr_len listening =
     assert_return ''fd >= 0'' (fd \<ge> 0) (- EBADF) (
     case addr of
       None \<Rightarrow> assert_return ''addr'' False (- EINVAL) (ret 0)
     | Some a \<Rightarrow>
     assert_return ''addr_len >= sizeof(sa_family_t)'' (addr_len \<ge> 2) (- ENOBUFS) (
     assert_return ''IN_SET(addr->sa_family, AF_INET, AF_INET6)'' (IN_SET (sa_family a) [AF_INET, AF_INET6])
       (- EPFNOSUPPORT) (do {
       r \<leftarrow> sd_is_socket_internal K fd type listening;
       if r \<le> 0 then ret r
       else with_sockname K fd (\<lambda>sa l. ret (
         if sa_family sa \<noteq> sa_family a then 0
         else if sa_family sa = AF_INET then
           (if l < 16 \<or> addr_len < 16 then - EINVAL
            else if sin_port a \<noteq> 0 \<and> sin_port sa \<noteq> sin_port a then 0
            else of_bool (sin_addr sa = sin_addr a))
         else
           (if l < 28 \<or> addr_len < 28 then - EINVAL
            else if sin_port a \<noteq> 0 \<and> sin_port sa \<noteq> sin_port a then 0
            else if sin6_flowinfo a \<noteq> 0 \<and> sin6_flowinfo sa \<noteq> sin6_flowinfo a then 0
            else if sin6_scope_id a \<noteq> 0 \<and> sin6_scope_id sa \<noteq> sin6_scope_id a then 0
            else of_bool (sin6_addr sa = sin6_addr a))))
     })))"

definition sd_is_socket_unix :: "'w posix \<Rightarrow> int \<Rightarrow> int \<Rightarrow> int \<Rightarrow> string option \<Rightarrow> nat \<Rightarrow> ('w, int) prog" where
  "sd_is_socket_unix K fd type listening path len =
     assert_return ''fd >= 0'' (fd \<ge> 0) (- EBADF) (do {
       r \<leftarrow> sd_is_socket_internal K fd type listening;
       if r \<le> 0 then ret r
       else with_sockname K fd (\<lambda>sa l.
         if sa_family sa \<noteq> AF_UNIX then ret 0
         else (case path of
           None \<Rightarrow> ret 1
         | Some pth \<Rightarrow>
             let len1 = (if len = 0 then length (takeWhile (\<lambda>c. c \<noteq> NUL) pth) else len)
             in if len1 = 0 then ret (of_bool (l = 2))
                else if mem pth 0 1 \<noteq> [NUL] then
                  ret (of_bool (l \<ge> 2 + len1 + 1 \<and> mem pth 0 (len1 + 1) = mem sa 2 (len1 + 1)))
                else ret (of_bool (l = 2 + len1 \<and> mem pth 0 len1 = mem sa 2 len1))))
     })"

definition sd_is_mq :: "int \<Rightarrow> string option \<Rightarrow> ('w, int) prog" where
  "sd_is_mq fd path = ret 0"

section \<open>Waiting and buffers\<close>

definition timespec_store :: "64 word \<Rightarrow> timespec" where
  "timespec_store u =
     (if u = - 1 \<or> uint (u div 1000000) \<ge> 2 ^ 63 - 1 then (- 1, - 1)
      else (uint (u div 1000000), uint (u mod 1000000 * 1000)))"

definition fd_wait_for_event :: "'w posix \<Rightarrow> int \<Rightarrow> int \<Rightarrow> 64 word \<Rightarrow> ('w, int) prog" where
  "fd_wait_for_event K fd event t =
     do {
       res \<leftarrow> syscall (px_ppoll K fd event (if t = - 1 then None else Some (timespec_store t)));
       case res of
         None \<Rightarrow> neg_errno
       | Some (r, revents) \<Rightarrow>
           if r = 0 then ret 0
           else if revents AND POLLNVAL \<noteq> 0 then ret (- EBADF)
           else ret revents
     }"

definition setsockopt_int :: "'w posix \<Rightarrow> int \<Rightarrow> int \<Rightarrow> int \<Rightarrow> ('w, int) prog" where
  "setsockopt_int K fd optname v =
     do {
       ok \<leftarrow> syscall (px_setsockopt K fd optname v);
       case ok of None \<Rightarrow> neg_errno | Some _ \<Rightarrow> ret 0
     }"

text \<open>The condition on the size of the buffer. The conditional expression binds weaker than \<open>&&\<close>: whatever
  is wrong with the first operands, the value is compared for equality. \<open>(size_t)value\<close> wraps around.\<close>

definition sndbuf_fits :: "bool \<Rightarrow> nat \<Rightarrow> bool \<Rightarrow> int \<Rightarrow> nat \<Rightarrow> bool" where
  "sndbuf_fits got l increase v n \<longleftrightarrow>
     (if got \<and> l = 4 \<and> increase then v mod 2 ^ 64 \<ge> int n * 2 else v mod 2 ^ 64 = int n * 2)"

definition fd_set_sndbuf :: "'w posix \<Rightarrow> int \<Rightarrow> nat \<Rightarrow> bool \<Rightarrow> ('w, int) prog" where
  "fd_set_sndbuf K fd n increase =
     (if int n > INT_MAX then ret (- ERANGE)
      else do {
        v0 \<leftarrow> query (px_garbage K);
        opt \<leftarrow> syscall (px_getsockopt K fd SO_SNDBUF v0);
        let (v1, l1) = (case opt of None \<Rightarrow> (v0, 4) | Some vl \<Rightarrow> vl);
        if sndbuf_fits (opt \<noteq> None) l1 increase v1 n then ret 0
        else do {
          r \<leftarrow> setsockopt_int K fd SO_SNDBUF (int n);
          if r < 0 then ret r
          else do {
            opt2 \<leftarrow> syscall (px_getsockopt K fd SO_SNDBUF v1);
            let (v2, l2) = (case opt2 of None \<Rightarrow> (v1, 4) | Some vl \<Rightarrow> vl);
            if sndbuf_fits (opt2 \<noteq> None) l2 increase v2 n then ret 1
            else do {
              r2 \<leftarrow> setsockopt_int K fd SO_SNDBUFFORCE (int n);
              if r2 < 0 then ret r2 else ret 1
            }
          }
        }
      })"

definition fd_inc_sndbuf :: "'w posix \<Rightarrow> int \<Rightarrow> nat \<Rightarrow> ('w, int) prog" where
  "fd_inc_sndbuf K fd n = fd_set_sndbuf K fd n True"

section \<open>Notifications\<close>

abbreviation (input) SNDBUF_SIZE :: nat where "SNDBUF_SIZE \<equiv> 8 * 1024 * 1024"

text \<open>The address of the socket named by \<open>NOTIFY_SOCKET\<close>: the family, then the name cut or filled up to the
  108 bytes of \<open>sun_path\<close>, a leading \<^verbatim>\<open>@\<close> standing for the null character of an abstract name.\<close>

definition notify_sockaddr :: "string \<Rightarrow> string" where
  "notify_sockaddr e =
     (let sun_path = mem (take 108 e) 0 108
      in [CHR 0x01, NUL] @ (if hd sun_path = CHR ''@'' then NUL # tl sun_path else sun_path) @ replicate 18 NUL)"

text \<open>The message, or \<open>None\<close> if the second control header is not found: it is then written through a null
  pointer.\<close>

definition notify_message ::
  "'w posix \<Rightarrow> int \<Rightarrow> string \<Rightarrow> string \<Rightarrow> int list \<Rightarrow> bool \<Rightarrow> ('w, message option) prog" where
  "notify_message K pid e state fds send_ucred =
     do {
       self \<leftarrow> query (px_getpid K);
       uid \<leftarrow> query (px_getuid K);
       gid \<leftarrow> query (px_getgid K);
       found \<leftarrow> query (px_nxthdr K);
       let m = \<lparr>msg_name = notify_sockaddr e, msg_namelen = 2 + length e, msg_iov = state, msg_rights = fds,
                msg_creds = (if send_ucred then Some (if pid \<noteq> 0 then pid else self, uid, gid) else None)\<rparr>;
       if fds \<noteq> [] \<and> send_ucred then do {
         assert_se ''cmsg = CMSG_NXTHDR(&msghdr, cmsg)'' found;
         ret (if found then Some m else None)
       } else ret (Some m)
     }"

definition send_ucred :: "'w posix \<Rightarrow> int \<Rightarrow> ('w, bool) prog" where
  "send_ucred K pid =
     do {
       self \<leftarrow> query (px_getpid K);
       uid \<leftarrow> query (px_getuid K);
       euid \<leftarrow> query (px_geteuid K);
       gid \<leftarrow> query (px_getgid K);
       egid \<leftarrow> query (px_getegid K);
       ret ((pid \<noteq> 0 \<and> pid \<noteq> self) \<or> uid \<noteq> euid \<or> gid \<noteq> egid)
     }"

text \<open>The first attempt, and the second one without the credentials.\<close>

definition notify_send :: "'w posix \<Rightarrow> int \<Rightarrow> message \<Rightarrow> ('w, int) prog" where
  "notify_send K fd m =
     do {
       sent \<leftarrow> syscall (px_sendmsg K fd m);
       if sent \<noteq> None then ret 1
       else if msg_creds m \<noteq> None then do {
         again \<leftarrow> syscall (px_sendmsg K fd (m\<lparr>msg_creds := None\<rparr>));
         if again \<noteq> None then ret 1 else neg_errno
       } else neg_errno
     }"

definition notify_finish :: "'w posix \<Rightarrow> bool \<Rightarrow> int option \<Rightarrow> int \<Rightarrow> ('w, int c_run) prog" where
  "notify_finish K unset_environment fd r =
     do {
       (if unset_environment then unsetenv ''NOTIFY_SOCKET'' else ret ());
       (case fd of None \<Rightarrow> ret () | Some f \<Rightarrow> do { c \<leftarrow> syscall (px_close K f); ret () });
       ret (Returned r)
     }"

text \<open>What is done once the socket is open.\<close>

definition notify_on_socket ::
  "'w posix \<Rightarrow> int \<Rightarrow> bool \<Rightarrow> string \<Rightarrow> string \<Rightarrow> int list \<Rightarrow> int \<Rightarrow> ('w, int c_run) prog" where
  "notify_on_socket K pid unset_environment e state fds fd =
     do {
       ignored \<leftarrow> fd_inc_sndbuf K fd SNDBUF_SIZE;
       ucred \<leftarrow> send_ucred K pid;
       msg \<leftarrow> notify_message K pid e state fds ucred;
       case msg of
         None \<Rightarrow> ret Segfault
       | Some m \<Rightarrow> do { r \<leftarrow> notify_send K fd m; notify_finish K unset_environment (Some fd) r }
     }"

definition sd_pid_notify_with_fds ::
  "'w posix \<Rightarrow> int \<Rightarrow> bool \<Rightarrow> string option \<Rightarrow> int list option \<Rightarrow> nat \<Rightarrow> ('w, int c_run) prog" where
  "sd_pid_notify_with_fds K pid unset_environment state fds n_fds =
     (if state = None then notify_finish K unset_environment None (- EINVAL)
      else if n_fds > 0 \<and> fds = None then notify_finish K unset_environment None (- EINVAL)
      else do {
        env \<leftarrow> getenv ''NOTIFY_SOCKET'';
        case env of
          None \<Rightarrow> ret (Returned 0)
        | Some e \<Rightarrow> do {
            sock \<leftarrow> syscall (px_socket K);
            case sock of
              None \<Rightarrow> do { r \<leftarrow> neg_errno; notify_finish K unset_environment None r }
            | Some fd \<Rightarrow>
                notify_on_socket K pid unset_environment e (the state) (if n_fds > 0 then take n_fds (the fds) else []) fd
          }
      })"

text \<open>What follows the notification in \<open>sd_notify_barrier\<close>, up to the label \<open>cleanup\<close>.\<close>

definition barrier_wait :: "'w posix \<Rightarrow> int \<Rightarrow> 64 word \<Rightarrow> int \<Rightarrow> ('w, int) prog" where
  "barrier_wait K fd timeout r =
     (if r \<le> 0 then neg_errno
      else do {
        ev \<leftarrow> fd_wait_for_event K fd 0 timeout;
        if ev < 0 then ret ev else if ev = 0 then ret (- ETIMEDOUT) else ret 1
      })"

definition sd_notify_barrier :: "'w posix \<Rightarrow> bool \<Rightarrow> 64 word \<Rightarrow> ('w, int c_run) prog" where
  "sd_notify_barrier K unset_environment timeout =
     do {
       pipe_fd \<leftarrow> syscall (px_pipe2 K);
       case pipe_fd of
         None \<Rightarrow> do { r \<leftarrow> neg_errno; ret (Returned r) }
       | Some (rd, wr) \<Rightarrow> do {
           sent \<leftarrow> sd_pid_notify_with_fds K 0 unset_environment (Some ''BARRIER=1'') (Some [wr]) 1;
           case sent of
             Returned r \<Rightarrow> do {
               c \<leftarrow> syscall (px_close K wr);
               r2 \<leftarrow> barrier_wait K rd timeout r;
               c2 \<leftarrow> syscall (px_close K rd);
               ret (Returned r2)
             }
           | x \<Rightarrow> ret x
         }
     }"

definition sd_pid_notify :: "'w posix \<Rightarrow> int \<Rightarrow> bool \<Rightarrow> string option \<Rightarrow> ('w, int c_run) prog" where
  "sd_pid_notify K pid unset_environment state = sd_pid_notify_with_fds K pid unset_environment state None 0"

definition sd_notify :: "'w posix \<Rightarrow> bool \<Rightarrow> string option \<Rightarrow> ('w, int c_run) prog" where
  "sd_notify K unset_environment state = sd_pid_notify_with_fds K 0 unset_environment state None 0"

text \<open>\<open>vasprintf\<close> is the formatting of the caller's arguments, \<open>None\<close> for a failure.\<close>

definition sd_pid_notifyf ::
  "'w posix \<Rightarrow> (string \<Rightarrow> string option) \<Rightarrow> int \<Rightarrow> bool \<Rightarrow> string option \<Rightarrow> ('w, int c_run) prog" where
  "sd_pid_notifyf K vasprintf pid unset_environment format =
     (case format of
        None \<Rightarrow> sd_pid_notify K pid unset_environment None
      | Some f \<Rightarrow>
          (case vasprintf f of
             None \<Rightarrow> ret (Returned (- ENOMEM))
           | Some p \<Rightarrow> sd_pid_notify K pid unset_environment (Some p)))"

definition sd_notifyf ::
  "'w posix \<Rightarrow> (string \<Rightarrow> string option) \<Rightarrow> bool \<Rightarrow> string option \<Rightarrow> ('w, int c_run) prog" where
  "sd_notifyf K vasprintf unset_environment format =
     (case format of
        None \<Rightarrow> sd_pid_notify K 0 unset_environment None
      | Some f \<Rightarrow>
          (case vasprintf f of
             None \<Rightarrow> ret (Returned (- ENOMEM))
           | Some p \<Rightarrow> sd_pid_notify K 0 unset_environment (Some p)))"

section \<open>The supervisor\<close>

definition laccess :: "'w posix \<Rightarrow> string \<Rightarrow> ('w, int) prog" where
  "laccess K path =
     do {
       ok \<leftarrow> syscall (px_faccessat K path);
       case ok of None \<Rightarrow> neg_errno | Some _ \<Rightarrow> ret 0
     }"

definition sd_booted :: "'w posix \<Rightarrow> ('w, int) prog" where
  "sd_booted K =
     do {
       r \<leftarrow> laccess K ''/run/systemd/system/'';
       if r \<ge> 0 then ret 1
       else do { e \<leftarrow> get_errno; if e = ENOENT then ret 0 else ret (- e) }
     }"

text \<open>\<open>sd_watchdog_enabled\<close> above its label: the result, the value of \<open>*usec\<close> if it is set, and whether \<open>s\<close>
  and \<open>p\<close> are different from null at the label.\<close>

definition watchdog_pid :: "'w posix \<Rightarrow> 64 word \<Rightarrow> bool \<Rightarrow> ('w, int \<times> 64 word option \<times> bool) prog" where
  "watchdog_pid K u want_usec =
     do {
       env \<leftarrow> getenv ''WATCHDOG_PID'';
       let success = (1, if want_usec then Some u else None, env \<noteq> None);
       case env of
         None \<Rightarrow> ret success
       | Some e \<Rightarrow> do {
           (v, p) \<leftarrow> c_strtoul e;
           let pid = int32 (uint v);
           err \<leftarrow> get_errno;
           if err > 0 then ret (- err, None, True)
           else if p = 0 \<or> p < length e \<or> pid \<le> 0 then ret (- EINVAL, None, True)
           else do {
             me \<leftarrow> query (px_getpid K);
             if me \<noteq> pid then ret (0, None, True) else ret success
           }
         }
     }"

definition watchdog_body :: "'w posix \<Rightarrow> bool \<Rightarrow> ('w, int \<times> 64 word option \<times> bool) prog" where
  "watchdog_body K want_usec =
     do {
       env \<leftarrow> getenv ''WATCHDOG_USEC'';
       case env of
         None \<Rightarrow> ret (0, None, True)
       | Some s \<Rightarrow> do {
           (u, pp) \<leftarrow> c_strtoul s;
           err \<leftarrow> get_errno;
           if err > 0 then ret (- err, None, True)
           else if pp = 0 \<or> pp < length s then ret (- EINVAL, None, True)
           else if u \<le> 0 \<or> u \<ge> - 1 then ret (- EINVAL, None, True)
           else watchdog_pid K u want_usec
         }
     }"

definition sd_watchdog_enabled :: "'w posix \<Rightarrow> bool \<Rightarrow> bool \<Rightarrow> ('w, int \<times> 64 word option) prog" where
  "sd_watchdog_enabled K unset_environment want_usec =
     do {
       s \<leftarrow> getenv ''WATCHDOG_USEC'';
       (r, usec, p) \<leftarrow> watchdog_body K want_usec;
       (if unset_environment \<and> s \<noteq> None then unsetenv ''WATCHDOG_USEC'' else ret ());
       (if unset_environment \<and> p then unsetenv ''WATCHDOG_PID'' else ret ());
       ret (r, usec)
     }"

end
