(* ===== verification/Sd_Daemon_Props.thy ===== *)
theory Sd_Daemon_Props
  imports Sd_Daemon
begin

text \<open>
  What the functions of \<^verbatim>\<open>lib/eci-daemon/sd-daemon.c\<close> promise. Programs are run by simplification; that a
  program leaves a part of the process alone is a relation on runs (\<open>keeps\<close>), closed under the constructs of
  the programs. The descriptor table of the kernel is an interface (\<open>fd_table\<close>); sockets and datagrams are
  observed by recording the calls of a kernel (\<open>recorded\<close>).
\<close>

named_theorems keeps_intros \<open>programs that leave a part of the process alone\<close>

section \<open>Running programs\<close>

lemma run_prims [simp]:
  "run_state (syscall f) s =
     (case f (world s) of (Inr x, w) \<Rightarrow> (Some x, s\<lparr>world := w\<rparr>)
      | (Inl e, w) \<Rightarrow> (None, s\<lparr>world := w, p_errno := e\<rparr>))"
  "run_state (query g) s = (g (world s), s)"
  "run_state get_errno s = (p_errno s, s)"
  "run_state neg_errno s = (- p_errno s, s)"
  "run_state (getenv k) s = (environ s k, s)"
  "run_state (unsetenv k) s = ((), s\<lparr>environ := (environ s)(k := None)\<rparr>)"
  "run_state (log_assert_failed_return t) s = ((), s\<lparr>printed := printed s @ [t]\<rparr>)"
  by (simp_all add: syscall_def query_def get_errno_def neg_errno_def getenv_def unsetenv_def
      log_assert_failed_return_def)

text \<open>Programs that leave a part of the state of the process as it is.\<close>

abbreviation keeps :: "('w process \<Rightarrow> 'b) \<Rightarrow> ('w, 'a) prog \<Rightarrow> bool" where
  "keeps part \<equiv> state_io_rel (\<lambda>s s'. part s' = part s)"

lemma keepsD: "keeps part m \<Longrightarrow> run_state m s = (x, s') \<Longrightarrow> part s' = part s"
  by auto

lemma keeps_bind [keeps_intros]: "keeps part m \<Longrightarrow> (\<And>x. keeps part (f x)) \<Longrightarrow> keeps part (m \<bind> f)"
  by (auto simp: state_io_rel_def split: prod.splits) (metis snd_conv)

lemma keeps_if [keeps_intros]:
  "(b \<Longrightarrow> keeps part m) \<Longrightarrow> (\<not> b \<Longrightarrow> keeps part n) \<Longrightarrow> keeps part (if b then m else n)"
  by simp

lemma keeps_case [keeps_intros]:
  "keeps part m \<Longrightarrow> (\<And>x. keeps part (f x)) \<Longrightarrow> keeps part (case v of None \<Rightarrow> m | Some x \<Rightarrow> f x)"
  "(\<And>x y. keeps part (g x y)) \<Longrightarrow> keeps part (case p of (x, y) \<Rightarrow> g x y)"
  by (simp_all split: option.split prod.split)

lemma keeps_reads [keeps_intros]:
  "keeps part (ret x)" "keeps part (query g)" "keeps part get_errno" "keeps part neg_errno" "keeps part (getenv k)"
  by (auto simp: state_io_rel_def)

lemma keeps_environ [keeps_intros]:
  "keeps environ (syscall c)" "keeps environ (log_assert_failed_return t)" "keeps environ (store_pointer sz i)"
  "keeps environ (c_strtoul e)"
  by (auto simp: state_io_rel_def store_pointer_def c_strtoul_def split: prod.splits sum.splits)

lemma keeps_cloexec_loop [keeps_intros]: "keeps environ (cloexec_loop K fd n)"
  by (induction K fd n rule: cloexec_loop.induct) (auto intro!: keeps_intros)

lemma keeps_listen [keeps_intros]: "keeps environ (listen_fds_count K)" "keeps environ (listen_fds_body K)"
  unfolding listen_fds_body_def listen_fds_count_def Let_def by (intro keeps_intros)+

lemma run_unsetenv_all:
  "run_state (unsetenv_all b) s =
     ((), if b then s\<lparr>environ := (environ s)(''LISTEN_PID'' := None, ''LISTEN_FDS'' := None,
                       ''LISTEN_FDNAMES'' := None)\<rparr> else s)"
  by (simp add: unsetenv_all_def)

section \<open>Numerals\<close>

lemma c_isdigit_show_nat: "c \<in> set (show_nat n) \<Longrightarrow> c_isdigit c"
  unfolding c_isdigit_def by (rule subsetD [OF show_nat_digits])

lemma show_nat_nonempty [simp]: "show_nat n \<noteq> []"
  by (subst show_nat.simps) simp

lemma digit_not_blank: "c_isdigit c \<Longrightarrow> \<not> c_isspace c \<and> c \<noteq> CHR ''+'' \<and> c \<noteq> CHR ''-''"
  by (simp add: c_isdigit_def c_isspace_def) (elim disjE; simp)

text \<open>What is printed as a number is read back as that number, up to its end.\<close>

lemma strtoul_show_nat: "n < 2 ^ 64 \<Longrightarrow> strtoul (show_nat n) = (of_nat n, length (show_nat n), False)"
proof -
  assume n: "n < 2 ^ 64"
  obtain c cs where s: "show_nat n = c # cs" by (cases "show_nat n") auto
  have digits: "\<forall>d \<in> set (show_nat n). c_isdigit d" using c_isdigit_show_nat by blast
  then have c: "\<not> c_isspace c" "c \<noteq> CHR ''+''" "c \<noteq> CHR ''-''" using digit_not_blank [of c] s by auto
  have "dropWhile c_isspace (show_nat n) = show_nat n" "takeWhile c_isdigit (show_nat n) = show_nat n"
    using c digits by (auto simp: s takeWhile_eq_all_conv)
  moreover have "digits_value (show_nat n) = n" by (simp add: digits_value_def show_nat_value)
  ultimately show ?thesis using n c by (simp add: strtoul_def Let_def s)
qed

lemma run_strtoul_show_nat:
  "n < 2 ^ 64 \<Longrightarrow> run_state (c_strtoul (show_nat n)) s = ((of_nat n, length (show_nat n)), s)"
  by (simp add: c_strtoul_def strtoul_show_nat)

lemma int32_of_nat: "n < 2 ^ 31 \<Longrightarrow> int32 (uint (of_nat n :: 64 word)) = int n"
proof -
  assume n: "n < 2 ^ 31"
  then have "uint (of_nat n :: 64 word) = int n" by (simp add: uint_nat unat_of_nat)
  moreover have "signed_take_bit 31 (int n) = int n"
    using n by (intro signed_take_bit_int_eq_self) auto
  ultimately show ?thesis by (simp add: int32_def)
qed

section \<open>Socket activation\<close>

text \<open>The contract of the descriptor table of the kernel: \<open>fcntl\<close> reads and replaces the flags of an open
  descriptor and fails for any other.\<close>

locale fd_table =
  fixes K :: "'w posix" and flags :: "'w \<Rightarrow> int \<Rightarrow> int option"
  assumes getfd: "px_getfd K fd w = (case flags w fd of Some f \<Rightarrow> (Inr f, w) | None \<Rightarrow> (Inl EBADF, w))"
    and setfd: "flags w fd \<noteq> None \<Longrightarrow> fst (px_setfd K fd f w) = Inr ()"
    and setfd_flags: "flags w fd \<noteq> None \<Longrightarrow> flags (snd (px_setfd K fd f w)) = (flags w)(fd := Some f)"
begin

definition marked :: "int \<Rightarrow> nat \<Rightarrow> 'w \<Rightarrow> int \<Rightarrow> int option" where
  "marked fd n w = (\<lambda>x. if fd \<le> x \<and> x < fd + int n then map_option (\<lambda>f. f OR FD_CLOEXEC) (flags w x) else flags w x)"

lemma or_cloexec: "(f :: int) AND 1 \<noteq> 0 \<Longrightarrow> f OR 1 = f"
  by (simp add: and_one_eq or_one_eq odd_iff_mod_2_eq_one)

lemma cloexec_loop_marks:
  assumes "\<forall>x. fd \<le> x \<and> x < fd + int n \<longrightarrow> flags (world s) x \<noteq> None"
  shows "\<exists>w'. run_state (cloexec_loop K fd n) s = (None, s\<lparr>world := w'\<rparr>) \<and> flags w' = marked fd n (world s)"
  using assms
proof (induction n arbitrary: fd s)
  case 0
  then show ?case by (auto simp: marked_def fun_eq_iff intro!: exI [of _ "world s"])
next
  case (Suc n)
  from Suc.prems obtain f where f: "flags (world s) fd = Some f" by force
  show ?case
  proof (cases "f AND FD_CLOEXEC \<noteq> 0")
    case True
    from Suc.IH [of "fd + 1" s] Suc.prems obtain w' where
      w: "run_state (cloexec_loop K (fd + 1) n) s = (None, s\<lparr>world := w'\<rparr>)" "flags w' = marked (fd + 1) n (world s)"
      by auto
    have "marked (fd + 1) n (world s) = marked fd (Suc n) (world s)"
      using f or_cloexec [OF True] by (auto simp: marked_def fun_eq_iff dest: order_antisym)
    with w f True show ?thesis by (auto simp: getfd)
  next
    case False
    define w1 where "w1 = snd (px_setfd K fd (f OR FD_CLOEXEC) (world s))"
    have step: "px_setfd K fd (f OR FD_CLOEXEC) (world s) = (Inr (), w1)"
      using setfd [of "world s" fd] f by (simp add: w1_def prod_eq_iff)
    have w1: "flags w1 = (flags (world s))(fd := Some (f OR FD_CLOEXEC))"
      using setfd_flags [of "world s" fd] f by (simp add: w1_def)
    from Suc.IH [of "fd + 1" "s\<lparr>world := w1\<rparr>"] Suc.prems w1 obtain w' where
      w: "run_state (cloexec_loop K (fd + 1) n) (s\<lparr>world := w1\<rparr>) = (None, s\<lparr>world := w'\<rparr>)"
         "flags w' = marked (fd + 1) n w1"
      by auto
    have "marked (fd + 1) n w1 = marked fd (Suc n) (world s)"
      using f w1 by (auto simp: marked_def fun_eq_iff dest: order_antisym)
    with w f False step show ?thesis by (auto simp: getfd)
  qed
qed

lemma listen_fds_count_marks:
  assumes "environ s ''LISTEN_FDS'' = Some (show_nat n)" "p_errno s = 0" "0 < n" "n \<le> 2147483644"
    and "\<forall>x. 3 \<le> x \<and> x < 3 + int n \<longrightarrow> flags (world s) x \<noteq> None"
  shows "\<exists>w'. run_state (listen_fds_count K) s = (int n, s\<lparr>world := w'\<rparr>) \<and> flags w' = marked 3 n (world s)"
  using assms cloexec_loop_marks [of 3 n s]
  by (auto simp: listen_fds_count_def Let_def run_strtoul_show_nat int32_of_nat)

lemma listen_fds_body_marks:
  assumes "environ s ''LISTEN_FDS'' = Some (show_nat n)" "p_errno s = 0" "0 < n" "n \<le> 2147483644"
    and "environ s ''LISTEN_PID'' = Some (show_nat pid)" "px_getpid K (world s) = int pid" "0 < pid" "pid < 2 ^ 31"
    and "\<forall>x. 3 \<le> x \<and> x < 3 + int n \<longrightarrow> flags (world s) x \<noteq> None"
  shows "\<exists>w'. run_state (listen_fds_body K) s = (int n, s\<lparr>world := w'\<rparr>) \<and> flags w' = marked 3 n (world s)"
  using assms listen_fds_count_marks [of s n]
  by (auto simp: listen_fds_body_def Let_def run_strtoul_show_nat int32_of_nat)

end

text \<open>A kernel with nothing but a process and its descriptor table.\<close>

definition table_posix :: "int \<Rightarrow> (int \<Rightarrow> int option) posix" where
  "table_posix pid =
     \<lparr>px_getpid = (\<lambda>w. pid), px_getuid = (\<lambda>w. 0), px_geteuid = (\<lambda>w. 0), px_getgid = (\<lambda>w. 0), px_getegid = (\<lambda>w. 0),
      px_getfd = (\<lambda>fd w. case w fd of Some f \<Rightarrow> (Inr f, w) | None \<Rightarrow> (Inl EBADF, w)),
      px_setfd = (\<lambda>fd f w. case w fd of Some _ \<Rightarrow> (Inr (), w(fd := Some f)) | None \<Rightarrow> (Inl EBADF, w)),
      px_fstat = (\<lambda>fd w. (Inl EBADF, w)), px_stat = (\<lambda>p w. (Inl ENOENT, w)), px_faccessat = (\<lambda>p w. (Inl ENOENT, w)),
      px_getsockopt = (\<lambda>fd opt v w. (Inl EBADF, w)), px_setsockopt = (\<lambda>fd opt v w. (Inl EBADF, w)),
      px_getsockname = (\<lambda>fd w. (Inl EBADF, w)), px_socket = (\<lambda>w. (Inl EAFNOSUPPORT, w)),
      px_sendmsg = (\<lambda>fd m w. (Inl EBADF, w)), px_close = (\<lambda>fd w. (Inl EBADF, w)), px_pipe2 = (\<lambda>w. (Inl ENOMEM, w)),
      px_ppoll = (\<lambda>fd ev t w. (Inl EINVAL, w)), px_garbage = (\<lambda>w. 0), px_nxthdr = (\<lambda>w. True)\<rparr>"

interpretation table: fd_table "table_posix pid" "\<lambda>w. w" for pid
  by unfold_locales (auto simp: table_posix_def split: option.splits)

text \<open>C27: a process that finds its own identifier in \<open>LISTEN_PID\<close> and a number in \<open>LISTEN_FDS\<close> takes over
  that many descriptors from 3 on: \<open>sd_listen_fds\<close> returns the number, all of them and no others are marked
  close-on-exec, other flags stay, and the variables are removed exactly if that was asked for. This needs an
  \<open>errno\<close> of 0 at the call.\<close>

theorem listen_fds_takes_over:
  assumes "fd_table K flags" "p_errno s = 0"
    and "environ s ''LISTEN_PID'' = Some (show_nat pid)" "px_getpid K (world s) = int pid" "0 < pid" "pid < 2 ^ 31"
    and "environ s ''LISTEN_FDS'' = Some (show_nat n)" "0 < n" "n \<le> 2147483644"
    and "\<forall>fd. 3 \<le> fd \<and> fd < 3 + int n \<longrightarrow> flags (world s) fd \<noteq> None"
  shows "\<exists>s'. run_state (sd_listen_fds K unset) s = (int n, s') \<and>
    (\<forall>fd. flags (world s') fd =
       (if 3 \<le> fd \<and> fd < 3 + int n then map_option (\<lambda>f. f OR 1) (flags (world s) fd) else flags (world s) fd)) \<and>
    environ s' = (if unset then (environ s)(''LISTEN_PID'' := None, ''LISTEN_FDS'' := None, ''LISTEN_FDNAMES'' := None)
                  else environ s) \<and>
    p_errno s' = 0"
proof -
  obtain w' where "run_state (listen_fds_body K) s = (int n, s\<lparr>world := w'\<rparr>)"
    "flags w' = fd_table.marked flags 3 n (world s)"
    using fd_table.listen_fds_body_marks [OF assms(1)] assms by metis
  then show ?thesis
    using assms(1,2) by (auto simp: sd_listen_fds_def run_unsetenv_all fd_table.marked_def)
qed


text \<open>Failing system calls set \<open>errno\<close> to a positive number.\<close>

definition positive_errors :: "'w posix \<Rightarrow> bool" where
  "positive_errors K \<longleftrightarrow>
     (\<forall>fd f w e. (fst (px_getfd K fd w) = Inl e \<or> fst (px_setfd K fd f w) = Inl e) \<longrightarrow> e > 0) \<and>
     (\<forall>fd m w e. (fst (px_socket K w) = Inl e \<or> fst (px_sendmsg K fd m w) = Inl e) \<longrightarrow> e > 0)"

lemma positive_errorsD:
  assumes "positive_errors K"
  shows "px_getfd K fd w = (Inl e, w') \<Longrightarrow> 0 < e" "px_setfd K fd f w = (Inl e, w') \<Longrightarrow> 0 < e"
    "px_socket K w = (Inl e, w') \<Longrightarrow> 0 < e" "px_sendmsg K fd m w = (Inl e, w') \<Longrightarrow> 0 < e"
  using assms unfolding positive_errors_def by (metis fst_conv)+

lemma cloexec_loop_error:
  assumes "positive_errors K"
  shows "run_state (cloexec_loop K fd n) s = (Some r, s') \<Longrightarrow> r < 0"
proof (induction n arbitrary: fd s)
  case (Suc n)
  then show ?case
    by (auto dest!: positive_errorsD [OF assms] split: prod.splits sum.splits if_splits)
qed simp

lemma strtoul_end: "strtoul e = (v, p, b) \<Longrightarrow> p \<le> length e"
proof -
  have drop: "length (dropWhile c_isspace e) \<le> length e" by (rule length_dropWhile_le)
  have "length u \<le> length e \<Longrightarrow> length e - length u + length (takeWhile c_isdigit u) \<le> length e" for u
    using length_takeWhile_le [of c_isdigit u] by linarith
  then show "strtoul e = (v, p, b) \<Longrightarrow> p \<le> length e"
    using drop by (auto simp: strtoul_def Let_def split: list.splits if_splits)
qed

lemma listen_fds_count_sound:
  assumes "positive_errors K" "run_state (listen_fds_count K) s = (r, s')" "r > 0"
  shows "p_errno s \<le> 0 \<and> r \<le> 2147483644 \<and>
    (\<exists>e v. environ s ''LISTEN_FDS'' = Some e \<and> strtoul e = (v, length e, False) \<and> int32 (uint v) = r)"
  using assms(2,3)
  by (auto simp: listen_fds_count_def c_strtoul_def Let_def dest: strtoul_end cloexec_loop_error [OF assms(1)]
      split: option.splits prod.splits if_splits)

lemma listen_fds_body_sound:
  assumes "positive_errors K" "run_state (listen_fds_body K) s = (r, s')" "r > 0"
  shows "p_errno s \<le> 0 \<and> r \<le> 2147483644 \<and>
    (\<exists>e v. environ s ''LISTEN_PID'' = Some e \<and> strtoul e = (v, length e, False) \<and>
       int32 (uint v) = px_getpid K (world s)) \<and>
    (\<exists>e v. environ s ''LISTEN_FDS'' = Some e \<and> strtoul e = (v, length e, False) \<and> int32 (uint v) = r)"
  using assms(2,3)
  by (auto simp: listen_fds_body_def c_strtoul_def Let_def dest: strtoul_end dest!: listen_fds_count_sound [OF assms(1)]
      split: option.splits prod.splits if_splits)

text \<open>C29: whatever the environment and the kernel, \<open>sd_listen_fds\<close> removes its variables exactly if it was
  asked to and touches no others; and it returns a positive number only if \<open>LISTEN_PID\<close> and \<open>LISTEN_FDS\<close>
  are completely numbers, the first one (cut to 32 bits) the identifier of this process, the second one the
  number returned, and the descriptors from 3 on that it stands for are representable.\<close>

theorem listen_fds_sound:
  assumes "positive_errors K" "run_state (sd_listen_fds K unset) s = (r, s')"
  shows "environ s' = (if unset then (environ s)(''LISTEN_PID'' := None, ''LISTEN_FDS'' := None, ''LISTEN_FDNAMES'' := None)
                       else environ s) \<and>
    (r > 0 \<longrightarrow> r \<le> 2147483644 \<and>
       (\<exists>e v. environ s ''LISTEN_PID'' = Some e \<and> strtoul e = (v, length e, False) \<and>
          int32 (uint v) = px_getpid K (world s)) \<and>
       (\<exists>e v. environ s ''LISTEN_FDS'' = Some e \<and> strtoul e = (v, length e, False) \<and> int32 (uint v) = r))"
proof -
  obtain s1 where body: "run_state (listen_fds_body K) s = (r, s1)" "snd (run_state (unsetenv_all unset) s1) = s'"
    using assms(2) by (auto simp: sd_listen_fds_def split: prod.splits)
  moreover have "environ s1 = environ s" using keepsD [OF keeps_listen(2) body(1)] .
  ultimately show ?thesis
    using listen_fds_body_sound [OF assms(1) body(1)] by (auto simp: run_unsetenv_all)
qed

text \<open>\<open>errno\<close> is never cleared before \<open>strtoul\<close>: an error left behind by any earlier call makes
  \<open>sd_listen_fds\<close> fail with that error.\<close>

lemma listen_fds_stale_errno:
  assumes "environ s ''LISTEN_PID'' = Some e" "p_errno s > 0"
  shows "fst (run_state (sd_listen_fds K unset) s) = - (if snd (snd (strtoul e)) then 34 else p_errno s) \<and>
    world (snd (run_state (sd_listen_fds K unset) s)) = world s"
  using assms
  by (auto simp: sd_listen_fds_def listen_fds_body_def c_strtoul_def run_unsetenv_all Let_def split: prod.splits)

lemma run_store_pointer [simp]:
  "run_state (store_pointer sz i) s =
     ((), if 8 * i + 8 \<le> sz then s else s\<lparr>overruns := overruns s @ [OutOfBounds ''l'' (int i)]\<rparr>)"
  by (simp add: store_pointer_def)

lemma names_loop_spins:
  "run_state (names_loop k (Some t) l) s =
     (None, s\<lparr>overruns := overruns s @ map (\<lambda>i. OutOfBounds ''l'' (int i)) [length l..<length l + k]\<rparr>)"
  by (induction k arbitrary: l s) (simp_all add: upt_conv_Cons del: upt_Suc)

lemma strtok_first_None: "strtok_first e = None \<longleftrightarrow> (\<forall>c \<in> set e. c = CHR '':'')"
proof -
  have "strtok_first e = None \<longleftrightarrow> dropWhile (\<lambda>c. c = CHR '':'') e = []"
    unfolding strtok_first_def by (rule list.case_eq_if [THEN ssubst]) simp
  then show ?thesis by simp
qed

text \<open>C39: with names in \<open>LISTEN_FDNAMES\<close>, \<open>sd_listen_fds_with_names\<close> never returns: no fuel is enough, and
  every round stores a pointer behind the block it has allocated. A variable without any name makes it write
  through a null pointer. Without the variable it returns what \<open>sd_listen_fds\<close> returns and names every
  descriptor "unknown", its terminator being stored behind the block.\<close>

theorem listen_names_outcomes:
  "(environ s ''LISTEN_FDNAMES'' = Some e \<and> (\<exists>c \<in> set e. c \<noteq> CHR '':'') \<longrightarrow>
      run_state (sd_listen_fds_with_names fuel K unset True) s =
        (Unfinished, s\<lparr>overruns := overruns s @ map (\<lambda>i. OutOfBounds ''l'' (int i)) [0..<fuel]\<rparr>)) \<and>
   (environ s ''LISTEN_FDNAMES'' = Some e \<and> (\<forall>c \<in> set e. c = CHR '':'') \<and> fuel > 0 \<longrightarrow>
      run_state (sd_listen_fds_with_names fuel K unset True) s = (Segfault, s)) \<and>
   (environ s ''LISTEN_FDNAMES'' = None \<and> run_state (sd_listen_fds K unset) s = (n, s1) \<and> n > 0 \<longrightarrow>
      run_state (sd_listen_fds_with_names fuel K unset True) s =
        (Returned (n, Some (replicate (nat n) ''unknown'')),
         s1\<lparr>overruns := overruns s1 @ [OutOfBounds ''l'' n]\<rparr>))"
proof (intro conjI impI; elim conjE)
  assume e: "environ s ''LISTEN_FDNAMES'' = Some e" and "\<exists>c \<in> set e. c \<noteq> CHR '':''"
  then obtain t where "strtok_first e = Some t" using strtok_first_None [of e] by fastforce
  with e show "run_state (sd_listen_fds_with_names fuel K unset True) s =
        (Unfinished, s\<lparr>overruns := overruns s @ map (\<lambda>i. OutOfBounds ''l'' (int i)) [0..<fuel]\<rparr>)"
    by (simp add: sd_listen_fds_with_names_def names_loop_spins)
next
  assume e: "environ s ''LISTEN_FDNAMES'' = Some e" "fuel > 0" and "\<forall>c \<in> set e. c = CHR '':''"
  then have "strtok_first e = None" by (simp add: strtok_first_None)
  with e show "run_state (sd_listen_fds_with_names fuel K unset True) s = (Segfault, s)"
    by (cases fuel) (simp_all add: sd_listen_fds_with_names_def)
next
  assume "environ s ''LISTEN_FDNAMES'' = None" "run_state (sd_listen_fds K unset) s = (n, s1)" "n > 0"
  then show "run_state (sd_listen_fds_with_names fuel K unset True) s =
        (Returned (n, Some (replicate (nat n) ''unknown'')),
         s1\<lparr>overruns := overruns s1 @ [OutOfBounds ''l'' n]\<rparr>)"
    by (simp add: sd_listen_fds_with_names_def listen_fds_names_def)
qed


section \<open>Notifications\<close>

text \<open>The sockets opened and closed and the datagrams sent, recorded beside the world of a kernel.\<close>

datatype sd_call = Opened int | Sent int message | Closed int

definition quiet :: "('w \<Rightarrow> 'a \<times> 'w) \<Rightarrow> sd_call list \<times> 'w \<Rightarrow> 'a \<times> sd_call list \<times> 'w" where
  "quiet f = (\<lambda>(l, w). case f w of (x, w1) \<Rightarrow> (x, l, w1))"

definition noted :: "('a \<Rightarrow> sd_call) \<Rightarrow> ('w \<Rightarrow> (int + 'a) \<times> 'w) \<Rightarrow> sd_call list \<times> 'w \<Rightarrow> (int + 'a) \<times> sd_call list \<times> 'w" where
  "noted g f = (\<lambda>(l, w). case f w of (Inr x, w1) \<Rightarrow> (Inr x, l @ [g x], w1) | (Inl e, w1) \<Rightarrow> (Inl e, l, w1))"

definition recorded :: "'w posix \<Rightarrow> (sd_call list \<times> 'w) posix" where
  "recorded K =
     \<lparr>px_getpid = px_getpid K \<circ> snd, px_getuid = px_getuid K \<circ> snd, px_geteuid = px_geteuid K \<circ> snd,
      px_getgid = px_getgid K \<circ> snd, px_getegid = px_getegid K \<circ> snd,
      px_getfd = (\<lambda>fd. quiet (px_getfd K fd)), px_setfd = (\<lambda>fd f. quiet (px_setfd K fd f)),
      px_fstat = (\<lambda>fd. quiet (px_fstat K fd)), px_stat = (\<lambda>p. quiet (px_stat K p)),
      px_faccessat = (\<lambda>p. quiet (px_faccessat K p)),
      px_getsockopt = (\<lambda>fd opt v. quiet (px_getsockopt K fd opt v)),
      px_setsockopt = (\<lambda>fd opt v. quiet (px_setsockopt K fd opt v)),
      px_getsockname = (\<lambda>fd. quiet (px_getsockname K fd)),
      px_socket = noted Opened (px_socket K),
      px_sendmsg = (\<lambda>fd m. noted (\<lambda>_. Sent fd m) (px_sendmsg K fd m)),
      px_close = (\<lambda>fd (l, w). case px_close K fd w of (x, w1) \<Rightarrow> (x, l @ [Closed fd], w1)),
      px_pipe2 = quiet (px_pipe2 K), px_ppoll = (\<lambda>fd ev t. quiet (px_ppoll K fd ev t)),
      px_garbage = px_garbage K \<circ> snd, px_nxthdr = px_nxthdr K \<circ> snd\<rparr>"

abbreviation calls :: "(sd_call list \<times> 'w) process \<Rightarrow> sd_call list" where
  "calls s \<equiv> fst (world s)"

text \<open>The part of a process a notification leaves alone before it sends: what was recorded, and the environment.\<close>

definition visible :: "(sd_call list \<times> 'w) process \<Rightarrow> sd_call list \<times> (string \<Rightarrow> string option)" where
  "visible s = (calls s, environ s)"

lemma keeps_visible [keeps_intros]:
  "keeps visible (syscall (quiet f))" "keeps visible (log_assert_failed_return t)"
  by (auto simp: state_io_rel_def visible_def quiet_def split: prod.splits sum.splits)

lemma recorded_calls:
  "px_socket (recorded K) = noted Opened (px_socket K)"
  "px_getsockopt (recorded K) fd opt v = quiet (px_getsockopt K fd opt v)"
  "px_setsockopt (recorded K) fd opt v = quiet (px_setsockopt K fd opt v)"
  by (simp_all add: recorded_def)

lemma keeps_sndbuf [keeps_intros]: "keeps visible (fd_inc_sndbuf (recorded K) fd n)"
  unfolding fd_inc_sndbuf_def fd_set_sndbuf_def setsockopt_int_def recorded_calls Let_def by (intro keeps_intros)

lemma keeps_ucred [keeps_intros]: "keeps visible (send_ucred K pid)"
  unfolding send_ucred_def by (intro keeps_intros)

lemma keeps_message [keeps_intros]: "keeps visible (notify_message K pid e st fds uc)"
  unfolding notify_message_def assert_se_def Let_def by (intro keeps_intros)

lemma notify_message_parts:
  "run_state (notify_message K pid e st fds uc) s = (Some m, s') \<Longrightarrow>
     msg_name m = notify_sockaddr e \<and> msg_iov m = st \<and> msg_rights m = fds"
  by (auto simp: notify_message_def assert_se_def Let_def split: if_splits)

lemma notify_send_outcome:
  assumes "positive_errors K" "run_state (notify_send (recorded K) fd m) s = (r, s')"
  shows "environ s' = environ s \<and>
    (r = 1 \<and> (\<exists>cr \<in> {msg_creds m, None}. calls s' = calls s @ [Sent fd (m\<lparr>msg_creds := cr\<rparr>)]) \<or>
     r < 0 \<and> calls s' = calls s)"
  using assms(2)
  by (auto simp: notify_send_def recorded_def noted_def dest: positive_errorsD [OF assms(1)]
      split: prod.splits sum.splits if_splits)

lemma run_notify_finish:
  "run_state (notify_finish (recorded K) unset fd r) s = (x, s') \<Longrightarrow>
     x = Returned r \<and> calls s' = calls s @ (case fd of None \<Rightarrow> [] | Some f \<Rightarrow> [Closed f]) \<and>
     environ s' = (if unset then (environ s)(''NOTIFY_SOCKET'' := None) else environ s)"
  by (auto simp: notify_finish_def recorded_def split: option.splits prod.splits sum.splits if_splits)


lemma notify_message_None:
  "run_state (notify_message K pid e st fds uc) s = (None, s') \<Longrightarrow> fds \<noteq> []"
  by (auto simp: notify_message_def assert_se_def Let_def split: if_splits)

definition notified :: "string \<Rightarrow> string \<Rightarrow> int list \<Rightarrow> int \<Rightarrow> sd_call list \<Rightarrow> bool" where
  "notified e text fds fd cs \<longleftrightarrow>
     (\<exists>m. cs = [Sent fd m, Closed fd] \<and> msg_name m = notify_sockaddr e \<and> msg_iov m = text \<and> msg_rights m = fds)"

lemma notify_on_socket_outcome:
  assumes pos: "positive_errors K"
    and run: "run_state (notify_on_socket (recorded K) pid unset e st fds fd) s = (res, s')"
  shows "res = Segfault \<and> fds \<noteq> [] \<and> environ s' = environ s \<and> calls s' = calls s \<or>
    (\<exists>r cs. res = Returned r \<and> calls s' = calls s @ cs \<and>
       environ s' = (if unset then (environ s)(''NOTIFY_SOCKET'' := None) else environ s) \<and>
       (r < 0 \<and> cs = [Closed fd] \<or> r = 1 \<and> notified e st fds fd cs))"
proof -
  obtain i s1 where s1: "run_state (fd_inc_sndbuf (recorded K) fd 8388608) s = (i, s1)" by fastforce
  obtain uc s2 where s2: "run_state (send_ucred (recorded K) pid) s1 = (uc, s2)" by fastforce
  obtain msg s3 where s3: "run_state (notify_message (recorded K) pid e st fds uc) s2 = (msg, s3)" by fastforce
  have same: "calls s3 = calls s" "environ s3 = environ s"
    using keepsD [OF keeps_sndbuf s1] keepsD [OF keeps_ucred s2] keepsD [OF keeps_message s3]
    by (simp_all add: visible_def)
  show ?thesis
  proof (cases msg)
    case None
    with s1 s2 s3 run same notify_message_None [of "recorded K"] show ?thesis by (auto simp: notify_on_socket_def)
  next
    case (Some m)
    obtain r s4 where s4: "run_state (notify_send (recorded K) fd m) s3 = (r, s4)" by fastforce
    with Some s1 s2 s3 run have "run_state (notify_finish (recorded K) unset (Some fd) r) s4 = (res, s')"
      by (simp add: notify_on_socket_def)
    from run_notify_finish [OF this] notify_send_outcome [OF pos s4] same notify_message_parts [OF s3 [unfolded Some]]
    show ?thesis by (auto simp: notified_def)
  qed
qed

text \<open>C28: a notification sends at most one datagram, and closes the socket it opened on every path on which it
  returns. It returns 1 exactly if the datagram was sent: to the address of \<open>NOTIFY_SOCKET\<close>, with the text and
  the descriptors of the caller; otherwise the result is at most 0. \<open>NOTIFY_SOCKET\<close> is removed exactly if that
  was asked for. The only other end is the write through the second control header, with descriptors to pass.\<close>

theorem notify_outcome:
  assumes "positive_errors K"
    and "run_state (sd_pid_notify_with_fds (recorded K) pid unset (Some text) fds n) s = (res, s')"
  shows "case res of
      Segfault \<Rightarrow> n > 0 \<and> environ s' = environ s \<and> (\<exists>fd. calls s' = calls s @ [Opened fd])
    | Unfinished \<Rightarrow> False
    | Returned r \<Rightarrow>
        environ s' = (if unset then (environ s)(''NOTIFY_SOCKET'' := None) else environ s) \<and>
        (r \<le> 0 \<and> (calls s' = calls s \<or> (\<exists>fd. calls s' = calls s @ [Opened fd, Closed fd])) \<or>
         r = 1 \<and> (\<exists>fd e m. environ s ''NOTIFY_SOCKET'' = Some e \<and>
           calls s' = calls s @ [Opened fd, Sent fd m, Closed fd] \<and>
           msg_name m = notify_sockaddr e \<and> msg_iov m = text \<and>
           msg_rights m = (if n > 0 then take n (the fds) else [])))"
proof -
  consider (early) "n > 0 \<and> fds = None" | (unset) "\<not> (n > 0 \<and> fds = None)" "environ s ''NOTIFY_SOCKET'' = None"
    | (fails) e err w where "\<not> (n > 0 \<and> fds = None)" "environ s ''NOTIFY_SOCKET'' = Some e"
        "px_socket K (snd (world s)) = (Inl err, w)"
    | (opens) e fd w where "\<not> (n > 0 \<and> fds = None)" "environ s ''NOTIFY_SOCKET'' = Some e"
        "px_socket K (snd (world s)) = (Inr fd, w)"
    by (metis not_None_eq obj_sumE surj_pair)
  then show ?thesis
  proof cases
    case early
    with assms(2) show ?thesis
      by (auto simp: sd_pid_notify_with_fds_def dest!: run_notify_finish)
  next
    case unset
    with assms(2) show ?thesis
      by (auto simp: sd_pid_notify_with_fds_def fun_upd_idem)
  next
    case fails
    with assms(2) positive_errorsD(3) [OF assms(1) fails(3)] show ?thesis
      by (auto simp: sd_pid_notify_with_fds_def recorded_calls noted_def
          split: prod.splits dest!: run_notify_finish)
  next
    case opens
    then have "run_state (notify_on_socket (recorded K) pid unset e text (if n > 0 then take n (the fds) else []) fd)
        (s\<lparr>world := (calls s @ [Opened fd], w)\<rparr>) = (res, s')"
      using assms(2) by (cases "world s") (auto simp: sd_pid_notify_with_fds_def recorded_calls noted_def)
    from notify_on_socket_outcome [OF assms(1) this] opens show ?thesis
      by (auto simp: notified_def split: if_splits)
  qed
qed


text \<open>Without a supervisor there is no barrier and no error: \<open>sd_notify_barrier\<close> returns the negative of what
  \<open>errno\<close> was before the call.\<close>

lemma barrier_without_supervisor:
  assumes "environ s ''NOTIFY_SOCKET'' = None" "px_pipe2 K (world s) = (Inr (rd, wr), w1)"
    and "px_close K wr w1 = (Inr (), w2)" "px_close K rd w2 = (Inr (), w3)"
  shows "run_state (sd_notify_barrier K unset timeout) s = (Returned (- p_errno s), s\<lparr>world := w3\<rparr>)"
  using assms by (simp add: sd_notify_barrier_def sd_pid_notify_with_fds_def barrier_wait_def)

text \<open>A finite timeout is converted without loss.\<close>

lemma timespec_store_exact:
  assumes "u \<noteq> - 1"
  shows "fst (timespec_store u) * 1000000 + snd (timespec_store u) div 1000 = uint u \<and>
    0 \<le> snd (timespec_store u) \<and> snd (timespec_store u) < 1000000000"
proof -
  have q: "uint (u div 1000000) = uint u div 1000000" by (simp add: uint_div)
  have r: "uint (u mod 1000000) = uint u mod 1000000" by (simp add: uint_mod)
  have "uint u < 2 ^ 64" using uint_lt2p [of u] by simp
  then have small: "uint (u div 1000000) < 2 ^ 63 - 1" using q by simp
  have "0 \<le> uint u mod 1000000" "uint u mod 1000000 < 1000000" by simp_all
  then have "uint (u mod 1000000 * 1000) = uint u mod 1000000 * 1000"
    by (simp add: uint_word_arith_bintrs(3) r take_bit_int_eq_self)
  with assms small q show ?thesis by (simp add: timespec_store_def)
qed

section \<open>Sockets\<close>

text \<open>For an internet family and no port, \<open>sd_is_socket_inet\<close> is \<open>sd_is_socket\<close>.\<close>

lemma socket_inet_any_port:
  assumes "family \<in> {2, 10}"
  shows "run_state (sd_is_socket_inet K fd family type listening 0) s = run_state (sd_is_socket K fd family type listening) s"
  using assms
  by (auto simp: sd_is_socket_inet_def sd_is_socket_def assert_return_def with_sockname_def split: prod.splits option.splits sum.splits)


lemma mem_exact: "i + n \<le> length m \<Longrightarrow> mem m i n = take n (drop i m)"
  by (simp add: mem_def)

lemma length_mem [simp]: "length (mem m i n) = n"
  by (simp add: mem_def)

lemma mem_all: "length m = n \<Longrightarrow> mem m 0 n = m"
  by (simp add: mem_def)

lemma notify_sockaddr_path:
  assumes "length e < 108" "e \<noteq> []" "hd e \<noteq> CHR ''@''"
  shows "notify_sockaddr e = [CHR 0x01, CHR 0x00] @ e @ replicate (126 - length e) (CHR 0x00)"
proof -
  obtain c cs where e: "e = c # cs" using assms(2) by (cases e) auto
  have "mem (take 108 e) 0 108 = e @ replicate (108 - length e) (CHR 0x00)"
    using assms(1) by (simp add: mem_def)
  moreover have "replicate (108 - length e) (CHR 0x00) @ replicate 18 (CHR 0x00) = replicate (126 - length e) (CHR 0x00)"
    using assms(1) by (simp add: replicate_add [symmetric])
  ultimately show ?thesis using assms(3) by (simp add: notify_sockaddr_def Let_def e)
qed

lemma terminated_prefix:
  assumes "CHR 0x00 \<notin> set p" "CHR 0x00 \<notin> set e" "length p \<le> length e" "k > 0"
  shows "take (Suc (length p)) (e @ replicate k (CHR 0x00)) = p @ [CHR 0x00] \<longleftrightarrow> p = e"
proof (cases "length p = length e")
  case True
  obtain j where "k = Suc j" using assms(4) by (cases k) auto
  with True show ?thesis by auto
next
  case False
  with assms(3) have "take (Suc (length p)) (e @ replicate k (CHR 0x00)) = take (Suc (length p)) e" by simp
  moreover have "take (Suc (length p)) e \<noteq> p @ [CHR 0x00]"
    using assms(2) by (metis in_set_conv_decomp in_set_takeD)
  ultimately show ?thesis using False by auto
qed

text \<open>C30: of a socket bound to the path a notification is sent to, \<open>sd_is_socket_unix\<close> says 1 for that path and
  0 for every other one, longer or shorter paths included.\<close>

theorem unix_path_recognised:
  assumes "px_fstat K fd (world s) = (Inr st, world s)" "S_ISSOCK (st_mode st)" "fd \<ge> 0"
    and "px_getsockname K fd (world s) = (Inr (notify_sockaddr e, 2 + length e + 1), world s)"
    and "CHR 0x00 \<notin> set e" "length e < 108" "e \<noteq> []" "hd e \<noteq> CHR ''@''"
    and "CHR 0x00 \<notin> set path" "path \<noteq> []"
  shows "run_state (sd_is_socket_unix K fd 0 (-1) (Some path) 0) s = (of_bool (path = e), s)"
proof -
  let ?sa = "notify_sockaddr e"
  have sa: "?sa = [CHR 0x01, CHR 0x00] @ e @ replicate (126 - length e) (CHR 0x00)"
    using assms by (intro notify_sockaddr_path)
  then have len: "length ?sa = 128" using assms(6) by simp
  have int: "run_state (sd_is_socket_internal K fd 0 (-1)) s = (1, s)"
    using assms(1-3) by (simp add: sd_is_socket_internal_def assert_return_def)
  have fam: "u16 ?sa 0 = 1" by (simp add: u16_def mem_def sa)
  have plen: "length (takeWhile (\<lambda>c. c \<noteq> CHR 0x00) path) = length path"
    using assms(9) by (subst takeWhile_eq_all_conv [THEN iffD2]) auto
  have hd: "mem path 0 1 \<noteq> [CHR 0x00]" using assms(9,10) by (cases path) (auto simp: mem_def)
  have path: "mem path 0 (length path + 1) = path @ [CHR 0x00]" by (simp add: mem_def)
  have cmp: "2 + length e + 1 \<ge> 2 + length path + 1 \<and> path @ [CHR 0x00] = mem ?sa 2 (length path + 1) \<longleftrightarrow> path = e"
  proof (cases "length path \<le> length e")
    case True
    then have "mem ?sa 2 (length path + 1) = take (Suc (length path)) (e @ replicate (126 - length e) (CHR 0x00))"
      using len assms(6) by (subst mem_exact) (simp_all add: sa)
    with terminated_prefix [OF assms(9,5) True, of "126 - length e"] assms(6) True show ?thesis by auto
  qed auto
  have buf: "mem (take 128 ?sa) 0 128 = ?sa" using len by (simp add: mem_all)
  have ifs: "(if length path = 0 then A else if mem path 0 1 \<noteq> [CHR 0x00] then B else C) = B" for A B C :: "('w, int) prog"
    using hd assms(10) by simp
  have name: "run_state (with_sockname K fd f) s = run_state (f ?sa (2 + length e + 1)) s" for f
    by (simp add: with_sockname_def assms(4) buf)
  show ?thesis
    unfolding sd_is_socket_unix_def assert_return_def
    by (simp only: run_state_bind int assms(3) prod.case option.case if_True if_False not_one_le_zero name fam plen
        Let_def ifs path cmp run_state_return simp_thms refl)
qed

section \<open>Witnesses\<close>

definition demo_process :: "(string \<Rightarrow> string option) \<Rightarrow> 'w \<Rightarrow> 'w process" where
  "demo_process env w = \<lparr>environ = env, p_errno = 0, world = w, printed = [], overruns = []\<rparr>"

definition demo_listen :: "(int \<Rightarrow> int option) process" where
  "demo_listen = demo_process [''LISTEN_PID'' \<mapsto> show_nat 7, ''LISTEN_FDS'' \<mapsto> show_nat 2]
     (\<lambda>fd. if 0 \<le> fd \<and> fd < 6 then Some 0 else None)"

theorem listen_fds_takes_over_witness:
  "\<exists>s'. run_state (sd_listen_fds (table_posix 7) True) demo_listen = (2, s') \<and>
     map (world s') [2, 3, 4, 5] = [Some 0, Some 1, Some 1, Some 0] \<and> environ s' ''LISTEN_FDS'' = None"
  using listen_fds_takes_over [OF table.fd_table_axioms, of demo_listen 7 7 2 True]
  by (auto simp: demo_listen_def demo_process_def table_posix_def)

lemma positive_table: "positive_errors (table_posix pid)"
  by (auto simp: positive_errors_def table_posix_def split: option.splits)

theorem listen_fds_sound_witness:
  "\<exists>s'. run_state (sd_listen_fds (table_posix 7) True) demo_listen = (2, s') \<and>
     environ s' ''LISTEN_PID'' = None \<and> (2 :: int) \<le> 2147483644"
proof -
  obtain w' where "run_state (listen_fds_body (table_posix 7)) demo_listen = (2, demo_listen\<lparr>world := w'\<rparr>)"
    using table.listen_fds_body_marks [of demo_listen 2 7 7]
    by (auto simp: demo_listen_def demo_process_def table_posix_def)
  then obtain s' where s': "run_state (sd_listen_fds (table_posix 7) True) demo_listen = (2, s')"
    by (simp add: sd_listen_fds_def run_unsetenv_all)
  from listen_fds_sound [OF positive_table this] s' show ?thesis by auto
qed

theorem listen_names_outcomes_witness:
  "run_state (sd_listen_fds_with_names 2 (table_posix 7) True True) (demo_process [''LISTEN_FDNAMES'' \<mapsto> ''web:log''] Map.empty) =
     (Unfinished, (demo_process [''LISTEN_FDNAMES'' \<mapsto> ''web:log''] Map.empty)
        \<lparr>overruns := [OutOfBounds ''l'' 0, OutOfBounds ''l'' 1]\<rparr>)"
  using listen_names_outcomes [of "demo_process [''LISTEN_FDNAMES'' \<mapsto> ''web:log''] Map.empty" "''web:log''" 2 "table_posix 7" True]
  by (simp add: demo_process_def numeral_2_eq_2)

definition demo_socket :: "(int \<Rightarrow> int option) posix" where
  "demo_socket = (table_posix 7)
     \<lparr>px_socket := (\<lambda>w. (Inr 5, w)), px_sendmsg := (\<lambda>fd m w. (Inr (), w)),
      px_fstat := (\<lambda>fd w. (Inr \<lparr>st_mode = 0xC000, st_dev = 0, st_ino = 0, st_rdev = 0\<rparr>, w)),
      px_getsockname := (\<lambda>fd w. (Inr (notify_sockaddr ''/run/n'', 9), w))\<rparr>"

definition demo_notify :: "(sd_call list \<times> (int \<Rightarrow> int option)) process" where
  "demo_notify = demo_process [''NOTIFY_SOCKET'' \<mapsto> ''/run/n''] ([], Map.empty)"

lemma positive_demo_socket: "positive_errors demo_socket"
  using positive_table [of 7] by (simp add: positive_errors_def demo_socket_def)

lemma demo_notify_runs:
  "\<exists>s'. run_state (sd_pid_notify_with_fds (recorded demo_socket) 0 True (Some ''READY=1'') None 0) demo_notify =
     (Returned 1, s')"
  by (simp add: sd_pid_notify_with_fds_def demo_notify_def demo_process_def recorded_def demo_socket_def table_posix_def
      noted_def quiet_def notify_on_socket_def fd_inc_sndbuf_def fd_set_sndbuf_def setsockopt_int_def sndbuf_fits_def
      send_ucred_def notify_message_def notify_send_def notify_finish_def Let_def)

theorem notify_outcome_witness:
  "\<exists>s' fd m. run_state (sd_pid_notify_with_fds (recorded demo_socket) 0 True (Some ''READY=1'') None 0) demo_notify =
       (Returned 1, s') \<and>
     calls s' = [Opened fd, Sent fd m, Closed fd] \<and> msg_iov m = ''READY=1'' \<and> environ s' ''NOTIFY_SOCKET'' = None"
proof -
  obtain s' where s': "run_state (sd_pid_notify_with_fds (recorded demo_socket) 0 True (Some ''READY=1'') None 0) demo_notify =
     (Returned 1, s')" using demo_notify_runs by blast
  from notify_outcome [OF positive_demo_socket s'] show ?thesis
    using s' by (auto simp: demo_notify_def demo_process_def)
qed

lemma demo_socket_simps [simp]:
  "px_fstat demo_socket fd w = (Inr \<lparr>st_mode = 0xC000, st_dev = 0, st_ino = 0, st_rdev = 0\<rparr>, w)"
  "px_getsockname demo_socket fd w = (Inr (notify_sockaddr ''/run/n'', 9), w)"
  by (simp_all add: demo_socket_def)

theorem unix_path_recognised_witness:
  "run_state (sd_is_socket_unix demo_socket 5 0 (-1) (Some ''/run/n'') 0) demo_listen = (1, demo_listen) \<and>
   run_state (sd_is_socket_unix demo_socket 5 0 (-1) (Some ''/run/m'') 0) demo_listen = (0, demo_listen)"
  using unix_path_recognised [of demo_socket 5 demo_listen _ "''/run/n''"]
  by (simp add: S_ISSOCK_def)

end
