(* ===== verification/Spec2Isabelle.thy ===== *)
theory Spec2Isabelle
  imports Process Manager_Main Wsrpc_Refs Lssys Wsrpc_Types Wsrpcgen_Props Idl_Files Event_KQueue Addsys Sd_Daemon_Props
begin

text \<open>
  \<^bold>\<open>A verification library for the eComInit service manager.\<close>

  \<^bold>\<open>The program.\<close> A manager process (\<^verbatim>\<open>src/cmd/manager\<close>) keeps a repository of service descriptions
  and answers requests of clients over a UNIX socket. It is built on a library (\<^verbatim>\<open>src/lib/eci\<close>,
  \<^verbatim>\<open>src/hdr/eci\<close>) with an event loop (one class, two drivers: \<open>poll\<close> and kernel queues), an RPC layer
  (requests and responses as JSON objects in length-prefixed frames) and helpers for SQLite and processes.
  A command imports bundles of services into the repository (\<^verbatim>\<open>src/cmd/addsys.cc\<close>), another asks a running manager (\<^verbatim>\<open>src/cmd/lssys.cc\<close>). A generator
  (\<^verbatim>\<open>src/cmd/wsrpcgen\<close>) writes the C++ stubs of an RPC interface: serialisers, the dispatcher of the
  server, the calls of the client. Services use a C library (\<^verbatim>\<open>src/lib/eci-daemon\<close>) for socket activation and for
  notifications to their supervisor. The manager registers itself as a handler with the event loop; the loop calls
  it for its listening socket and its clients; it passes the events to the RPC listener, which accepts,
  reads, dispatches to the generated request handler, and tells the manager about clients that come and go.

  \<^bold>\<open>The theories.\<close> Each opens with what it holds and how its state corresponds to the code.

  \<^descr>[\<^verbatim>\<open>Eci_Prelude\<close>] constants of the platform, faults, 32-bit truncation, decimal numerals, first-match
    operations on lists with their lemmas.
  \<^descr>[\<^verbatim>\<open>Eci_Core\<close>] \<^verbatim>\<open>lib/eci/Core.c\<close>: the conversion of timeouts, the classification of exit statuses, the
    splitting of a command line.
  \<^descr>[\<^verbatim>\<open>Process\<close>] the rest of \<^verbatim>\<open>Core.c\<close>: a parent, its children and the pipes between them; forking a child that is held
    back, letting it go on, and the steps of the child, interleaved by an inductive relation.
  \<^descr>[\<^verbatim>\<open>Logger\<close>] \<^verbatim>\<open>lib/eci/Logger.cc\<close>: the text of every kind of log line, and a terminal that renders it.
  \<^descr>[\<^verbatim>\<open>Watch_List\<close>] what \<^verbatim>\<open>Event.hh\<close> promises about descriptors: the abstract watch list and the locale
    \<open>watch_list\<close>, in which refinement of every admissible sequence of calls, and of the values they return, is proved once.
  \<^descr>[\<^verbatim>\<open>Event_Poll\<close>, \<^verbatim>\<open>Event_Dispatch\<close>, \<^verbatim>\<open>Event_Props\<close>] \<^verbatim>\<open>lib/eci/Event-Poll.cc\<close>: the members of the class and
    the static variables of the driver as one record, one definition per operation, the signal handler, the
    dispatch loop; the driver interprets \<open>watch_list\<close>. The locale \<open>quiet_handlers\<close> is the contract under which one
    iteration is exact, and \<open>steady_handlers\<close> the weaker one for handlers that leave the loop alone only as long as a condition on their
    own state holds; reachable states keep the invariants of the watch list and of the timer table.
  \<^descr>[\<^verbatim>\<open>Event_KQueue\<close>] \<^verbatim>\<open>lib/eci/Event-KQueue.cc\<close>: the second driver. The kernel is a parameter with the laws
    of the locale \<open>kernel_queue\<close>, a sublocale of \<open>watch_list\<close>; both drivers are equivalent as watch lists.
  \<^descr>[\<^verbatim>\<open>Ucl_Api\<close>] the interface of libucl, a parameter with the laws of the locale \<open>ucl_laws\<close>, and an instance.
  \<^descr>[\<^verbatim>\<open>Wsrpc\<close>, \<^verbatim>\<open>Wsrpc_Props\<close>, \<^verbatim>\<open>Wsrpc_Listener\<close>] \<^verbatim>\<open>lib/eci/WSRPC.cc\<close> and \<^verbatim>\<open>hdr/eci/WSRPC.hh\<close>: messages, frames,
    the transport with its completions, dispatch to services, synchronous waiting, the listener. The locale
    \<open>quiet_services\<close> is the contract of request handlers.
  \<^descr>[\<^verbatim>\<open>Wsrpc_Types\<close>] typing rules for the messages of the protocol and their soundness, in the locale \<open>rpc_peer\<close>, which joins
    \<open>ucl_laws\<close> and \<open>quiet_services\<close>.
  \<^descr>[\<^verbatim>\<open>Manager\<close>, \<^verbatim>\<open>Manager_Live\<close>] \<^verbatim>\<open>cmd/manager/Manager.cc\<close>: start-up, handlers, delegate methods, the main loop,
    composed with the event loop and the listener as in the code; the watch list and the clients stay in step, and
    \<open>SIGINT\<close> ends the main loop.
  \<^descr>[\<^verbatim>\<open>Manager_Serve\<close>] the running manager as a server: an abstract server with a queue of requests for every client, and the
    proof that event loop, manager, listener, transports and services together implement it (an interpretation of \<open>steady_handlers\<close>).
  \<^descr>[\<^verbatim>\<open>Wsrpc_Refs\<close>] the operations of the RPC layer and the destructors once more, with a ledger of the references to libucl objects
    that they take and drop; without the ledger they are the operations of \<^verbatim>\<open>Wsrpc\<close>.
  \<^descr>[\<^verbatim>\<open>Manager_Main\<close>] \<open>main\<close> of the manager: start-up with the repository, the main loop, shutdown.
  \<^descr>[\<^verbatim>\<open>Lssys\<close>] \<^verbatim>\<open>cmd/lssys.cc\<close>: the options, the connection, one call through the generated stub, output and status.
  \<^descr>[\<^verbatim>\<open>Sqlite\<close>] \<^verbatim>\<open>lib/eci/SQLite.c\<close>: formatted statements and queries for numbers over a parameter for SQLite, a
    state monad with program exit, and a small logic (\<open>writes\<close>) for the statements that a run executes.
  \<^descr>[\<^verbatim>\<open>Addsys\<close>] \<^verbatim>\<open>cmd/addsys.cc\<close>: from a bundle to a tree of properties, and its import in one transaction.
  \<^descr>[\<^verbatim>\<open>Backend\<close>] \<^verbatim>\<open>cmd/manager/Backend.cc\<close> and \<^verbatim>\<open>RPC.cc\<close>: opening and checking the two repositories, lookup, snapshots, shutdown.
  \<^descr>[\<^verbatim>\<open>Idl\<close>] \<^verbatim>\<open>cmd/wsrpcgen/wsrpcgen.hh\<close> and \<^verbatim>\<open>scope.cc\<close>: syntax trees and the resolution of qualified names.
  \<^descr>[\<^verbatim>\<open>Regex\<close>] regular expressions, the longest match by derivatives, the choice among rules.
  \<^descr>[\<^verbatim>\<open>Idl_Lexer\<close>, \<^verbatim>\<open>Idl_Lexer_Props\<close>] \<^verbatim>\<open>cmd/wsrpcgen/wsrpcgen.l\<close>: the rules and actions of the scanner, the positions it keeps, the reports of
    syntax errors.
  \<^descr>[\<^verbatim>\<open>Idl_Parser\<close>, \<^verbatim>\<open>Idl_Parser_Props\<close>, \<^verbatim>\<open>Idl_Files\<close>] \<^verbatim>\<open>cmd/wsrpcgen/wsrpcgen.y\<close>: the grammar as inductive definitions, a predictive parser that
    agrees with it (the locale \<open>reads\<close> is the contract of a function that reads a nonterminal), and the reading of files with their imports.
  \<^descr>[\<^verbatim>\<open>Wsrpcgen\<close>, \<^verbatim>\<open>Wsrpcgen_Props\<close>] \<^verbatim>\<open>cmd/wsrpcgen/gen.cc\<close> and \<^verbatim>\<open>wsrpcgen.cc\<close>: every function of the generator as
    the list of the calls it makes on the output stream, and the command.
  \<^descr>[\<^verbatim>\<open>Sd_Daemon\<close>, \<^verbatim>\<open>Sd_Daemon_Props\<close>] \<^verbatim>\<open>lib/eci-daemon/sd-daemon.c\<close>: its functions as programs of the state monad over the
    environment, \<open>errno\<close> and a world that a record of system calls acts on. The locale \<open>fd_table\<close> is the contract of the descriptor table.

  \<^bold>\<open>What is shown.\<close> For the event loop: the effect of every operation, on every outcome, on the watch list and the
  timer table; refinement of the abstract watch list, and equivalence of the two drivers; exact dispatch of one iteration; invariants of all
  reachable states; and where it fails: accesses behind two arrays, events lost when a handler deregisters,
  the self-pipe that is never read, timer identifiers that are not unique. For RPC: round trips of values and of frames,
  exactly one answer per request, types of messages that no fault can come from, completion of the right caller, a complete synchronous call; and that a frame that arrives in
  pieces is destroyed; that no reference is dropped too early, and that the messages of served requests are never released. For the manager: which options start it, that it watches exactly its clients, that
  every request on its sockets is answered exactly once and in order, that it stops, and that a whole run from \<open>main\<close> ends with both repositories closed. For processes: a child never runs its command before it is told to, and always can
  afterwards, in every interleaving; and that the end of the parent releases it too. For the logger: what a terminal shows. For the importer: the
  transaction, what each status of the command means, and what is lost from a bundle. For the backend: both repositories are ready when start-up returns. For the interface language: the parser agrees with the grammar, interfaces are read
  back as they were written, error reports mark the token, reading ends unless imports are circular. For the generator: well
  bracketed files, resolution of names, unique names on the wire, and that only the first version of a program is dispatched.
  For the daemon library: which descriptors are taken over, one datagram per notification and no socket left open, recognition of socket paths;
  and that a stale \<open>errno\<close> makes activation fail and that reading the names of descriptors does not end.

  \<^bold>\<open>Conventions.\<close> System calls and third-party libraries are arguments: what they returned, or a record of functions.
  Undefined behaviour is recorded as a fault and the operation goes on with what the memory holds, or is an error value where it cannot.
  Assertions, \<open>die\<close> and \<open>exit\<close> are error values. A loop that a handler or a library may prolong takes fuel; each property that says such
  a loop returns states how much is enough: the number of entries, sources, clients or rows it runs over, and a constant; for serving, as many iterations as the longest
  queue has requests.
  Virtual calls of handlers, services and delegates are functions of an environment, and may call back.

  \<^bold>\<open>Not modelled.\<close> Console output other than that of the logger and the lister; the references that the importer and the generated stubs hold
  to libucl objects; the templates of
  flex and lemon (the scanner and the parser they make are taken to follow the rules and the grammar; what the parser does after a syntax error
  is left open); the stubs that the build generates from the interface (a parameter of the lister; the generator that writes them is modelled); the epoll driver and \<^verbatim>\<open>Proc.cc\<close>, which
  have no code; the branches of the daemon library for FreeBSD and NetBSD. Code that nothing calls: the types \<open>Object\<close>, \<open>Task\<close> and \<open>Transaction\<close>
  of \<^verbatim>\<open>Manager.hh\<close>, the second \<open>eciVASPrintF\<close> and the empty \<open>metadataSetVersion\<close> of \<^verbatim>\<open>Backend.cc\<close>, \<open>log_assert_failed\<close> and the disabled body of
  \<open>sd_is_mq\<close> in \<^verbatim>\<open>sd-daemon.c\<close>. The headers \<^verbatim>\<open>sd-daemon.h\<close> and \<^verbatim>\<open>_sd-common.h\<close> of the daemon library hold declarations and compiler attributes; of
  \<^verbatim>\<open>macro.h\<close> only \<open>IN_SET\<close> has a definition of its own, the other macros are expanded where the model follows their callers.
\<close>

end
